theory Spec2Isabelle
  imports Main "HOL-Library.Word" "HOL-Library.Signed_Division"
begin

unbundle bit_operations_syntax

section \<open>The REE file system of the secure storage (tee\_ree\_fs.c)\<close>

text \<open>
  The development follows \<^verbatim>\<open>src/compat/mitee_compat/tee_ree_fs.c\<close>: one secure object
  is one file of the normal world, holding a 4 byte meta counter, two versions of the
  meta data and two versions of every data block.

  C types. The code is read for a 32 bit target, as its own format strings say
  (\<^verbatim>\<open>%ld\<close> for \<^verbatim>\<open>uint32_t\<close>, \<^verbatim>\<open>%d\<close> for \<^verbatim>\<open>sizeof\<close>, \<^verbatim>\<open>%lld\<close> for \<^verbatim>\<open>tee_fs_off_t\<close>):
  \<^verbatim>\<open>int\<close> and \<^verbatim>\<open>size_t\<close> have 32 bits and \<^verbatim>\<open>tee_fs_off_t\<close> is a signed 64 bit integer.
  Fields of type \<^verbatim>\<open>uint32_t\<close> and \<^verbatim>\<open>size_t\<close> that are stored in a struct are \<open>32 word\<close>;
  the cursor \<^verbatim>\<open>pos\<close> and the values of local variables are \<open>int\<close> or \<open>nat\<close>, and every
  conversion of the source that can change a value is written out (\<open>to_int\<close>,
  \<open>to_size_t\<close>).
\<close>

type_synonym byte = "8 word"
type_synonym uint32_t = "32 word"

datatype TEE_Result =
    TEE_SUCCESS
  | TEE_ERROR_GENERIC
  | TEE_ERROR_BAD_PARAMETERS
  | TEE_ERROR_OUT_OF_MEMORY
  | TEE_ERROR_ITEM_NOT_FOUND
  | TEE_ERROR_CORRUPT_OBJECT
  | TEE_ERROR_MAC_INVALID

datatype tee_fs_file_type = META_FILE | BLOCK_FILE

datatype TEE_Whence =
    TEE_DATA_SEEK_SET
  | TEE_DATA_SEEK_CUR
  | TEE_DATA_SEEK_END
  | TEE_WHENCE_INVALID

text \<open>Conversion of a value to \<^verbatim>\<open>size_t\<close> (unsigned, 32 bits) and to \<^verbatim>\<open>int\<close> (two's
  complement, 32 bits).\<close>

definition to_size_t :: "int \<Rightarrow> nat" where
  "to_size_t x = nat (x mod 2 ^ 32)"

definition to_int :: "int \<Rightarrow> int" where
  "to_int x = (x + 2 ^ 31) mod 2 ^ 32 - 2 ^ 31"

text \<open>A \<^verbatim>\<open>uint32_t\<close> in memory, least significant byte first, as \<^verbatim>\<open>memcpy\<close> sees it.\<close>

definition bytes_of_u32 :: "uint32_t \<Rightarrow> byte list" where
  "bytes_of_u32 w =
     [ucast w, ucast (drop_bit 8 w), ucast (drop_bit 16 w), ucast (drop_bit 24 w)]"

definition u32_of_bytes :: "byte list \<Rightarrow> uint32_t" where
  "u32_of_bytes bs =
     foldr (\<lambda>b acc. ucast b OR push_bit 8 acc) (take 4 bs) 0"

subsection \<open>The structs\<close>

record tee_fs_file_info =
  length_f :: uint32_t
  backup_version_table :: "uint32_t list"

record tee_fs_file_meta =
  info :: tee_fs_file_info
  encrypted_fek :: "byte list"
  counter :: uint32_t

record tee_fs_fd =
  meta_counter :: uint32_t
  meta :: tee_fs_file_meta
  pos :: int
  flags :: uint32_t
  is_new_file :: bool
  fd :: int

text \<open>The memory image of \<^verbatim>\<open>struct tee_fs_file_info\<close> that is handed to the key manager:
  the length, then the words of the table. Reading an image back overwrites the leading
  bytes of the struct and keeps the rest.\<close>

definition bytes_of_info :: "tee_fs_file_info \<Rightarrow> byte list" where
  "bytes_of_info i =
     bytes_of_u32 (length_f i) @ concat (map bytes_of_u32 (backup_version_table i))"

fun words_of_bytes :: "nat \<Rightarrow> byte list \<Rightarrow> uint32_t list" where
  "words_of_bytes 0 bs = []"
| "words_of_bytes (Suc n) bs = u32_of_bytes (take 4 bs) # words_of_bytes n (drop 4 bs)"

definition info_of_bytes :: "byte list \<Rightarrow> tee_fs_file_info" where
  "info_of_bytes bs =
     \<lparr> length_f = u32_of_bytes (take 4 bs),
       backup_version_table = words_of_bytes ((length bs - 4) div 4) (drop 4 bs) \<rparr>"

definition fill_buf :: "byte list \<Rightarrow> byte list \<Rightarrow> byte list" where
  "fill_buf old new = take (length old) (new @ drop (length new) old)"

subsection \<open>What the absent headers fix\<close>

text \<open>
  The constants and the key manager's functions come from headers that are not part of
  the sources at hand (\<^verbatim>\<open>tee_fs_key_manager.h\<close>, \<^verbatim>\<open>tee_api_defines.h\<close>); they are
  parameters of the model. \<open>km_encrypt\<close> and \<open>km_decrypt\<close> are what
  \<^verbatim>\<open>tee_fs_encrypt_file\<close> and \<^verbatim>\<open>tee_fs_decrypt_file\<close> compute when they do not fail for
  a reason of their own; \<open>km_decrypt\<close> returns the plaintext and the encrypted FEK (read
  from the header of a meta file, passed through for a block), or \<open>None\<close> when the
  authentication fails.
\<close>

record config =
  NUM_BLOCKS_PER_FILE :: nat
  TEE_FS_KM_FEK_SIZE :: nat
  TEE_FS_NAME_MAX :: nat
  TEE_DATA_MAX_POSITION :: int
  sizeof_file_meta :: nat
  tee_fs_get_header_size :: "tee_fs_file_type \<Rightarrow> nat"
  km_generate_fek :: "nat \<Rightarrow> byte list"
  km_encrypt :: "tee_fs_file_type \<Rightarrow> byte list \<Rightarrow> byte list \<Rightarrow> byte list"
  km_decrypt :: "tee_fs_file_type \<Rightarrow> byte list \<Rightarrow> byte list \<Rightarrow> (byte list \<times> byte list) option"

definition BLOCK_SHIFT :: nat where
  "BLOCK_SHIFT = 8"

definition BLOCK_SIZE :: nat where
  "BLOCK_SIZE = 2 ^ BLOCK_SHIFT"

definition MAX_FILE_SIZE :: "config \<Rightarrow> int" where
  "MAX_FILE_SIZE cfg = int (BLOCK_SIZE * NUM_BLOCKS_PER_FILE cfg)"

definition sizeof_file_info :: "config \<Rightarrow> nat" where
  "sizeof_file_info cfg = 4 + 4 * (NUM_BLOCKS_PER_FILE cfg div 32)"

subsection \<open>The normal world\<close>

text \<open>
  Modelled from the spec: the RPC transport (\<^verbatim>\<open>tee_fs_rpc_open\<close>, \<^verbatim>\<open>tee_fs_rpc_read\<close>,
  \<^verbatim>\<open>tee_fs_rpc_write\<close>, \<^verbatim>\<open>tee_fs_rpc_close\<close>, \<^verbatim>\<open>tee_fs_rpc_remove\<close>), the allocator and the
  failures of the key manager are not in the sources. The spec describes positional I/O
  on one backing file per descriptor, where a read behind the end of the file returns
  no bytes, and a host that may refuse any call. The world holds the files by
  name as byte strings, the table of open descriptors, a schedule \<open>sched\<close> of the
  outcomes of the coming calls to a collaborator (a call takes the head; \<^const>\<open>TEE_SUCCESS\<close>
  or an empty schedule lets it proceed, any other code makes it fail with that code and
  without effect), and the log \<open>rlog\<close> of the RPC writes issued so far.
\<close>

datatype rpc_event = RpcWrite int nat nat TEE_Result

record world =
  ree_files :: "string \<Rightarrow> byte list option"
  ree_fds :: "int \<Rightarrow> string option"
  next_fd :: int
  sched :: "TEE_Result list"
  rlog :: "rpc_event list"

definition next_outcome :: "world \<Rightarrow> TEE_Result \<times> world" where
  "next_outcome w =
     (case sched w of [] \<Rightarrow> (TEE_SUCCESS, w) | r # rs \<Rightarrow> (r, w\<lparr>sched := rs\<rparr>))"

text \<open>Modelled from the spec: \<^verbatim>\<open>malloc\<close> and \<^verbatim>\<open>calloc\<close>; \<open>False\<close> is the null pointer.\<close>

definition malloc :: "nat \<Rightarrow> world \<Rightarrow> bool \<times> world" where
  "malloc n w = (case next_outcome w of (r, w') \<Rightarrow> (r = TEE_SUCCESS, w'))"

text \<open>Modelled from the spec: a file as a byte string. Writing behind its end pads the
  gap with bytes of value 0, so a gap inside the file reads as zeros in full length;
  reading at or behind the end returns no bytes, and across the end a short read.\<close>

definition write_at :: "byte list \<Rightarrow> nat \<Rightarrow> byte list \<Rightarrow> byte list" where
  "write_at f offs d =
     take offs (f @ replicate (offs - length f) 0) @ d @ drop (offs + length d) f"

definition read_at :: "byte list \<Rightarrow> nat \<Rightarrow> nat \<Rightarrow> byte list" where
  "read_at f offs n = take n (drop offs f)"

definition fd_file :: "world \<Rightarrow> int \<Rightarrow> byte list option" where
  "fd_file w d = (case ree_fds w d of None \<Rightarrow> None | Some name \<Rightarrow> ree_files w name)"

definition tee_fs_rpc_open :: "string \<Rightarrow> bool \<Rightarrow> world \<Rightarrow> TEE_Result \<times> int option \<times> world" where
  "tee_fs_rpc_open fname create w =
     (case next_outcome w of (r, w1) \<Rightarrow>
        if r \<noteq> TEE_SUCCESS then (r, None, w1)
        else if \<not> create \<and> ree_files w1 fname = None then (TEE_ERROR_ITEM_NOT_FOUND, None, w1)
        else (TEE_SUCCESS, Some (next_fd w1),
              w1\<lparr> ree_files := (if create then (ree_files w1)(fname \<mapsto> []) else ree_files w1),
                  ree_fds := (ree_fds w1)(next_fd w1 \<mapsto> fname),
                  next_fd := next_fd w1 + 1 \<rparr>))"

definition tee_fs_rpc_close :: "int \<Rightarrow> world \<Rightarrow> world" where
  "tee_fs_rpc_close d w = w\<lparr> ree_fds := (ree_fds w)(d := None) \<rparr>"

definition tee_fs_rpc_remove :: "string \<Rightarrow> world \<Rightarrow> world" where
  "tee_fs_rpc_remove fname w = w\<lparr> ree_files := (ree_files w)(fname := None) \<rparr>"

definition tee_fs_rpc_read :: "int \<Rightarrow> nat \<Rightarrow> nat \<Rightarrow> world \<Rightarrow> TEE_Result \<times> byte list \<times> world" where
  "tee_fs_rpc_read d n offs w =
     (case next_outcome w of (r, w1) \<Rightarrow>
        if r \<noteq> TEE_SUCCESS then (r, [], w1)
        else (case fd_file w1 d of
                None \<Rightarrow> (TEE_ERROR_GENERIC, [], w1)
              | Some f \<Rightarrow> (TEE_SUCCESS, read_at f offs n, w1)))"

definition tee_fs_rpc_write :: "int \<Rightarrow> byte list \<Rightarrow> nat \<Rightarrow> world \<Rightarrow> TEE_Result \<times> world" where
  "tee_fs_rpc_write d buf offs w =
     (case next_outcome w of (r, w1) \<Rightarrow>
        let res = (if r \<noteq> TEE_SUCCESS then r
                   else if fd_file w1 d = None then TEE_ERROR_GENERIC else TEE_SUCCESS);
            w2 = w1\<lparr> rlog := rlog w1 @ [RpcWrite d offs (length buf) res] \<rparr>
        in if res \<noteq> TEE_SUCCESS then (res, w2)
           else (TEE_SUCCESS,
                 w2\<lparr> ree_files := (ree_files w2)(the (ree_fds w2 d) \<mapsto>
                        write_at (the (fd_file w2 d)) offs buf) \<rparr>))"

text \<open>Modelled from the spec: the calls into the key manager. Each may fail for a reason of
  its own (the schedule); a decryption that does not authenticate is
  \<^const>\<open>TEE_ERROR_MAC_INVALID\<close>.\<close>

definition tee_fs_generate_fek :: "config \<Rightarrow> world \<Rightarrow> TEE_Result \<times> byte list option \<times> world" where
  "tee_fs_generate_fek cfg w =
     (case next_outcome w of (r, w1) \<Rightarrow>
        if r \<noteq> TEE_SUCCESS then (r, None, w1)
        else (TEE_SUCCESS, Some (km_generate_fek cfg (TEE_FS_KM_FEK_SIZE cfg)), w1))"

definition tee_fs_encrypt_file ::
  "config \<Rightarrow> tee_fs_file_type \<Rightarrow> byte list \<Rightarrow> byte list \<Rightarrow> world \<Rightarrow> TEE_Result \<times> byte list \<times> world" where
  "tee_fs_encrypt_file cfg file_type data_in encrypted_fek_in w =
     (case next_outcome w of (r, w1) \<Rightarrow>
        if r \<noteq> TEE_SUCCESS then (r, [], w1)
        else (TEE_SUCCESS, km_encrypt cfg file_type data_in encrypted_fek_in, w1))"

definition tee_fs_decrypt_file ::
  "config \<Rightarrow> tee_fs_file_type \<Rightarrow> byte list \<Rightarrow> byte list \<Rightarrow> world
     \<Rightarrow> TEE_Result \<times> (byte list \<times> byte list) option \<times> world" where
  "tee_fs_decrypt_file cfg file_type ct encrypted_fek_in w =
     (case next_outcome w of (r, w1) \<Rightarrow>
        if r \<noteq> TEE_SUCCESS then (r, None, w1)
        else (case km_decrypt cfg file_type ct encrypted_fek_in of
                None \<Rightarrow> (TEE_ERROR_MAC_INVALID, None, w1)
              | Some out \<Rightarrow> (TEE_SUCCESS, Some out, w1)))"

subsection \<open>The layout of the file\<close>

definition pos_to_block_num :: "int \<Rightarrow> int" where
  "pos_to_block_num position = to_int position div 2 ^ BLOCK_SHIFT"

definition get_backup_version_of_block :: "tee_fs_file_meta \<Rightarrow> nat \<Rightarrow> bool" where
  "get_backup_version_of_block m block_num =
     (let index = block_num div 32;
          block_mask = (push_bit (block_num mod 32) 1 :: uint32_t)
      in (backup_version_table (info m) ! index) AND block_mask \<noteq> 0)"

definition toggle_backup_version_of_block :: "tee_fs_file_meta \<Rightarrow> nat \<Rightarrow> tee_fs_file_meta" where
  "toggle_backup_version_of_block m block_num =
     (let index = block_num div 32;
          block_mask = (push_bit (block_num mod 32) 1 :: uint32_t);
          tbl = backup_version_table (info m)
      in m\<lparr> info := (info m)\<lparr> backup_version_table := tbl[index := (tbl ! index) XOR block_mask] \<rparr> \<rparr>)"

definition meta_size :: "config \<Rightarrow> nat" where
  "meta_size cfg = tee_fs_get_header_size cfg META_FILE + sizeof_file_meta cfg"

definition meta_pos_raw :: "config \<Rightarrow> tee_fs_fd \<Rightarrow> bool \<Rightarrow> nat" where
  "meta_pos_raw cfg fdp active =
     (let offs = 4
      in if (meta_counter fdp AND 1) = (if active then 1 else 0) then offs + meta_size cfg
         else offs)"

definition block_size_raw :: "config \<Rightarrow> nat" where
  "block_size_raw cfg = tee_fs_get_header_size cfg BLOCK_FILE + BLOCK_SIZE"

definition block_pos_raw :: "config \<Rightarrow> tee_fs_file_meta \<Rightarrow> nat \<Rightarrow> bool \<Rightarrow> nat" where
  "block_pos_raw cfg m block_num active =
     (let n = block_num * 2;
          n = (if active = get_backup_version_of_block m block_num then n + 1 else n)
      in 4 + meta_size cfg * 2 + n * block_size_raw cfg)"

subsection \<open>Encrypted I/O\<close>

definition encrypt_and_write_file ::
  "config \<Rightarrow> tee_fs_fd \<Rightarrow> tee_fs_file_type \<Rightarrow> nat \<Rightarrow> byte list \<Rightarrow> byte list \<Rightarrow> world
     \<Rightarrow> TEE_Result \<times> world" where
  "encrypt_and_write_file cfg fdp file_type offs data_in encrypted_fek_in w =
     (let header_size = tee_fs_get_header_size cfg file_type;
          ciphertext_size = header_size + length data_in
      in case malloc ciphertext_size w of (ok, w1) \<Rightarrow>
           if \<not> ok then (TEE_ERROR_OUT_OF_MEMORY, w1)
           else (case tee_fs_encrypt_file cfg file_type data_in encrypted_fek_in w1 of
                   (res, ciphertext, w2) \<Rightarrow>
                     if res \<noteq> TEE_SUCCESS then (res, w2)
                     else tee_fs_rpc_write (fd fdp) ciphertext offs w2))"

text \<open>The result carries what was stored through \<^verbatim>\<open>data_out\<close> and \<^verbatim>\<open>encrypted_fek\<close>
  (\<open>None\<close>: both untouched) and the final \<^verbatim>\<open>*data_out_size\<close>.\<close>

definition read_and_decrypt_file ::
  "config \<Rightarrow> tee_fs_fd \<Rightarrow> tee_fs_file_type \<Rightarrow> nat \<Rightarrow> nat \<Rightarrow> byte list \<Rightarrow> world
     \<Rightarrow> TEE_Result \<times> (byte list \<times> byte list) option \<times> nat \<times> world" where
  "read_and_decrypt_file cfg fdp file_type offs data_out_size encrypted_fek_io w =
     (let bytes = data_out_size + tee_fs_get_header_size cfg file_type
      in case malloc bytes w of (ok, w1) \<Rightarrow>
           if \<not> ok then (TEE_ERROR_OUT_OF_MEMORY, None, data_out_size, w1)
           else (case tee_fs_rpc_read (fd fdp) bytes offs w1 of (res, ciphertext, w2) \<Rightarrow>
                   if res \<noteq> TEE_SUCCESS then (res, None, data_out_size, w2)
                   else if length ciphertext = 0 then (TEE_SUCCESS, None, 0, w2)
                   else (case tee_fs_decrypt_file cfg file_type ciphertext encrypted_fek_io w2 of
                           (res, out, w3) \<Rightarrow>
                             if res \<noteq> TEE_SUCCESS
                             then (TEE_ERROR_CORRUPT_OBJECT, None, data_out_size, w3)
                             else (TEE_SUCCESS, out,
                                   (case out of None \<Rightarrow> data_out_size
                                    | Some (pt, k) \<Rightarrow> length pt), w3))))"

subsection \<open>The meta data\<close>

definition write_meta_file ::
  "config \<Rightarrow> tee_fs_fd \<Rightarrow> tee_fs_file_meta \<Rightarrow> world \<Rightarrow> TEE_Result \<times> world" where
  "write_meta_file cfg fdp m w =
     (let offs = meta_pos_raw cfg fdp False
      in encrypt_and_write_file cfg fdp META_FILE offs (bytes_of_info (info m))
           (encrypted_fek m) w)"

definition write_meta_counter :: "tee_fs_fd \<Rightarrow> world \<Rightarrow> TEE_Result \<times> world" where
  "write_meta_counter fdp w =
     (let data = bytes_of_u32 (meta_counter fdp)
      in tee_fs_rpc_write (fd fdp) data 0 w)"

definition create_meta ::
  "config \<Rightarrow> tee_fs_fd \<Rightarrow> string \<Rightarrow> world \<Rightarrow> TEE_Result \<times> tee_fs_fd \<times> world" where
  "create_meta cfg fdp fname w =
     (let fdp1 = fdp\<lparr> meta := (meta fdp)\<lparr> info :=
                   \<lparr> length_f = 0,
                     backup_version_table =
                       replicate (NUM_BLOCKS_PER_FILE cfg div 32) 0xffffffff \<rparr> \<rparr> \<rparr>
      in case tee_fs_generate_fek cfg w of (res, k, w1) \<Rightarrow>
           let fdp2 = (case k of None \<Rightarrow> fdp1
                       | Some fek \<Rightarrow> fdp1\<lparr> meta := (meta fdp1)\<lparr> encrypted_fek := fek \<rparr> \<rparr>)
           in if res \<noteq> TEE_SUCCESS then (res, fdp2, w1)
              else (case tee_fs_rpc_open fname True w1 of (res, d, w2) \<Rightarrow>
                      let fdp3 = (case d of None \<Rightarrow> fdp2 | Some n \<Rightarrow> fdp2\<lparr> fd := n \<rparr>)
                      in if res \<noteq> TEE_SUCCESS then (res, fdp3, w2)
                         else let fdp4 = fdp3\<lparr> meta := (meta fdp3)\<lparr> counter := meta_counter fdp3 \<rparr> \<rparr>
                              in (case write_meta_file cfg fdp4 (meta fdp4) w2 of (res, w3) \<Rightarrow>
                                    if res \<noteq> TEE_SUCCESS then (res, fdp4, w3)
                                    else (case write_meta_counter fdp4 w3 of
                                            (res, w4) \<Rightarrow> (res, fdp4, w4)))))"

definition commit_meta_file ::
  "config \<Rightarrow> tee_fs_fd \<Rightarrow> tee_fs_file_meta \<Rightarrow> world \<Rightarrow> TEE_Result \<times> tee_fs_fd \<times> world" where
  "commit_meta_file cfg fdp new_meta w =
     (let new_meta1 = new_meta\<lparr> counter := meta_counter fdp + 1 \<rparr>
      in case write_meta_file cfg fdp new_meta1 w of (res, w1) \<Rightarrow>
           if res \<noteq> TEE_SUCCESS then (res, fdp, w1)
           else let fdp1 = fdp\<lparr> meta := new_meta1 \<rparr>;
                    fdp2 = fdp1\<lparr> meta_counter := counter (meta fdp1) \<rparr>
                in (case write_meta_counter fdp2 w1 of (res, w2) \<Rightarrow> (res, fdp2, w2)))"

definition read_meta_file ::
  "config \<Rightarrow> tee_fs_fd \<Rightarrow> tee_fs_file_meta \<Rightarrow> world \<Rightarrow> TEE_Result \<times> tee_fs_file_meta \<times> world" where
  "read_meta_file cfg fdp m w =
     (let meta_info_size = sizeof_file_info cfg;
          offs = meta_pos_raw cfg fdp True
      in case read_and_decrypt_file cfg fdp META_FILE offs meta_info_size (encrypted_fek m) w of
           (res, out, n, w1) \<Rightarrow>
             (res,
              (case out of None \<Rightarrow> m
               | Some (pt, k) \<Rightarrow>
                   m\<lparr> info := info_of_bytes (fill_buf (bytes_of_info (info m)) pt),
                      encrypted_fek := k \<rparr>),
              w1))"

definition read_meta_counter :: "tee_fs_fd \<Rightarrow> world \<Rightarrow> TEE_Result \<times> tee_fs_fd \<times> world" where
  "read_meta_counter fdp w =
     (case tee_fs_rpc_read (fd fdp) 4 0 w of (res, data, w1) \<Rightarrow>
        if res \<noteq> TEE_SUCCESS then (res, fdp, w1)
        else if length data \<noteq> 4 then (TEE_ERROR_CORRUPT_OBJECT, fdp, w1)
        else (TEE_SUCCESS, fdp\<lparr> meta_counter := u32_of_bytes data \<rparr>, w1))"

definition read_meta ::
  "config \<Rightarrow> tee_fs_fd \<Rightarrow> string \<Rightarrow> world \<Rightarrow> TEE_Result \<times> tee_fs_fd \<times> world" where
  "read_meta cfg fdp fname w =
     (case tee_fs_rpc_open fname False w of (res, d, w1) \<Rightarrow>
        let fdp1 = (case d of None \<Rightarrow> fdp | Some n \<Rightarrow> fdp\<lparr> fd := n \<rparr>)
        in if res \<noteq> TEE_SUCCESS then (res, fdp1, w1)
           else (case read_meta_counter fdp1 w1 of (res, fdp2, w2) \<Rightarrow>
                   if res \<noteq> TEE_SUCCESS then (res, fdp2, w2)
                   else (case read_meta_file cfg fdp2 (meta fdp2) w2 of
                           (res, m, w3) \<Rightarrow> (res, fdp2\<lparr> meta := m \<rparr>, w3))))"

subsection \<open>Blocks\<close>

text \<open>\<open>read_block\<close> takes the buffer \<^verbatim>\<open>data\<close> as it is before the call and returns it as it
  is after the call.\<close>

definition read_block ::
  "config \<Rightarrow> tee_fs_fd \<Rightarrow> int \<Rightarrow> byte list \<Rightarrow> world \<Rightarrow> TEE_Result \<times> byte list \<times> world" where
  "read_block cfg fdp bnum data w =
     (let ct_size = block_size_raw cfg;
          p = block_pos_raw cfg (meta fdp) (to_size_t bnum) True
      in case malloc ct_size w of (ok, w1) \<Rightarrow>
           if \<not> ok then (TEE_ERROR_OUT_OF_MEMORY, data, w1)
           else (case tee_fs_rpc_read (fd fdp) ct_size p w1 of (res, ct, w2) \<Rightarrow>
                   if res \<noteq> TEE_SUCCESS then (res, data, w2)
                   else if length ct = 0 then (TEE_SUCCESS, replicate BLOCK_SIZE 0, w2)
                   else (case tee_fs_decrypt_file cfg BLOCK_FILE ct
                                (encrypted_fek (meta fdp)) w2 of
                           (res, out, w3) \<Rightarrow>
                             (res,
                              (case out of None \<Rightarrow> data | Some (pt, k) \<Rightarrow> fill_buf data pt),
                              w3))))"

definition write_block ::
  "config \<Rightarrow> tee_fs_fd \<Rightarrow> nat \<Rightarrow> byte list \<Rightarrow> tee_fs_file_meta \<Rightarrow> world
     \<Rightarrow> TEE_Result \<times> tee_fs_file_meta \<times> world" where
  "write_block cfg fdp bnum data new_meta w =
     (let offs = block_pos_raw cfg new_meta bnum False
      in case encrypt_and_write_file cfg fdp BLOCK_FILE offs data (encrypted_fek new_meta) w of
           (res, w1) \<Rightarrow>
             (res,
              (if res = TEE_SUCCESS then toggle_backup_version_of_block new_meta bnum
               else new_meta),
              w1))"

text \<open>\<^verbatim>\<open>memcpy(block + offset, src, n)\<close> and \<^verbatim>\<open>memset(block + offset, 0, n)\<close>.\<close>

definition patch :: "byte list \<Rightarrow> nat \<Rightarrow> byte list \<Rightarrow> byte list" where
  "patch block offset src = take offset block @ src @ drop (offset + length src) block"

text \<open>
  The loop of \<^verbatim>\<open>out_of_place_write\<close>. The arguments are the variables of the loop;
  \<open>data_ptr = None\<close> is the null pointer. The branch taken when the loop condition fails
  is the code between the loop and the label \<^verbatim>\<open>exit\<close>; a \<^verbatim>\<open>goto exit\<close> returns at once.
\<close>

function oopw_loop ::
  "config \<Rightarrow> tee_fs_fd \<Rightarrow> int \<Rightarrow> int \<Rightarrow> nat \<Rightarrow> byte list option \<Rightarrow> byte list
     \<Rightarrow> tee_fs_file_meta \<Rightarrow> TEE_Result \<Rightarrow> world
     \<Rightarrow> TEE_Result \<times> tee_fs_fd \<times> tee_fs_file_meta \<times> world" where
  "oopw_loop cfg fdp start_block_num end_block_num remain_bytes data_ptr block new_meta res w =
     (if start_block_num \<le> end_block_num then
        let offset = to_int (pos fdp smod int BLOCK_SIZE);
            size_to_write = min remain_bytes BLOCK_SIZE;
            size_to_write =
              (if to_size_t (int size_to_write + offset) > BLOCK_SIZE
               then to_size_t (int BLOCK_SIZE - offset) else size_to_write)
        in case read_block cfg fdp start_block_num block w of (res, block1, w1) \<Rightarrow>
             if res \<noteq> TEE_ERROR_ITEM_NOT_FOUND \<and> res \<noteq> TEE_SUCCESS
             then (res, fdp, new_meta, w1)
             else
               let block2 = (if res = TEE_ERROR_ITEM_NOT_FOUND
                             then replicate BLOCK_SIZE 0 else block1);
                   block3 = (case data_ptr of
                               Some d \<Rightarrow> patch block2 (nat offset) (take size_to_write d)
                             | None \<Rightarrow> patch block2 (nat offset) (replicate size_to_write 0))
               in (case write_block cfg fdp (to_size_t start_block_num) block3 new_meta w1 of
                     (res, new_meta1, w2) \<Rightarrow>
                       if res \<noteq> TEE_SUCCESS then (res, fdp, new_meta1, w2)
                       else oopw_loop cfg (fdp\<lparr> pos := pos fdp + int size_to_write \<rparr>)
                              (start_block_num + 1) end_block_num
                              (to_size_t (int remain_bytes - int size_to_write))
                              (map_option (drop size_to_write) data_ptr)
                              block3 new_meta1 res w2)
      else
        (res, fdp,
         (if pos fdp > uint (length_f (info new_meta))
          then new_meta\<lparr> info := (info new_meta)\<lparr> length_f := word_of_int (pos fdp) \<rparr> \<rparr>
          else new_meta),
         w))"
  by pat_completeness auto
termination
  by (relation "measure (\<lambda>(cfg, fdp, s, e, r). nat (e + 1 - s))") auto

definition out_of_place_write ::
  "config \<Rightarrow> tee_fs_fd \<Rightarrow> byte list option \<Rightarrow> nat \<Rightarrow> tee_fs_file_meta \<Rightarrow> world
     \<Rightarrow> TEE_Result \<times> tee_fs_fd \<times> tee_fs_file_meta \<times> world" where
  "out_of_place_write cfg fdp buf len new_meta w =
     (let start_block_num = pos_to_block_num (pos fdp);
          end_block_num = pos_to_block_num (pos fdp + int len - 1);
          orig_pos = to_int (pos fdp)
      in case oopw_loop cfg fdp start_block_num end_block_num len buf
                (replicate BLOCK_SIZE 0) new_meta TEE_ERROR_GENERIC w of
           (res, fdp1, new_meta1, w1) \<Rightarrow>
             ((res, if res \<noteq> TEE_SUCCESS then fdp1\<lparr> pos := orig_pos \<rparr> else fdp1,
               new_meta1, w1)))"

subsection \<open>The file operations\<close>

text \<open>The handle \<^verbatim>\<open>calloc\<close> returns, with \<^verbatim>\<open>fd = -1\<close>.\<close>

definition new_fd :: "config \<Rightarrow> tee_fs_fd" where
  "new_fd cfg =
     \<lparr> meta_counter = 0,
       meta = \<lparr> info = \<lparr> length_f = 0,
                         backup_version_table = replicate (NUM_BLOCKS_PER_FILE cfg div 32) 0 \<rparr>,
                encrypted_fek = replicate (TEE_FS_KM_FEK_SIZE cfg) 0,
                counter = 0 \<rparr>,
       pos = 0, flags = 0, is_new_file = False, fd = - 1 \<rparr>"

text \<open>\<open>file = None\<close> is the null pointer; the handle is returned through \<^verbatim>\<open>*fh\<close> on
  success only.\<close>

definition open_internal ::
  "config \<Rightarrow> string option \<Rightarrow> bool \<Rightarrow> world \<Rightarrow> TEE_Result \<times> tee_fs_fd option \<times> world" where
  "open_internal cfg file create w =
     (case file of
        None \<Rightarrow> (TEE_ERROR_BAD_PARAMETERS, None, w)
      | Some fname \<Rightarrow>
          let len = length fname + 1
          in if len > TEE_FS_NAME_MAX cfg then (TEE_ERROR_BAD_PARAMETERS, None, w)
             else (case malloc 0 w of (ok, w1) \<Rightarrow>
                     if \<not> ok then (TEE_ERROR_OUT_OF_MEMORY, None, w1)
                     else (case (if create then create_meta cfg (new_fd cfg) fname w1
                                 else read_meta cfg (new_fd cfg) fname w1) of
                             (res, fdp, w2) \<Rightarrow>
                               if res = TEE_SUCCESS then (res, Some fdp, w2)
                               else
                                 let w3 = (if fd fdp \<noteq> - 1 then tee_fs_rpc_close (fd fdp) w2
                                           else w2);
                                     w4 = (if create then tee_fs_rpc_remove fname w3 else w3)
                                 in (res, None, w4))))"

definition ree_fs_open ::
  "config \<Rightarrow> string option \<Rightarrow> world \<Rightarrow> TEE_Result \<times> tee_fs_fd option \<times> world" where
  "ree_fs_open cfg file w = open_internal cfg file False w"

definition ree_fs_create ::
  "config \<Rightarrow> string option \<Rightarrow> world \<Rightarrow> TEE_Result \<times> tee_fs_fd option \<times> world" where
  "ree_fs_create cfg file w = open_internal cfg file True w"

definition ree_fs_close :: "tee_fs_fd option \<Rightarrow> world \<Rightarrow> tee_fs_fd option \<times> world" where
  "ree_fs_close fh w =
     (case fh of None \<Rightarrow> (None, w) | Some fdp \<Rightarrow> (None, tee_fs_rpc_close (fd fdp) w))"

text \<open>\<^verbatim>\<open>offset\<close> is an \<^verbatim>\<open>int32_t\<close>; \<^verbatim>\<open>filelen + offset\<close> is computed in \<^verbatim>\<open>size_t\<close>. The result
  carries the value stored through \<^verbatim>\<open>new_offs\<close>, when there is one.\<close>

definition ree_fs_seek ::
  "config \<Rightarrow> tee_fs_fd \<Rightarrow> int \<Rightarrow> TEE_Whence \<Rightarrow> TEE_Result \<times> tee_fs_fd \<times> int option" where
  "ree_fs_seek cfg fdp offset whence =
     (let filelen = unat (length_f (info (meta fdp)))
      in case (case whence of
                 TEE_DATA_SEEK_SET \<Rightarrow> Some offset
               | TEE_DATA_SEEK_CUR \<Rightarrow> Some (pos fdp + offset)
               | TEE_DATA_SEEK_END \<Rightarrow> Some (int (to_size_t (int filelen + offset)))
               | TEE_WHENCE_INVALID \<Rightarrow> None) of
           None \<Rightarrow> (TEE_ERROR_BAD_PARAMETERS, fdp, None)
         | Some p \<Rightarrow>
             let new_pos = (if p < 0 then 0 else p)
             in if new_pos > TEE_DATA_MAX_POSITION cfg then (TEE_ERROR_BAD_PARAMETERS, fdp, None)
                else (TEE_SUCCESS, fdp\<lparr> pos := new_pos \<rparr>, Some (to_int new_pos)))"

definition ree_fs_ftruncate_internal ::
  "config \<Rightarrow> tee_fs_fd \<Rightarrow> int \<Rightarrow> world \<Rightarrow> TEE_Result \<times> tee_fs_fd \<times> world" where
  "ree_fs_ftruncate_internal cfg fdp new_file_len w =
     (let old_file_len = unat (length_f (info (meta fdp)))
      in if new_file_len > MAX_FILE_SIZE cfg then (TEE_ERROR_BAD_PARAMETERS, fdp, w)
         else
           let new_meta = meta fdp;
               new_meta = new_meta\<lparr> info := (info new_meta)\<lparr> length_f := word_of_int new_file_len \<rparr> \<rparr>
           in if to_size_t new_file_len > old_file_len then
                let ext_len = to_size_t (new_file_len - int old_file_len);
                    orig_pos = to_int (pos fdp);
                    fdp1 = fdp\<lparr> pos := int old_file_len \<rparr>
                in (case out_of_place_write cfg fdp1 None ext_len new_meta w of
                      (res, fdp2, new_meta1, w1) \<Rightarrow>
                        let fdp3 = fdp2\<lparr> pos := orig_pos \<rparr>
                        in if res \<noteq> TEE_SUCCESS then (res, fdp3, w1)
                           else commit_meta_file cfg fdp3 new_meta1 w1)
              else commit_meta_file cfg fdp new_meta w)"

text \<open>
  The loop of \<^verbatim>\<open>ree_fs_read\<close>; \<open>out\<close> is what has been copied to the caller's buffer so far.
\<close>

function read_loop ::
  "config \<Rightarrow> tee_fs_fd \<Rightarrow> int \<Rightarrow> int \<Rightarrow> nat \<Rightarrow> byte list \<Rightarrow> byte list \<Rightarrow> world
     \<Rightarrow> TEE_Result \<times> tee_fs_fd \<times> byte list \<times> world" where
  "read_loop cfg fdp start_block_num end_block_num remain_bytes out block w =
     (if start_block_num \<le> end_block_num then
        let offset = pos fdp smod int BLOCK_SIZE;
            size_to_read = min remain_bytes BLOCK_SIZE;
            size_to_read =
              (if int size_to_read + offset > int BLOCK_SIZE
               then to_size_t (int BLOCK_SIZE - offset) else size_to_read)
        in case read_block cfg fdp start_block_num block w of (res, block1, w1) \<Rightarrow>
             if res \<noteq> TEE_SUCCESS
             then ((if res = TEE_ERROR_MAC_INVALID then TEE_ERROR_CORRUPT_OBJECT else res),
                   fdp, out, w1)
             else read_loop cfg (fdp\<lparr> pos := pos fdp + int size_to_read \<rparr>)
                    (start_block_num + 1) end_block_num
                    (to_size_t (int remain_bytes - int size_to_read))
                    (out @ take size_to_read (drop (nat offset) block1))
                    block1 w1
      else (TEE_SUCCESS, fdp, out, w))"
  by pat_completeness auto
termination
  by (relation "measure (\<lambda>(cfg, fdp, s, e, r). nat (e + 1 - s))") auto

text \<open>The result carries the final \<^verbatim>\<open>*len\<close> and the bytes copied to \<^verbatim>\<open>buf\<close>.\<close>

definition ree_fs_read ::
  "config \<Rightarrow> tee_fs_fd \<Rightarrow> nat \<Rightarrow> world \<Rightarrow> TEE_Result \<times> nat \<times> byte list \<times> tee_fs_fd \<times> world" where
  "ree_fs_read cfg fdp len w =
     (let remain_bytes = len;
          file_len = uint (length_f (info (meta fdp)));
          remain_bytes =
            (if pos fdp + int remain_bytes < int remain_bytes \<or> pos fdp > file_len then 0
             else if pos fdp + int remain_bytes > file_len then to_size_t (file_len - pos fdp)
             else remain_bytes)
      in if remain_bytes = 0 then (TEE_SUCCESS, remain_bytes, [], fdp, w)
         else
           let start_block_num = pos_to_block_num (pos fdp);
               end_block_num = pos_to_block_num (pos fdp + int remain_bytes - 1)
           in (case read_loop cfg fdp start_block_num end_block_num remain_bytes []
                      (replicate BLOCK_SIZE 0) w of
                 (res, fdp1, out, w1) \<Rightarrow> (res, remain_bytes, out, fdp1, w1)))"

definition ree_fs_write ::
  "config \<Rightarrow> tee_fs_fd \<Rightarrow> byte list option \<Rightarrow> nat \<Rightarrow> world \<Rightarrow> TEE_Result \<times> tee_fs_fd \<times> world" where
  "ree_fs_write cfg fdp buf len w =
     (if len = 0 then (TEE_SUCCESS, fdp, w)
      else
        let file_size = unat (length_f (info (meta fdp)))
        in if pos fdp + int len > MAX_FILE_SIZE cfg \<or> pos fdp + int len < int len
           then (TEE_ERROR_BAD_PARAMETERS, fdp, w)
           else
             (case (if file_size < to_size_t (pos fdp)
                    then ree_fs_ftruncate_internal cfg fdp (pos fdp) w
                    else (TEE_SUCCESS, fdp, w)) of
                (res, fdp1, w1) \<Rightarrow>
                  if res \<noteq> TEE_SUCCESS then (res, fdp1, w1)
                  else
                    let new_meta = meta fdp1
                    in (case out_of_place_write cfg fdp1 buf len new_meta w1 of
                          (res, fdp2, new_meta1, w2) \<Rightarrow>
                            if res \<noteq> TEE_SUCCESS then (res, fdp2, w2)
                            else commit_meta_file cfg fdp2 new_meta1 w2)))"

definition ree_fs_truncate ::
  "config \<Rightarrow> tee_fs_fd \<Rightarrow> nat \<Rightarrow> world \<Rightarrow> TEE_Result \<times> tee_fs_fd \<times> world" where
  "ree_fs_truncate cfg fdp len w = ree_fs_ftruncate_internal cfg fdp (int len) w"

subsection \<open>A small instance\<close>

text \<open>
  An instance of the parameters for running the model: 32 blocks per file (one word of
  table), a FEK of two bytes, and a key manager that marks a meta file with the byte
  \<open>0xa5\<close> followed by the FEK and a block with the byte \<open>0x5a\<close>, and that refuses any
  ciphertext without its mark.
\<close>

definition toy_encrypt :: "tee_fs_file_type \<Rightarrow> byte list \<Rightarrow> byte list \<Rightarrow> byte list" where
  "toy_encrypt t pt k = (case t of META_FILE \<Rightarrow> 0xa5 # take 2 (k @ [0, 0]) @ pt
                                 | BLOCK_FILE \<Rightarrow> 0x5a # pt)"

definition toy_decrypt ::
  "tee_fs_file_type \<Rightarrow> byte list \<Rightarrow> byte list \<Rightarrow> (byte list \<times> byte list) option" where
  "toy_decrypt t ct k =
     (case t of
        META_FILE \<Rightarrow> (if 3 \<le> length ct \<and> hd ct = 0xa5
                       then Some (drop 3 ct, take 2 (tl ct)) else None)
      | BLOCK_FILE \<Rightarrow> (if 1 \<le> length ct \<and> hd ct = 0x5a then Some (tl ct, k) else None))"

definition toy_cfg :: config where
  "toy_cfg =
     \<lparr> NUM_BLOCKS_PER_FILE = 32,
       TEE_FS_KM_FEK_SIZE = 2,
       TEE_FS_NAME_MAX = 64,
       TEE_DATA_MAX_POSITION = 0xffffffff,
       sizeof_file_meta = 16,
       tee_fs_get_header_size = (\<lambda>t. case t of META_FILE \<Rightarrow> 3 | BLOCK_FILE \<Rightarrow> 1),
       km_generate_fek = (\<lambda>n. replicate n 0x11),
       km_encrypt = toy_encrypt,
       km_decrypt = toy_decrypt \<rparr>"

text \<open>A world without files, in which no call fails unless a schedule is given.\<close>

definition empty_world :: world where
  "empty_world =
     \<lparr> ree_files = (\<lambda>n. None), ree_fds = (\<lambda>d. None), next_fd = 3, sched = [], rlog = [] \<rparr>"

text \<open>A world that holds the file \<open>''a''\<close> with the counter 0 and nothing else, open as
  descriptor 3, and a handle on it.\<close>

definition toy_world :: world where
  "toy_world =
     \<lparr> ree_files = [''a'' \<mapsto> [0, 0, 0, 0]], ree_fds = [3 \<mapsto> ''a''], next_fd = 4, sched = [], rlog = [] \<rparr>"

definition toy_fd :: tee_fs_fd where
  "toy_fd = (new_fd toy_cfg)\<lparr> fd := 3 \<rparr>"

subsection \<open>Observations and runs used in the statements\<close>

text \<open>The counter a reader finds at offset 0 of the file behind a descriptor.\<close>

definition disk_counter :: "world \<Rightarrow> int \<Rightarrow> uint32_t option" where
  "disk_counter w d =
     (case fd_file w d of None \<Rightarrow> None
      | Some f \<Rightarrow> if length f < 4 then None else Some (u32_of_bytes (take 4 f)))"

fun ev_offs :: "rpc_event \<Rightarrow> nat" where
  "ev_offs (RpcWrite d offs n r) = offs"

text \<open>Two worlds with the same files, descriptors and log.\<close>

definition same_ree :: "world \<Rightarrow> world \<Rightarrow> bool" where
  "same_ree w w' \<longleftrightarrow>
     ree_files w' = ree_files w \<and> ree_fds w' = ree_fds w \<and> next_fd w' = next_fd w \<and>
     rlog w' = rlog w"

text \<open>The second world comes from the first by RPC writes at offsets from 4 on: the
  descriptors are the same, and a file that has its four bytes of counter keeps them.\<close>

definition block_writes_only :: "world \<Rightarrow> world \<Rightarrow> bool" where
  "block_writes_only w w' \<longleftrightarrow>
     ree_fds w' = ree_fds w \<and>
     (\<exists>evs. rlog w' = rlog w @ evs \<and> (\<forall>e\<in>set evs. 4 \<le> ev_offs e)) \<and>
     (\<forall>n f. ree_files w n = Some f \<longrightarrow> 4 \<le> length f \<longrightarrow>
        (\<exists>f'. ree_files w' n = Some f' \<and> 4 \<le> length f' \<and> take 4 f' = take 4 f))"

text \<open>The size of the chunk and the patched block of one round of the loop of
  \<open>out_of_place_write\<close>, as the loop computes them.\<close>

definition oopw_size :: "tee_fs_fd \<Rightarrow> nat \<Rightarrow> nat" where
  "oopw_size fdp rem =
     (if to_size_t (int (min rem BLOCK_SIZE) + to_int (pos fdp smod int BLOCK_SIZE)) > BLOCK_SIZE
      then to_size_t (int BLOCK_SIZE - to_int (pos fdp smod int BLOCK_SIZE))
      else min rem BLOCK_SIZE)"

definition oopw_block ::
  "tee_fs_fd \<Rightarrow> nat \<Rightarrow> byte list option \<Rightarrow> TEE_Result \<Rightarrow> byte list \<Rightarrow> byte list" where
  "oopw_block fdp sz dp r1 b1 =
     (let b2 = (if r1 = TEE_ERROR_ITEM_NOT_FOUND then replicate BLOCK_SIZE 0 else b1);
          off = nat (to_int (pos fdp smod int BLOCK_SIZE))
      in case dp of Some d \<Rightarrow> patch b2 off (take sz d)
                  | None \<Rightarrow> patch b2 off (replicate sz 0))"

text \<open>The size of the chunk of one round of the loop of \<open>ree_fs_read\<close>.\<close>

definition read_size :: "tee_fs_fd \<Rightarrow> nat \<Rightarrow> nat" where
  "read_size fdp rem =
     (if int (min rem BLOCK_SIZE) + pos fdp smod int BLOCK_SIZE > int BLOCK_SIZE
      then to_size_t (int BLOCK_SIZE - pos fdp smod int BLOCK_SIZE)
      else min rem BLOCK_SIZE)"

text \<open>Runs of the small instance: a file is created; then one byte is written while the
  host refuses the ninth call, the write of the counter; or nothing is written and the file
  is closed and opened again; or three bytes are written and the first byte of the slot of
  block 0 is changed behind the engine's back; or the cursor is moved to \<open>2^31\<close> by two
  seeks.\<close>

definition sc_create :: "TEE_Result \<times> tee_fs_fd option \<times> world" where
  "sc_create = ree_fs_create toy_cfg (Some ''a'') empty_world"

definition sc_h0 :: tee_fs_fd where
  "sc_h0 = the (fst (snd sc_create))"

definition sc_w0 :: world where
  "sc_w0 = snd (snd sc_create)"

definition sc_fail_write :: "TEE_Result \<times> tee_fs_fd \<times> world" where
  "sc_fail_write = ree_fs_write toy_cfg sc_h0 (Some [7]) 1
      (sc_w0\<lparr> sched := replicate 8 TEE_SUCCESS @ [TEE_ERROR_GENERIC] \<rparr>)"

definition sc_empty_write :: "TEE_Result \<times> tee_fs_fd \<times> world" where
  "sc_empty_write = ree_fs_write toy_cfg sc_h0 (Some []) 0 sc_w0"

definition sc_reopen :: "TEE_Result \<times> tee_fs_fd option \<times> world" where
  "sc_reopen = ree_fs_open toy_cfg (Some ''a'')
      (snd (ree_fs_close (Some (fst (snd sc_empty_write))) (snd (snd sc_empty_write))))"

definition sc_write3 :: "TEE_Result \<times> tee_fs_fd \<times> world" where
  "sc_write3 = ree_fs_write toy_cfg sc_h0 (Some [7, 8, 9]) 3 sc_w0"

definition sc_tampered :: world where
  "sc_tampered = (snd (snd sc_write3))\<lparr> ree_files :=
      (ree_files (snd (snd sc_write3)))(''a'' \<mapsto>
         (the (ree_files (snd (snd sc_write3)) ''a''))[42 := 0]) \<rparr>"

definition sc_far :: tee_fs_fd where
  "sc_far = fst (snd (ree_fs_seek toy_cfg
       (fst (snd (ree_fs_seek toy_cfg sc_h0 0x7fffffff TEE_DATA_SEEK_SET))) 1 TEE_DATA_SEEK_CUR))"

text \<open>A range write of 300 bytes during which the host refuses the tenth call, the RPC
  write of the second block.\<close>

definition sc_range_fail :: "TEE_Result \<times> tee_fs_fd \<times> tee_fs_file_meta \<times> world" where
  "sc_range_fail = out_of_place_write toy_cfg toy_fd (Some (replicate 300 7)) 300 (meta toy_fd)
      (toy_world\<lparr> sched := replicate 9 TEE_SUCCESS @ [TEE_ERROR_GENERIC] \<rparr>)"

text \<open>After the failed write of the counter, the same byte is written again and the host
  refuses nothing.\<close>

definition sc_retry :: "TEE_Result \<times> tee_fs_fd \<times> world" where
  "sc_retry = ree_fs_write toy_cfg (fst (snd sc_fail_write)) (Some [7]) 1
      ((snd (snd sc_fail_write))\<lparr> sched := [] \<rparr>)"

subsection \<open>Notions for the round trip\<close>

text \<open>
  What the absent headers must provide for the engine to work: the table has a bit for
  every block, \<open>MAX_FILE_SIZE\<close> is an \<^verbatim>\<open>int\<close> and a position that \<open>ree_fs_seek\<close> accepts,
  the meta data written fit their slot, the key manager generates a FEK of the size asked
  for, and what it encrypts has the size of the header plus the plaintext and decrypts to
  the plaintext (and, for a meta file, to the FEK that was put in).
\<close>

definition cfg_ok :: "config \<Rightarrow> bool" where
  "cfg_ok cfg \<longleftrightarrow>
     NUM_BLOCKS_PER_FILE cfg mod 32 = 0 \<and>
     MAX_FILE_SIZE cfg < 2147483648 \<and>
     MAX_FILE_SIZE cfg \<le> TEE_DATA_MAX_POSITION cfg \<and>
     sizeof_file_info cfg \<le> sizeof_file_meta cfg \<and>
     length (km_generate_fek cfg (TEE_FS_KM_FEK_SIZE cfg)) = TEE_FS_KM_FEK_SIZE cfg \<and>
     (\<forall>t pt k. length (km_encrypt cfg t pt k) = tee_fs_get_header_size cfg t + length pt) \<and>
     (\<forall>pt k k0. length k = TEE_FS_KM_FEK_SIZE cfg \<longrightarrow>
        km_decrypt cfg META_FILE (km_encrypt cfg META_FILE pt k) k0 = Some (pt, k)) \<and>
     (\<forall>pt k. map_option fst (km_decrypt cfg BLOCK_FILE (km_encrypt cfg BLOCK_FILE pt k) k)
        = Some pt)"

text \<open>The host refuses nothing, and the descriptor \<open>d\<close> is open on the file \<open>name\<close>, whose
  bytes are \<open>f\<close>.\<close>

definition file_at :: "world \<Rightarrow> int \<Rightarrow> string \<Rightarrow> byte list \<Rightarrow> bool" where
  "file_at w d name f \<longleftrightarrow>
     sched w = [] \<and> ree_fds w d = Some name \<and> ree_files w name = Some f"

text \<open>
  The blocks of a file \<open>f\<close> as the meta data \<open>m\<close> see them: the active slot of every block
  below \<open>K\<close> holds the ciphertext of the block \<open>C n\<close> under the FEK of \<open>m\<close>; the blocks
  from \<open>K\<close> on were never written, their bit in the table is set and the file ends before
  their slots.
\<close>

definition stored ::
  "config \<Rightarrow> byte list \<Rightarrow> tee_fs_file_meta \<Rightarrow> nat \<Rightarrow> (nat \<Rightarrow> byte list) \<Rightarrow> bool" where
  "stored cfg f m K C \<longleftrightarrow>
     K \<le> NUM_BLOCKS_PER_FILE cfg \<and>
     length (backup_version_table (info m)) = NUM_BLOCKS_PER_FILE cfg div 32 \<and>
     (\<forall>n<K. length (C n) = BLOCK_SIZE \<and>
        read_at f (block_pos_raw cfg m n True) (block_size_raw cfg)
          = km_encrypt cfg BLOCK_FILE (C n) (encrypted_fek m)) \<and>
     (\<forall>n. K \<le> n \<and> n < NUM_BLOCKS_PER_FILE cfg \<longrightarrow> get_backup_version_of_block m n) \<and>
     length f \<le> 4 + meta_size cfg * 2 + 2 * K * block_size_raw cfg"

text \<open>
  The blocks \<open>s\<close> to \<open>e\<close> of \<open>C\<close> hold, where they overlap the range of \<open>r\<close> bytes from
  position \<open>p\<close> on, the bytes of \<open>d\<close>.
\<close>

definition holds_data ::
  "(nat \<Rightarrow> byte list) \<Rightarrow> nat \<Rightarrow> nat \<Rightarrow> byte list \<Rightarrow> nat \<Rightarrow> nat \<Rightarrow> bool" where
  "holds_data C p r d s e \<longleftrightarrow>
     (\<forall>n. s \<le> n \<and> n \<le> e \<longrightarrow>
        (let lo = max p (BLOCK_SIZE * n); hi = min (p + r) (BLOCK_SIZE * (n + 1))
         in take (hi - lo) (drop (lo - BLOCK_SIZE * n) (C n)) = take (hi - lo) (drop (lo - p) d)))"

text \<open>
  The round trip of the spec on a file that is created for it: create, seek, write, close,
  open, seek, read. The result is the final \<^verbatim>\<open>*len\<close> and the buffer of the read, or
  \<open>None\<close> when a step fails.
\<close>

definition round_trip ::
  "config \<Rightarrow> string \<Rightarrow> int \<Rightarrow> byte list \<Rightarrow> world \<Rightarrow> (nat \<times> byte list) option" where
  "round_trip cfg fname p data w =
     (case ree_fs_create cfg (Some fname) w of
        (r0, None, w0) \<Rightarrow> None
      | (r0, Some h0, w0) \<Rightarrow>
     (case ree_fs_seek cfg h0 p TEE_DATA_SEEK_SET of (r1, h1, o1) \<Rightarrow>
        if r1 \<noteq> TEE_SUCCESS then None else
     (case ree_fs_write cfg h1 (Some data) (length data) w0 of (r2, h2, w2) \<Rightarrow>
        if r2 \<noteq> TEE_SUCCESS then None else
     (case ree_fs_close (Some h2) w2 of (h3, w3) \<Rightarrow>
     (case ree_fs_open cfg (Some fname) w3 of
        (r4, None, w4) \<Rightarrow> None
      | (r4, Some h4, w4) \<Rightarrow>
     (case ree_fs_seek cfg h4 p TEE_DATA_SEEK_SET of (r5, h5, o5) \<Rightarrow>
        if r5 \<noteq> TEE_SUCCESS then None else
     (case ree_fs_read cfg h5 (length data) w4 of (r6, n6, buf6, h6, w6) \<Rightarrow>
        if r6 \<noteq> TEE_SUCCESS then None else Some (n6, buf6))))))))"

text \<open>
  What a range write of \<open>r\<close> bytes at position \<open>p\<close> (blocks \<open>s\<close> to \<open>e\<close>) leaves behind when
  the host refuses nothing: the candidate meta data \<open>nm'\<close> and a world \<open>w'\<close> whose file
  stores blocks up to \<open>e\<close>, with the blocks below \<open>s\<close> as before and the written range
  holding the data.
\<close>

definition oopw_post ::
  "config \<Rightarrow> int \<Rightarrow> string \<Rightarrow> byte list \<Rightarrow> world \<Rightarrow> tee_fs_file_meta \<Rightarrow> nat
     \<Rightarrow> (nat \<Rightarrow> byte list) \<Rightarrow> nat \<Rightarrow> nat \<Rightarrow> byte list option \<Rightarrow> nat \<Rightarrow> nat
     \<Rightarrow> tee_fs_file_meta \<Rightarrow> world \<Rightarrow> bool" where
  "oopw_post cfg d name f w nm K C p r dp s e nm' w' \<longleftrightarrow>
     (\<exists>f' C'.
        file_at w' d name f' \<and> next_fd w' = next_fd w \<and>
        stored cfg f' nm' (max K (e + 1)) C' \<and>
        encrypted_fek nm' = encrypted_fek nm \<and>
        length_f (info nm') =
          (if int (p + r) > uint (length_f (info nm)) then word_of_int (int (p + r))
           else length_f (info nm)) \<and>
        (\<forall>n. n < s \<longrightarrow> C' n = C n) \<and>
        (\<forall>dd. dp = Some dd \<longrightarrow> holds_data C' p r dd s e) \<and>
        (4 \<le> length f \<longrightarrow> 4 \<le> length f' \<and> take 4 f' = take 4 f))"

text \<open>The file \<open>f\<close> holds the counter of the handle and, in the slot that this counter makes
  active, the ciphertext of the handle's meta data.\<close>

definition committed :: "config \<Rightarrow> byte list \<Rightarrow> tee_fs_fd \<Rightarrow> bool" where
  "committed cfg f fdp \<longleftrightarrow>
     4 \<le> length f \<and> u32_of_bytes (take 4 f) = meta_counter fdp \<and>
     read_at f (meta_pos_raw cfg fdp True)
        (sizeof_file_info cfg + tee_fs_get_header_size cfg META_FILE)
       = km_encrypt cfg META_FILE (bytes_of_info (info (meta fdp))) (encrypted_fek (meta fdp))"

section \<open>Properties\<close>

text \<open>The equations of the two loops are unfolded by hand, one round at a time.\<close>

declare oopw_loop.simps [simp del]
declare read_loop.simps [simp del]

subsection \<open>Conversions\<close>

lemma to_size_t_id: "0 \<le> x \<Longrightarrow> x < 4294967296 \<Longrightarrow> to_size_t x = nat x"
  by (simp add: to_size_t_def)

lemma to_int_id: "- 2147483648 \<le> x \<Longrightarrow> x < 2147483648 \<Longrightarrow> to_int x = x"
  by (simp add: to_int_def)


subsection \<open>The collaborators\<close>


lemma same_ree_refl [simp]: "same_ree w w"
  by (simp add: same_ree_def)

lemma same_ree_trans: "same_ree w w1 \<Longrightarrow> same_ree w1 w2 \<Longrightarrow> same_ree w w2"
  by (simp add: same_ree_def)

lemma same_ree_fd_file: "same_ree w w' \<Longrightarrow> fd_file w' d = fd_file w d"
  by (auto simp: same_ree_def fd_file_def split: option.splits)

lemma next_outcome_same: "next_outcome w = (r, w1) \<Longrightarrow> same_ree w w1"
  by (auto simp: next_outcome_def same_ree_def split: list.splits)

lemma malloc_same: "malloc n w = (ok, w1) \<Longrightarrow> same_ree w w1"
  by (auto simp: malloc_def split: prod.splits dest: next_outcome_same)

lemma rpc_read_same: "tee_fs_rpc_read d n offs w = (r, bs, w1) \<Longrightarrow> same_ree w w1"
  by (auto simp: tee_fs_rpc_read_def split: prod.splits if_splits option.splits
      dest: next_outcome_same)

lemma encrypt_same: "tee_fs_encrypt_file cfg t d k w = (r, ct, w1) \<Longrightarrow> same_ree w w1"
  by (auto simp: tee_fs_encrypt_file_def split: prod.splits if_splits dest: next_outcome_same)

lemma encrypt_ok: "tee_fs_encrypt_file cfg t d k w = (TEE_SUCCESS, ct, w1) \<Longrightarrow> ct = km_encrypt cfg t d k"
  by (auto simp: tee_fs_encrypt_file_def split: prod.splits if_splits)

lemma decrypt_same: "tee_fs_decrypt_file cfg t ct k w = (r, out, w1) \<Longrightarrow> same_ree w w1"
  by (auto simp: tee_fs_decrypt_file_def split: prod.splits if_splits option.splits
      dest: next_outcome_same)

lemma generate_fek_same: "tee_fs_generate_fek cfg w = (r, k, w1) \<Longrightarrow> same_ree w w1"
  by (auto simp: tee_fs_generate_fek_def split: prod.splits if_splits dest: next_outcome_same)

lemma rpc_write_fail:
  assumes "tee_fs_rpc_write d buf offs w = (r, w')" "r \<noteq> TEE_SUCCESS"
  shows "ree_files w' = ree_files w" "ree_fds w' = ree_fds w" "next_fd w' = next_fd w"
    "rlog w' = rlog w @ [RpcWrite d offs (length buf) r]"
  using assms
  by (auto simp: tee_fs_rpc_write_def Let_def same_ree_def split: prod.splits if_splits
      dest!: next_outcome_same)

lemma rpc_write_ok:
  assumes "tee_fs_rpc_write d buf offs w = (TEE_SUCCESS, w')"
  shows "\<exists>name f. ree_fds w d = Some name \<and> ree_files w name = Some f \<and>
           ree_files w' = (ree_files w)(name \<mapsto> write_at f offs buf)"
    "ree_fds w' = ree_fds w" "next_fd w' = next_fd w"
    "rlog w' = rlog w @ [RpcWrite d offs (length buf) TEE_SUCCESS]"
  using assms
  by (auto simp: tee_fs_rpc_write_def Let_def same_ree_def fd_file_def
      split: prod.splits if_splits option.splits dest!: next_outcome_same)

lemma encrypt_and_write_file_cases:
  assumes "encrypt_and_write_file cfg fdp t offs d k w = (r, w')"
  shows "(r \<noteq> TEE_SUCCESS \<and> same_ree w w') \<or>
         (\<exists>w2. same_ree w w2 \<and>
            tee_fs_rpc_write (fd fdp) (km_encrypt cfg t d k) offs w2 = (r, w'))"
proof -
  obtain ok w1 where m: "malloc (tee_fs_get_header_size cfg t + length d) w = (ok, w1)"
    by (cases "malloc (tee_fs_get_header_size cfg t + length d) w") auto
  obtain r2 ct w2 where e: "tee_fs_encrypt_file cfg t d k w1 = (r2, ct, w2)"
    by (cases "tee_fs_encrypt_file cfg t d k w1") auto
  have s1: "same_ree w w1" using m by (rule malloc_same)
  have s2: "same_ree w1 w2" using e by (rule encrypt_same)
  show ?thesis
  proof (cases "ok \<and> r2 = TEE_SUCCESS")
    case True
    then have "tee_fs_rpc_write (fd fdp) (km_encrypt cfg t d k) offs w2 = (r, w')"
      using assms m e encrypt_ok[of cfg t d k w1 ct w2]
      by (simp add: encrypt_and_write_file_def Let_def)
    then show ?thesis using same_ree_trans[OF s1 s2] by blast
  next
    case False
    then have "r \<noteq> TEE_SUCCESS \<and> (w' = w1 \<or> w' = w2)"
      using assms m e by (auto simp: encrypt_and_write_file_def Let_def split: if_splits)
    then show ?thesis using s1 same_ree_trans[OF s1 s2] by blast
  qed
qed


subsection \<open>Counter and meta data\<close>


lemma u32_roundtrip: "u32_of_bytes (bytes_of_u32 w) = w"
  unfolding u32_of_bytes_def bytes_of_u32_def
  apply simp
  apply (rule bit_word_eqI)
  subgoal for n
    by (cases "n < 8"; cases "n < 16"; cases "n < 24") (auto simp: bit_simps)
  done

lemma length_bytes_of_u32 [simp]: "length (bytes_of_u32 w) = 4"
  by (simp add: bytes_of_u32_def)

lemma length_write_at: "length (write_at f offs d) = max (length f) (offs + length d)"
  by (auto simp: write_at_def)

lemma take_write_at_0: "take (length d) (write_at f 0 d) = d"
  by (simp add: write_at_def)

lemma take_write_at_high:
  "n \<le> offs \<Longrightarrow> n \<le> length f \<Longrightarrow> take n (write_at f offs d) = take n f"
  by (simp add: write_at_def)

lemma write_meta_counter_ok:
  assumes "write_meta_counter fdp w = (TEE_SUCCESS, w')"
  shows "disk_counter w' (fd fdp) = Some (meta_counter fdp)"
    and "rlog w' = rlog w @ [RpcWrite (fd fdp) 0 4 TEE_SUCCESS]"
    and "ree_fds w' = ree_fds w"
proof -
  have wr: "tee_fs_rpc_write (fd fdp) (bytes_of_u32 (meta_counter fdp)) 0 w = (TEE_SUCCESS, w')"
    using assms by (simp add: write_meta_counter_def)
  from rpc_write_ok[OF wr] obtain name f where
    n: "ree_fds w (fd fdp) = Some name" "ree_files w name = Some f"
       "ree_files w' = (ree_files w)(name \<mapsto> write_at f 0 (bytes_of_u32 (meta_counter fdp)))"
    and k: "ree_fds w' = ree_fds w" and l: "rlog w' = rlog w @ [RpcWrite (fd fdp) 0 4 TEE_SUCCESS]"
    by auto
  have "fd_file w' (fd fdp) = Some (write_at f 0 (bytes_of_u32 (meta_counter fdp)))"
    using n k by (simp add: fd_file_def)
  moreover have "take 4 (write_at f 0 (bytes_of_u32 (meta_counter fdp))) = bytes_of_u32 (meta_counter fdp)"
    using take_write_at_0[of "bytes_of_u32 (meta_counter fdp)" f] by simp
  ultimately show "disk_counter w' (fd fdp) = Some (meta_counter fdp)"
    by (simp add: disk_counter_def length_write_at u32_roundtrip)
  show "rlog w' = rlog w @ [RpcWrite (fd fdp) 0 4 TEE_SUCCESS]" by (rule l)
  show "ree_fds w' = ree_fds w" by (rule k)
qed

lemma write_meta_counter_log:
  assumes "write_meta_counter fdp w = (r, w')"
  shows "rlog w' = rlog w @ [RpcWrite (fd fdp) 0 4 r]"
proof (cases "r = TEE_SUCCESS")
  case True
  then show ?thesis using assms write_meta_counter_ok(2) by blast
next
  case False
  then show ?thesis using assms rpc_write_fail(4)[of "fd fdp" "bytes_of_u32 (meta_counter fdp)" 0 w r w']
    by (simp add: write_meta_counter_def)
qed

lemma rpc_write_log:
  assumes "tee_fs_rpc_write d buf offs w = (r, w')"
  shows "rlog w' = rlog w @ [RpcWrite d offs (length buf) r]"
  using assms rpc_write_fail(4)[of d buf offs w r w'] rpc_write_ok(4)[of d buf offs w w']
  by (cases "r = TEE_SUCCESS") auto

lemma write_meta_file_log:
  assumes "write_meta_file cfg fdp m w = (r, w')"
  shows "(r \<noteq> TEE_SUCCESS \<and> rlog w' = rlog w) \<or>
         rlog w' = rlog w @ [RpcWrite (fd fdp) (meta_pos_raw cfg fdp False)
            (length (km_encrypt cfg META_FILE (bytes_of_info (info m)) (encrypted_fek m))) r]"
proof -
  have e: "encrypt_and_write_file cfg fdp META_FILE (meta_pos_raw cfg fdp False)
             (bytes_of_info (info m)) (encrypted_fek m) w = (r, w')"
    using assms by (simp add: write_meta_file_def Let_def)
  from encrypt_and_write_file_cases[OF e] show ?thesis
  proof
    assume "r \<noteq> TEE_SUCCESS \<and> same_ree w w'"
    then show ?thesis by (simp add: same_ree_def)
  next
    assume "\<exists>w2. same_ree w w2 \<and>
      tee_fs_rpc_write (fd fdp) (km_encrypt cfg META_FILE (bytes_of_info (info m)) (encrypted_fek m))
        (meta_pos_raw cfg fdp False) w2 = (r, w')"
    then obtain w2 where s: "same_ree w w2" and
      wr: "tee_fs_rpc_write (fd fdp) (km_encrypt cfg META_FILE (bytes_of_info (info m)) (encrypted_fek m))
        (meta_pos_raw cfg fdp False) w2 = (r, w')" by blast
    show ?thesis using rpc_write_log[OF wr] s by (simp add: same_ree_def)
  qed
qed

lemma and_one_cases: "(w :: uint32_t) AND 1 = 0 \<or> w AND 1 = 1"
  by (simp add: and_one_eq) (metis even_iff_mod_2_eq_zero odd_iff_mod_2_eq_one)

lemma meta_pos_raw_differ:
  "0 < meta_size cfg \<Longrightarrow> meta_counter fdp2 = meta_counter fdp \<Longrightarrow>
   meta_pos_raw cfg fdp False \<noteq> meta_pos_raw cfg fdp2 True"
  using and_one_cases[of "meta_counter fdp"] by (auto simp: meta_pos_raw_def Let_def)



lemma commit_meta_file_cases:
  assumes cm: "commit_meta_file cfg fdp new_meta w = (res, fdp', w')"
  shows "(res \<noteq> TEE_SUCCESS \<and> fdp' = fdp \<and> rlog w' = rlog w) \<or>
          (\<exists>n. res \<noteq> TEE_SUCCESS \<and> fdp' = fdp \<and>
             rlog w' = rlog w @ [RpcWrite (fd fdp) (meta_pos_raw cfg fdp False) n res]) \<or>
          (\<exists>n. fdp' = fdp\<lparr> meta := new_meta\<lparr> counter := meta_counter fdp + 1 \<rparr>,
                            meta_counter := meta_counter fdp + 1 \<rparr> \<and>
             rlog w' = rlog w @ [RpcWrite (fd fdp) (meta_pos_raw cfg fdp False) n TEE_SUCCESS,
                                 RpcWrite (fd fdp) 0 4 res] \<and>
             (if res = TEE_SUCCESS then disk_counter w' (fd fdp) = Some (meta_counter fdp + 1)
              else True))"
proof -
  let ?nm = "new_meta\<lparr> counter := meta_counter fdp + 1 \<rparr>"
  let ?f2 = "fdp\<lparr> meta := ?nm, meta_counter := meta_counter fdp + 1 \<rparr>"
  obtain r1 w1 where wm: "write_meta_file cfg fdp ?nm w = (r1, w1)"
    by (cases "write_meta_file cfg fdp ?nm w") auto
  show ?thesis
  proof (cases "r1 = TEE_SUCCESS")
    case False
    then have r: "res = r1" "fdp' = fdp" "w' = w1"
      using cm wm by (simp_all add: commit_meta_file_def Let_def)
    show ?thesis using write_meta_file_log[OF wm] False r by auto
  next
    case True
    obtain r2 w2 where wc: "write_meta_counter ?f2 w1 = (r2, w2)"
      by (cases "write_meta_counter ?f2 w1") auto
    have r: "res = r2" "fdp' = ?f2" "w' = w2"
      using cm wm wc True by (simp_all add: commit_meta_file_def Let_def)
    have l1: "rlog w1 = rlog w @ [RpcWrite (fd fdp) (meta_pos_raw cfg fdp False)
            (length (km_encrypt cfg META_FILE (bytes_of_info (info ?nm)) (encrypted_fek ?nm))) TEE_SUCCESS]"
      using write_meta_file_log[OF wm] True by simp
    have l2: "rlog w2 = rlog w1 @ [RpcWrite (fd fdp) 0 4 r2]"
      using write_meta_counter_log[OF wc] by simp
    have d: "r2 = TEE_SUCCESS \<Longrightarrow> disk_counter w2 (fd fdp) = Some (meta_counter fdp + 1)"
      using write_meta_counter_ok(1)[of ?f2 w1 w2] wc by simp
    show ?thesis using r l1 l2 d by auto
  qed
qed

lemma rpc_open_ok:
  assumes "tee_fs_rpc_open fname create w = (TEE_SUCCESS, d, w')"
  shows "d = Some (next_fd w)" "rlog w' = rlog w" "ree_fds w' = (ree_fds w)(next_fd w \<mapsto> fname)"
    "ree_files w' = (if create then (ree_files w)(fname \<mapsto> []) else ree_files w)"
    "\<not> create \<Longrightarrow> ree_files w fname \<noteq> None"
  using assms
  by (auto simp: tee_fs_rpc_open_def same_ree_def split: prod.splits if_splits
      dest!: next_outcome_same)

lemma generate_fek_ok:
  "tee_fs_generate_fek cfg w = (TEE_SUCCESS, k, w1) \<Longrightarrow>
   k = Some (km_generate_fek cfg (TEE_FS_KM_FEK_SIZE cfg))"
  by (auto simp: tee_fs_generate_fek_def split: prod.splits if_splits)

lemma create_meta_ok:
  assumes cm: "create_meta cfg fdp0 fname w = (TEE_SUCCESS, fdp, w')"
  shows "fdp = fdp0\<lparr> meta := \<lparr> info = \<lparr> length_f = 0,
                     backup_version_table = replicate (NUM_BLOCKS_PER_FILE cfg div 32) 0xffffffff \<rparr>,
                   encrypted_fek = km_generate_fek cfg (TEE_FS_KM_FEK_SIZE cfg),
                   counter = meta_counter fdp0 \<rparr>, fd := next_fd w \<rparr>"
    and "rlog w' = rlog w @
           [RpcWrite (fd fdp) (meta_pos_raw cfg fdp False)
              (length (km_encrypt cfg META_FILE (bytes_of_info (info (meta fdp)))
                 (encrypted_fek (meta fdp)))) TEE_SUCCESS,
            RpcWrite (fd fdp) 0 4 TEE_SUCCESS]"
    and "disk_counter w' (fd fdp) = Some (meta_counter fdp0)"
proof -
  let ?fdp1 = "fdp0\<lparr> meta := (meta fdp0)\<lparr> info :=
                   \<lparr> length_f = 0,
                     backup_version_table =
                       replicate (NUM_BLOCKS_PER_FILE cfg div 32) 0xffffffff \<rparr> \<rparr> \<rparr>"
  obtain r1 k w1 where g: "tee_fs_generate_fek cfg w = (r1, k, w1)"
    by (cases "tee_fs_generate_fek cfg w") auto
  have r1: "r1 = TEE_SUCCESS"
    using cm g by (auto simp: create_meta_def Let_def split: if_splits)
  have k: "k = Some (km_generate_fek cfg (TEE_FS_KM_FEK_SIZE cfg))"
    using g r1 generate_fek_ok by blast
  let ?fdp2 = "?fdp1\<lparr> meta := (meta ?fdp1)\<lparr> encrypted_fek := km_generate_fek cfg (TEE_FS_KM_FEK_SIZE cfg) \<rparr> \<rparr>"
  obtain r2 d w2 where o: "tee_fs_rpc_open fname True w1 = (r2, d, w2)"
    by (cases "tee_fs_rpc_open fname True w1") auto
  have r2: "r2 = TEE_SUCCESS"
    using cm g r1 o by (auto simp: create_meta_def Let_def split: if_splits)
  have s1: "same_ree w w1" using g by (rule generate_fek_same)
  have d: "d = Some (next_fd w)" using rpc_open_ok(1)[of fname True w1 d w2] o r2 s1
    by (simp add: same_ree_def)
  let ?fdp4 = "?fdp2\<lparr> fd := next_fd w, meta := (meta ?fdp2)\<lparr> counter := meta_counter fdp0 \<rparr> \<rparr>"
  obtain r3 w3 where wm: "write_meta_file cfg ?fdp4 (meta ?fdp4) w2 = (r3, w3)"
    by (cases "write_meta_file cfg ?fdp4 (meta ?fdp4) w2") auto
  have r3: "r3 = TEE_SUCCESS"
    using cm g r1 k o r2 d wm by (auto simp: create_meta_def Let_def split: if_splits)
  obtain r4 w4 where wc: "write_meta_counter ?fdp4 w3 = (r4, w4)"
    by (cases "write_meta_counter ?fdp4 w3") auto
  have fin: "r4 = TEE_SUCCESS" "fdp = ?fdp4" "w' = w4"
    using cm g r1 k o r2 d wm r3 wc by (auto simp: create_meta_def Let_def split: if_splits)
  show "fdp = fdp0\<lparr> meta := \<lparr> info = \<lparr> length_f = 0,
                     backup_version_table = replicate (NUM_BLOCKS_PER_FILE cfg div 32) 0xffffffff \<rparr>,
                   encrypted_fek = km_generate_fek cfg (TEE_FS_KM_FEK_SIZE cfg),
                   counter = meta_counter fdp0 \<rparr>, fd := next_fd w \<rparr>"
    using fin(2) by simp
  have l2: "rlog w2 = rlog w" using rpc_open_ok(2)[of fname True w1 d w2] o r2 s1
    by (simp add: same_ree_def)
  have l3: "rlog w3 = rlog w2 @ [RpcWrite (fd ?fdp4) (meta_pos_raw cfg ?fdp4 False)
            (length (km_encrypt cfg META_FILE (bytes_of_info (info (meta ?fdp4))) (encrypted_fek (meta ?fdp4)))) TEE_SUCCESS]"
    using write_meta_file_log[OF wm] r3 by simp
  have l4: "rlog w4 = rlog w3 @ [RpcWrite (fd ?fdp4) 0 4 TEE_SUCCESS]"
    using write_meta_counter_ok(2)[of ?fdp4 w3 w4] wc fin(1) by simp
  show "rlog w' = rlog w @
           [RpcWrite (fd fdp) (meta_pos_raw cfg fdp False)
              (length (km_encrypt cfg META_FILE (bytes_of_info (info (meta fdp)))
                 (encrypted_fek (meta fdp)))) TEE_SUCCESS,
            RpcWrite (fd fdp) 0 4 TEE_SUCCESS]"
    unfolding fin(2) fin(3) l4 l3 l2 by simp
  show "disk_counter w' (fd fdp) = Some (meta_counter fdp0)"
    using write_meta_counter_ok(1)[of ?fdp4 w3 w4] wc fin by simp
qed


subsection \<open>Writes of blocks leave the counter alone\<close>


lemma block_writes_only_refl: "block_writes_only w w"
  by (simp add: block_writes_only_def)

lemma same_ree_block_writes_only: "same_ree w w' \<Longrightarrow> block_writes_only w w'"
  by (simp add: block_writes_only_def same_ree_def)

lemma block_writes_only_trans:
  assumes "block_writes_only w w1" "block_writes_only w1 w2"
  shows "block_writes_only w w2"
proof -
  obtain e1 e2 where e: "rlog w1 = rlog w @ e1" "\<forall>e\<in>set e1. 4 \<le> ev_offs e"
     "rlog w2 = rlog w1 @ e2" "\<forall>e\<in>set e2. 4 \<le> ev_offs e"
    using assms unfolding block_writes_only_def by blast
  have l: "\<exists>evs. rlog w2 = rlog w @ evs \<and> (\<forall>e\<in>set evs. 4 \<le> ev_offs e)"
    using e by (intro exI[of _ "e1 @ e2"]) auto
  have f: "\<forall>n f. ree_files w n = Some f \<longrightarrow> 4 \<le> length f \<longrightarrow>
        (\<exists>f'. ree_files w2 n = Some f' \<and> 4 \<le> length f' \<and> take 4 f' = take 4 f)"
    using assms unfolding block_writes_only_def by metis
  show ?thesis using assms l f unfolding block_writes_only_def by simp
qed

lemma rpc_write_block_writes_only:
  assumes wr: "tee_fs_rpc_write d buf offs w = (r, w')" and o: "4 \<le> offs"
  shows "block_writes_only w w'"
proof (cases "r = TEE_SUCCESS")
  case False
  then show ?thesis
    using rpc_write_fail[OF wr] o by (simp add: block_writes_only_def)
next
  case True
  from rpc_write_ok[OF wr[unfolded True]] obtain name f where
    n: "ree_fds w d = Some name" "ree_files w name = Some f"
       "ree_files w' = (ree_files w)(name \<mapsto> write_at f offs buf)"
    and k: "ree_fds w' = ree_fds w"
    and l: "rlog w' = rlog w @ [RpcWrite d offs (length buf) TEE_SUCCESS]"
    by auto
  have "\<And>g. 4 \<le> length g \<Longrightarrow> take 4 (write_at g offs buf) = take 4 g"
    using o by (intro take_write_at_high) simp_all
  then show ?thesis
    using n k l o unfolding block_writes_only_def
    by (auto simp: length_write_at)
qed

lemma block_writes_only_disk_counter:
  assumes "block_writes_only w w'" "disk_counter w d = Some c"
  shows "disk_counter w' d = Some c"
proof -
  obtain name f where n: "ree_fds w d = Some name" "ree_files w name = Some f" "4 \<le> length f"
     "c = u32_of_bytes (take 4 f)"
    using assms(2) by (auto simp: disk_counter_def fd_file_def split: option.splits if_splits)
  then obtain f' where "ree_files w' name = Some f'" "4 \<le> length f'" "take 4 f' = take 4 f"
    using assms(1) unfolding block_writes_only_def by blast
  moreover have "ree_fds w' d = Some name" using n assms(1) by (simp add: block_writes_only_def)
  ultimately show ?thesis using n by (simp add: disk_counter_def fd_file_def)
qed

lemma read_block_same: "read_block cfg fdp bnum data w = (r, data', w') \<Longrightarrow> same_ree w w'"
  unfolding read_block_def Let_def
  by (auto split: prod.splits if_splits
      dest!: malloc_same rpc_read_same decrypt_same intro: same_ree_trans)

lemma encrypt_and_write_file_bwo:
  assumes "encrypt_and_write_file cfg fdp t offs d k w = (r, w')" "4 \<le> offs"
  shows "block_writes_only w w'"
  using encrypt_and_write_file_cases[OF assms(1)] assms(2)
  by (auto intro: same_ree_block_writes_only block_writes_only_trans
      rpc_write_block_writes_only)

lemma write_block_bwo:
  assumes "write_block cfg fdp bnum data nm w = (r, nm', w')"
  shows "block_writes_only w w'"
proof -
  have "4 \<le> block_pos_raw cfg nm bnum False" by (simp add: block_pos_raw_def Let_def)
  then show ?thesis
    using assms encrypt_and_write_file_bwo
    by (auto simp: write_block_def Let_def split: prod.splits)
qed

lemma oopw_loop_stop:
  "\<not> s \<le> e \<Longrightarrow> oopw_loop cfg fdp s e rem dp blk nm res w =
     (res, fdp,
      (if pos fdp > uint (length_f (info nm))
       then nm\<lparr> info := (info nm)\<lparr> length_f := word_of_int (pos fdp) \<rparr> \<rparr> else nm), w)"
  by (subst oopw_loop.simps) simp

lemma oopw_loop_step:
  "s \<le> e \<Longrightarrow> oopw_loop cfg fdp s e rem dp blk nm res w =
     (case read_block cfg fdp s blk w of (r1, b1, w1) \<Rightarrow>
        if r1 \<noteq> TEE_ERROR_ITEM_NOT_FOUND \<and> r1 \<noteq> TEE_SUCCESS then (r1, fdp, nm, w1)
        else (case write_block cfg fdp (to_size_t s)
                     (oopw_block fdp (oopw_size fdp rem) dp r1 b1) nm w1 of
                (r2, nm1, w2) \<Rightarrow>
                  if r2 \<noteq> TEE_SUCCESS then (r2, fdp, nm1, w2)
                  else oopw_loop cfg (fdp\<lparr> pos := pos fdp + int (oopw_size fdp rem) \<rparr>)
                         (s + 1) e (to_size_t (int rem - int (oopw_size fdp rem)))
                         (map_option (drop (oopw_size fdp rem)) dp)
                         (oopw_block fdp (oopw_size fdp rem) dp r1 b1) nm1 r2 w2))"
  apply (subst oopw_loop.simps)
  unfolding oopw_size_def oopw_block_def Let_def
  apply (simp only: if_True)
  done

lemma oopw_loop_frame:
  "oopw_loop cfg fdp s e rem dp blk nm res w = (r, fdp', nm', w') \<Longrightarrow>
   (\<exists>p. fdp' = fdp\<lparr> pos := p \<rparr>) \<and> block_writes_only w w'"
proof (induction "nat (e + 1 - s)" arbitrary: fdp s rem dp blk nm res w)
  case 0
  then have "\<not> s \<le> e" by simp
  then have "fdp' = fdp" "w' = w" using "0.prems" by (simp_all add: oopw_loop_stop)
  moreover have "fdp = fdp\<lparr> pos := pos fdp \<rparr>" by simp
  ultimately show ?case using block_writes_only_refl by metis
next
  case (Suc n)
  then have se: "s \<le> e" by simp
  obtain r1 b1 w1 where rb: "read_block cfg fdp s blk w = (r1, b1, w1)"
    by (cases "read_block cfg fdp s blk w") auto
  have s1: "block_writes_only w w1" using read_block_same[OF rb] by (rule same_ree_block_writes_only)
  let ?sz = "oopw_size fdp rem"
  let ?b3 = "oopw_block fdp ?sz dp r1 b1"
  obtain r2 nm1 w2 where wb: "write_block cfg fdp (to_size_t s) ?b3 nm w1 = (r2, nm1, w2)"
    by (cases "write_block cfg fdp (to_size_t s) ?b3 nm w1") auto
  have s2: "block_writes_only w w2"
    using s1 write_block_bwo[OF wb] by (rule block_writes_only_trans)
  have id: "fdp = fdp\<lparr> pos := pos fdp \<rparr>" by simp
  note st = Suc.prems[unfolded oopw_loop_step[OF se] rb wb prod.case]
  show ?case
  proof (cases "r1 \<noteq> TEE_ERROR_ITEM_NOT_FOUND \<and> r1 \<noteq> TEE_SUCCESS")
    case True
    then have "fdp' = fdp" "w' = w1" using st by simp_all
    then show ?thesis using s1 id by metis
  next
    case False
    show ?thesis
    proof (cases "r2 = TEE_SUCCESS")
      case F2: False
      then have "fdp' = fdp" "w' = w2" using st False by auto
      then show ?thesis using s2 id by metis
    next
      case T2: True
      have rec: "oopw_loop cfg (fdp\<lparr> pos := pos fdp + int ?sz \<rparr>) (s + 1) e
                   (to_size_t (int rem - int ?sz)) (map_option (drop ?sz) dp) ?b3 nm1 r2 w2
                 = (r, fdp', nm', w')"
        using st False T2 by auto
      have "n = nat (e + 1 - (s + 1))" using Suc.hyps(2) by simp
      from Suc.hyps(1)[OF this rec]
      obtain p where "fdp' = (fdp\<lparr> pos := pos fdp + int ?sz \<rparr>)\<lparr> pos := p \<rparr>"
        and b: "block_writes_only w2 w'" by blast
      then have "fdp' = fdp\<lparr> pos := p \<rparr>" by simp
      then show ?thesis using s2 b block_writes_only_trans by blast
    qed
  qed
qed

lemma out_of_place_write_frame:
  assumes "out_of_place_write cfg fdp buf len nm w = (r, fdp', nm', w')"
  shows "block_writes_only w w'"
    and "\<exists>p. fdp' = fdp\<lparr> pos := p \<rparr>"
    and "r \<noteq> TEE_SUCCESS \<Longrightarrow> fdp' = fdp\<lparr> pos := to_int (pos fdp) \<rparr>"
proof -
  obtain r1 f1 n1 w1 where l: "oopw_loop cfg fdp (pos_to_block_num (pos fdp))
      (pos_to_block_num (pos fdp + int len - 1)) len buf (replicate BLOCK_SIZE 0) nm
      TEE_ERROR_GENERIC w = (r1, f1, n1, w1)"
    by (cases "oopw_loop cfg fdp (pos_to_block_num (pos fdp))
      (pos_to_block_num (pos fdp + int len - 1)) len buf (replicate BLOCK_SIZE 0) nm
      TEE_ERROR_GENERIC w") auto
  note a = assms[unfolded out_of_place_write_def Let_def l prod.case]
  have e: "r = r1" "fdp' = (if r1 \<noteq> TEE_SUCCESS then f1\<lparr> pos := to_int (pos fdp) \<rparr> else f1)"
      "w' = w1"
    using a by auto
  from oopw_loop_frame[OF l] obtain p where p: "f1 = fdp\<lparr> pos := p \<rparr>"
    and b: "block_writes_only w w1" by blast
  show "block_writes_only w w'" using b e by simp
  show "\<exists>p. fdp' = fdp\<lparr> pos := p \<rparr>"
  proof (cases "r1 = TEE_SUCCESS")
    case True then show ?thesis using e p by auto
  next
    case False
    then have "fdp' = fdp\<lparr> pos := to_int (pos fdp) \<rparr>" using e p by simp
    then show ?thesis by blast
  qed
  show "r \<noteq> TEE_SUCCESS \<Longrightarrow> fdp' = fdp\<lparr> pos := to_int (pos fdp) \<rparr>" using e p by simp
qed

lemma commit_meta_file_frame:
  assumes "commit_meta_file cfg fdp nm w = (r, fdp', w')"
  shows "pos fdp' = pos fdp" "fd fdp' = fd fdp" "ree_fds w' = ree_fds w"
proof -
  show "pos fdp' = pos fdp" "fd fdp' = fd fdp"
    using commit_meta_file_cases[OF assms] by auto
  obtain r1 w1 where wm: "write_meta_file cfg fdp (nm\<lparr> counter := meta_counter fdp + 1 \<rparr>) w = (r1, w1)"
    by (cases "write_meta_file cfg fdp (nm\<lparr> counter := meta_counter fdp + 1 \<rparr>) w") auto
  have "4 \<le> meta_pos_raw cfg fdp False" by (simp add: meta_pos_raw_def Let_def)
  then have "block_writes_only w w1"
    using wm encrypt_and_write_file_bwo[of cfg fdp META_FILE "meta_pos_raw cfg fdp False"]
    by (simp add: write_meta_file_def Let_def)
  then have k1: "ree_fds w1 = ree_fds w" by (simp add: block_writes_only_def)
  show "ree_fds w' = ree_fds w"
  proof (cases "r1 = TEE_SUCCESS")
    case False
    then show ?thesis using assms wm k1 by (simp add: commit_meta_file_def Let_def)
  next
    case True
    let ?f2 = "fdp\<lparr> meta := nm\<lparr> counter := meta_counter fdp + 1 \<rparr>, meta_counter := meta_counter fdp + 1 \<rparr>"
    obtain r2 w2 where wc: "write_meta_counter ?f2 w1 = (r2, w2)"
      by (cases "write_meta_counter ?f2 w1") auto
    have wr: "tee_fs_rpc_write (fd ?f2) (bytes_of_u32 (meta_counter ?f2)) 0 w1 = (r2, w2)"
      using wc by (simp add: write_meta_counter_def Let_def)
    have "ree_fds w2 = ree_fds w1"
    proof (cases "r2 = TEE_SUCCESS")
      case True
      then show ?thesis using rpc_write_ok(2)[OF wr[unfolded True]] by simp
    next
      case False
      then show ?thesis using rpc_write_fail(2)[OF wr] by simp
    qed
    moreover have "w' = w2"
      using assms wm wc True by (simp add: commit_meta_file_def Let_def)
    ultimately show ?thesis using k1 by simp
  qed
qed

lemma commit_meta_file_ok:
  assumes "commit_meta_file cfg fdp nm w = (TEE_SUCCESS, fdp', w')"
  shows "fdp' = fdp\<lparr> meta := nm\<lparr> counter := meta_counter fdp + 1 \<rparr>,
                      meta_counter := meta_counter fdp + 1 \<rparr>"
    and "disk_counter w' (fd fdp) = Some (meta_counter fdp + 1)"
  using commit_meta_file_cases[OF assms] by auto

lemma ftruncate_cursor:
  assumes "ree_fs_ftruncate_internal cfg fdp n w = (r, fdp', w')"
  shows "pos fdp' = (if n \<le> MAX_FILE_SIZE cfg \<and> to_size_t n > unat (length_f (info (meta fdp)))
                     then to_int (pos fdp) else pos fdp)"
    and "fd fdp' = fd fdp"
proof -
  let ?old = "unat (length_f (info (meta fdp)))"
  let ?nm = "(meta fdp)\<lparr> info := (info (meta fdp))\<lparr> length_f := word_of_int n \<rparr> \<rparr>"
  let ?f1 = "fdp\<lparr> pos := int ?old \<rparr>"
  obtain r2 f2 nm2 w2 where o: "out_of_place_write cfg ?f1 None (to_size_t (n - int ?old)) ?nm w
       = (r2, f2, nm2, w2)"
    by (cases "out_of_place_write cfg ?f1 None (to_size_t (n - int ?old)) ?nm w") auto
  obtain p where p: "f2 = ?f1\<lparr> pos := p \<rparr>" using out_of_place_write_frame(2)[OF o] by blast
  have f2: "fd f2 = fd fdp" using p by simp
  obtain r3 f3 w3 where c1: "commit_meta_file cfg (f2\<lparr> pos := to_int (pos fdp) \<rparr>) nm2 w2 = (r3, f3, w3)"
    by (cases "commit_meta_file cfg (f2\<lparr> pos := to_int (pos fdp) \<rparr>) nm2 w2") auto
  obtain r4 f4 w4 where c2: "commit_meta_file cfg fdp ?nm w = (r4, f4, w4)"
    by (cases "commit_meta_file cfg fdp ?nm w") auto
  note a = assms[unfolded ree_fs_ftruncate_internal_def Let_def o c1 c2 prod.case]
  note k1 = commit_meta_file_frame[OF c1] and k2 = commit_meta_file_frame[OF c2]
  show "pos fdp' = (if n \<le> MAX_FILE_SIZE cfg \<and> to_size_t n > ?old
                     then to_int (pos fdp) else pos fdp)"
  proof (cases "n > MAX_FILE_SIZE cfg")
    case True then show ?thesis using a by simp
  next
    case F: False
    show ?thesis
    proof (cases "to_size_t n > ?old")
      case False then show ?thesis using a F k2 by simp
    next
      case True
      then show ?thesis using a F k1 by (cases "r2 = TEE_SUCCESS") auto
    qed
  qed
  show "fd fdp' = fd fdp"
  proof (cases "n > MAX_FILE_SIZE cfg")
    case True then show ?thesis using a by simp
  next
    case F: False
    show ?thesis
    proof (cases "to_size_t n > ?old")
      case False then show ?thesis using a F k2 by simp
    next
      case True
      then show ?thesis using a F k1 f2 by (cases "r2 = TEE_SUCCESS") auto
    qed
  qed
qed

lemma read_loop_stop:
  "\<not> s \<le> e \<Longrightarrow> read_loop cfg fdp s e rem out blk w = (TEE_SUCCESS, fdp, out, w)"
  by (subst read_loop.simps) simp

lemma read_loop_step:
  "s \<le> e \<Longrightarrow> read_loop cfg fdp s e rem out blk w =
     (case read_block cfg fdp s blk w of (r1, b1, w1) \<Rightarrow>
        if r1 \<noteq> TEE_SUCCESS
        then ((if r1 = TEE_ERROR_MAC_INVALID then TEE_ERROR_CORRUPT_OBJECT else r1), fdp, out, w1)
        else read_loop cfg (fdp\<lparr> pos := pos fdp + int (read_size fdp rem) \<rparr>) (s + 1) e
               (to_size_t (int rem - int (read_size fdp rem)))
               (out @ take (read_size fdp rem) (drop (nat (pos fdp smod int BLOCK_SIZE)) b1))
               b1 w1)"
  apply (subst read_loop.simps)
  unfolding read_size_def Let_def
  apply (simp only: if_True)
  done

lemma read_loop_frame:
  "read_loop cfg fdp s e rem out blk w = (r, fdp', out', w') \<Longrightarrow>
   (\<exists>p. fdp' = fdp\<lparr> pos := p \<rparr>) \<and> same_ree w w' \<and> r \<noteq> TEE_ERROR_MAC_INVALID"
proof (induction "nat (e + 1 - s)" arbitrary: fdp s rem out blk w)
  case 0
  then have "\<not> s \<le> e" by simp
  then have "fdp' = fdp" "w' = w" "r = TEE_SUCCESS" using "0.prems" by (simp_all add: read_loop_stop)
  moreover have "fdp = fdp\<lparr> pos := pos fdp \<rparr>" by simp
  ultimately show ?case using same_ree_refl by (metis TEE_Result.distinct(11))
next
  case (Suc n)
  then have se: "s \<le> e" by simp
  obtain r1 b1 w1 where rb: "read_block cfg fdp s blk w = (r1, b1, w1)"
    by (cases "read_block cfg fdp s blk w") auto
  have s1: "same_ree w w1" using rb by (rule read_block_same)
  have id: "fdp = fdp\<lparr> pos := pos fdp \<rparr>" by simp
  note st = Suc.prems[unfolded read_loop_step[OF se] rb prod.case]
  show ?case
  proof (cases "r1 = TEE_SUCCESS")
    case False
    then have "fdp' = fdp" "w' = w1" "r \<noteq> TEE_ERROR_MAC_INVALID"
      using st by (auto split: if_splits)
    then show ?thesis using s1 id by metis
  next
    case True
    let ?sz = "read_size fdp rem"
    have rec: "read_loop cfg (fdp\<lparr> pos := pos fdp + int ?sz \<rparr>) (s + 1) e
               (to_size_t (int rem - int ?sz))
               (out @ take ?sz (drop (nat (pos fdp smod int BLOCK_SIZE)) b1)) b1 w1
               = (r, fdp', out', w')"
      using st True by simp
    have "n = nat (e + 1 - (s + 1))" using Suc.hyps(2) by simp
    from Suc.hyps(1)[OF this rec]
    obtain p where "fdp' = (fdp\<lparr> pos := pos fdp + int ?sz \<rparr>)\<lparr> pos := p \<rparr>"
      and b: "same_ree w1 w'" "r \<noteq> TEE_ERROR_MAC_INVALID" by blast
    then have "fdp' = fdp\<lparr> pos := p \<rparr>" by simp
    then show ?thesis using s1 b same_ree_trans by blast
  qed
qed

lemma ree_fs_read_frame:
  assumes "ree_fs_read cfg fdp len w = (r, n, out, fdp', w')"
  shows "same_ree w w'" "\<exists>p. fdp' = fdp\<lparr> pos := p \<rparr>" "r \<noteq> TEE_ERROR_MAC_INVALID"
proof -
  define eff where "eff = (if pos fdp + int len < int len \<or> pos fdp > uint (length_f (info (meta fdp))) then 0
             else if pos fdp + int len > uint (length_f (info (meta fdp)))
                  then to_size_t (uint (length_f (info (meta fdp))) - pos fdp)
             else len)"
  obtain r1 f1 o1 w1 where l: "read_loop cfg fdp (pos_to_block_num (pos fdp))
       (pos_to_block_num (pos fdp + int eff - 1)) eff [] (replicate BLOCK_SIZE 0) w = (r1, f1, o1, w1)"
    by (cases "read_loop cfg fdp (pos_to_block_num (pos fdp))
       (pos_to_block_num (pos fdp + int eff - 1)) eff [] (replicate BLOCK_SIZE 0) w") auto
  have a: "(r, n, out, fdp', w') = (if eff = 0 then (TEE_SUCCESS, eff, [], fdp, w) else (r1, eff, o1, f1, w1))"
    using assms l unfolding ree_fs_read_def Let_def eff_def[symmetric]
    by (auto split: if_splits)
  from read_loop_frame[OF l] obtain p where p: "f1 = fdp\<lparr> pos := p \<rparr>"
    and s: "same_ree w w1" "r1 \<noteq> TEE_ERROR_MAC_INVALID" by blast
  have id: "fdp = fdp\<lparr> pos := pos fdp \<rparr>" by simp
  show "same_ree w w'" using a s by (cases "eff = 0") simp_all
  show "\<exists>p. fdp' = fdp\<lparr> pos := p \<rparr>"
  proof (cases "eff = 0")
    case True
    then have "fdp' = fdp" using a by simp
    then show ?thesis using id by metis
  next
    case False
    then have "fdp' = f1" using a by simp
    then show ?thesis using p by blast
  qed
  show "r \<noteq> TEE_ERROR_MAC_INVALID" using a s by (cases "eff = 0") simp_all
qed

lemma ree_fs_ftruncate_internal_ok:
  assumes "ree_fs_ftruncate_internal cfg fdp n w = (TEE_SUCCESS, fdp', w')"
  shows "meta_counter fdp' = meta_counter fdp + 1"
    and "disk_counter w' (fd fdp') = Some (meta_counter fdp')"
proof -
  let ?old = "unat (length_f (info (meta fdp)))"
  let ?nm = "(meta fdp)\<lparr> info := (info (meta fdp))\<lparr> length_f := word_of_int n \<rparr> \<rparr>"
  let ?f1 = "fdp\<lparr> pos := int ?old \<rparr>"
  obtain r2 f2 nm2 w2 where o: "out_of_place_write cfg ?f1 None (to_size_t (n - int ?old)) ?nm w
       = (r2, f2, nm2, w2)"
    by (cases "out_of_place_write cfg ?f1 None (to_size_t (n - int ?old)) ?nm w") auto
  obtain p where p: "f2 = ?f1\<lparr> pos := p \<rparr>" using out_of_place_write_frame(2)[OF o] by blast
  let ?f3 = "f2\<lparr> pos := to_int (pos fdp) \<rparr>"
  have f3: "fd ?f3 = fd fdp" "meta_counter ?f3 = meta_counter fdp" using p by simp_all
  note a = assms[unfolded ree_fs_ftruncate_internal_def Let_def o prod.case]
  have "\<exists>g nm3 w3. commit_meta_file cfg g nm3 w3 = (TEE_SUCCESS, fdp', w') \<and>
          fd g = fd fdp \<and> meta_counter g = meta_counter fdp"
  proof (cases "to_size_t n > ?old")
    case True
    then have "commit_meta_file cfg ?f3 nm2 w2 = (TEE_SUCCESS, fdp', w')"
      using a by (auto split: if_splits)
    then show ?thesis using f3 by blast
  next
    case False
    then have "commit_meta_file cfg fdp ?nm w = (TEE_SUCCESS, fdp', w')"
      using a by (auto split: if_splits)
    then show ?thesis by blast
  qed
  then obtain g nm3 w3 where c: "commit_meta_file cfg g nm3 w3 = (TEE_SUCCESS, fdp', w')"
    and g: "fd g = fd fdp" "meta_counter g = meta_counter fdp" by blast
  note k = commit_meta_file_ok[OF c]
  show "meta_counter fdp' = meta_counter fdp + 1" using k(1) g by simp
  show "disk_counter w' (fd fdp') = Some (meta_counter fdp')" using k g by simp
qed

lemma ree_fs_write_ok:
  assumes "ree_fs_write cfg fdp buf len w = (TEE_SUCCESS, fdp', w')" "0 < len"
  shows "fd fdp' = fd fdp"
    and "disk_counter w' (fd fdp') = Some (meta_counter fdp')"
    and "meta_counter fdp' = meta_counter fdp +
           (if unat (length_f (info (meta fdp))) < to_size_t (pos fdp) then 2 else 1)"
proof -
  let ?tr = "unat (length_f (info (meta fdp))) < to_size_t (pos fdp)"
  obtain r1 f1 w1 where t: "(if ?tr then ree_fs_ftruncate_internal cfg fdp (pos fdp) w
                    else (TEE_SUCCESS, fdp, w)) = (r1, f1, w1)"
    by (cases "(if ?tr then ree_fs_ftruncate_internal cfg fdp (pos fdp) w
                    else (TEE_SUCCESS, fdp, w))") auto
  obtain r2 f2 nm2 w2 where o: "out_of_place_write cfg f1 buf len (meta f1) w1 = (r2, f2, nm2, w2)"
    by (cases "out_of_place_write cfg f1 buf len (meta f1) w1") auto
  note a = assms(1)[unfolded ree_fs_write_def Let_def t o prod.case]
  have g: "\<not> (pos fdp + int len > MAX_FILE_SIZE cfg \<or> pos fdp + int len < int len)"
    using a assms(2) by (auto split: if_splits)
  have r1: "r1 = TEE_SUCCESS" using a assms(2) g by (auto split: if_splits)
  have r2: "r2 = TEE_SUCCESS" using a assms(2) g r1 by (auto split: if_splits)
  have c: "commit_meta_file cfg f2 nm2 w2 = (TEE_SUCCESS, fdp', w')"
    using a assms(2) g r1 r2 by (auto split: if_splits)
  have f1: "fd f1 = fd fdp" "meta_counter f1 = meta_counter fdp + (if ?tr then 1 else 0)"
    using t r1 ftruncate_cursor(2)[of cfg fdp "pos fdp" w r1 f1 w1]
      ree_fs_ftruncate_internal_ok(1)[of cfg fdp "pos fdp" w f1 w1]
    by (auto split: if_splits)
  obtain p where p: "f2 = f1\<lparr> pos := p \<rparr>" using out_of_place_write_frame(2)[OF o] by blast
  note k = commit_meta_file_ok[OF c]
  show "fd fdp' = fd fdp" using k(1) p f1 by simp
  show "disk_counter w' (fd fdp') = Some (meta_counter fdp')" using k p f1 by simp
  show "meta_counter fdp' = meta_counter fdp + (if ?tr then 2 else 1)"
    using k(1) p f1 by simp
qed

lemma unat_plus_small:
  fixes x :: uint32_t
  assumes "unat x < 4294967294"
  shows "unat x < unat (x + 1)" "unat x < unat (x + 2)"
  using assms by (simp_all add: unat_word_ariths)

subsection \<open>Files, words and the image of the meta data\<close>

lemma read_at_write_at_same: "read_at (write_at f offs d) offs (length d) = d"
  by (simp add: read_at_def write_at_def)

lemma read_at_write_at_other:
  assumes "o2 + n \<le> offs \<or> offs + length d \<le> o2" "o2 + n \<le> length f"
  shows "read_at (write_at f offs d) o2 n = read_at f o2 n"
proof (cases "o2 + n \<le> offs")
  case True
  then show ?thesis using assms(2) by (simp add: read_at_def write_at_def drop_take min_def)
next
  case False
  then have h: "offs + length d \<le> o2" using assms(1) by simp
  then have "length f \<ge> offs" using assms(2) by simp
  then have "drop o2 (write_at f offs d) = drop o2 f"
    using h by (simp add: write_at_def)
  then show ?thesis by (simp add: read_at_def)
qed

lemma read_at_beyond: "length f \<le> offs \<Longrightarrow> read_at f offs n = []"
  by (simp add: read_at_def)

lemma length_read_at: "length (read_at f offs n) = min n (length f - offs)"
  by (simp add: read_at_def)

lemma uint_word_of_int_32: "0 \<le> x \<Longrightarrow> x < 4294967296 \<Longrightarrow> uint (word_of_int x :: uint32_t) = x"
  by (simp add: uint_word_of_int take_bit_eq_mod)

lemma unat_word_of_int_32: "0 \<le> x \<Longrightarrow> x < 4294967296 \<Longrightarrow> unat (word_of_int x :: uint32_t) = nat x"
  using uint_word_of_int_32[of x] by (simp add: unat_eq_nat_uint)

lemma meta_pos_raw_next:
  "meta_counter g = meta_counter fdp + 1 \<Longrightarrow> meta_pos_raw cfg g True = meta_pos_raw cfg fdp False"
proof -
  assume a: "meta_counter g = meta_counter fdp + 1"
  have "(meta_counter fdp + 1) AND 1 = 1 \<longleftrightarrow> meta_counter fdp AND 1 = 0"
    by (simp add: and_one_eq) (metis even_add even_iff_mod_2_eq_zero odd_iff_mod_2_eq_one odd_one)
  then show ?thesis using a by (simp add: meta_pos_raw_def Let_def)
qed

lemma words_of_bytes_concat:
  "words_of_bytes (length ws) (concat (map bytes_of_u32 ws) @ rest) = ws"
proof (induction ws)
  case Nil then show ?case by simp
next
  case (Cons a ws)
  have "take 4 (bytes_of_u32 a @ concat (map bytes_of_u32 ws) @ rest) = bytes_of_u32 a"
    by simp
  moreover have "drop 4 (bytes_of_u32 a @ concat (map bytes_of_u32 ws) @ rest)
      = concat (map bytes_of_u32 ws) @ rest" by simp
  ultimately show ?case using Cons.IH by (simp add: u32_roundtrip)
qed

lemma length_concat_bytes: "length (concat (map bytes_of_u32 ws)) = 4 * length ws"
  by (induction ws) simp_all

lemma length_bytes_of_info:
  "length (bytes_of_info i) = 4 + 4 * length (backup_version_table i)"
  by (simp add: bytes_of_info_def length_concat_bytes)

lemma info_roundtrip: "info_of_bytes (bytes_of_info i) = i"
proof -
  have "words_of_bytes (length (backup_version_table i))
          (concat (map bytes_of_u32 (backup_version_table i)) @ []) = backup_version_table i"
    by (rule words_of_bytes_concat)
  then show ?thesis
    by (simp add: info_of_bytes_def bytes_of_info_def length_concat_bytes u32_roundtrip)
qed

lemma fill_buf_same_length: "length new = length old \<Longrightarrow> fill_buf old new = new"
  by (simp add: fill_buf_def)

subsection \<open>Blocks, when the host refuses nothing\<close>

lemma get_bit: "get_backup_version_of_block m n =
    bit (backup_version_table (info m) ! (n div 32)) (n mod 32)"
  by (simp add: get_backup_version_of_block_def Let_def push_bit_of_1 and_exp_eq_0_iff_not_bit)

lemma get_toggle:
  assumes "n div 32 < length (backup_version_table (info m))"
  shows "get_backup_version_of_block (toggle_backup_version_of_block m n) k =
           (if k = n then \<not> get_backup_version_of_block m k else get_backup_version_of_block m k)"
proof (cases "k div 32 = n div 32")
  case False
  then show ?thesis
    by (auto simp: get_bit toggle_backup_version_of_block_def Let_def)
next
  case True
  have "k = n \<longleftrightarrow> k mod 32 = n mod 32" using True by (metis div_mult_mod_eq)
  then show ?thesis using True assms
    by (auto simp: get_bit toggle_backup_version_of_block_def Let_def push_bit_of_1
        bit_xor_iff bit_exp_iff)
qed

lemma toggle_fields:
  "encrypted_fek (toggle_backup_version_of_block m n) = encrypted_fek m"
  "length_f (info (toggle_backup_version_of_block m n)) = length_f (info m)"
  "length (backup_version_table (info (toggle_backup_version_of_block m n)))
     = length (backup_version_table (info m))"
  "counter (toggle_backup_version_of_block m n) = counter m"
  by (simp_all add: toggle_backup_version_of_block_def Let_def)

lemma get_all_ones:
  assumes "backup_version_table (info m) = replicate L 0xffffffff" "n div 32 < L"
  shows "get_backup_version_of_block m n"
proof -
  have e: "(0xffffffff :: uint32_t) = - 1" by simp
  have b: "bit (- 1 :: uint32_t) (n mod 32)" by simp
  have "backup_version_table (info m) ! (n div 32) = 0xffffffff" using assms by simp
  then have "backup_version_table (info m) ! (n div 32) = - 1" using e by (rule trans)
  then show ?thesis unfolding get_bit using b by (simp only:)
qed

lemma block_pos_raw_eq:
  "block_pos_raw cfg m n active =
     4 + meta_size cfg * 2 +
       (2 * n + (if active = get_backup_version_of_block m n then 1 else 0)) * block_size_raw cfg"
  by (simp add: block_pos_raw_def Let_def mult.commute)

text \<open>When the host refuses nothing.\<close>

lemma file_at_next_outcome: "sched w = [] \<Longrightarrow> next_outcome w = (TEE_SUCCESS, w)"
  by (simp add: next_outcome_def)

lemma file_at_malloc: "file_at w d name f \<Longrightarrow> malloc n w = (True, w)"
  by (simp add: malloc_def file_at_def file_at_next_outcome)

lemma file_at_encrypt:
  "file_at w d name f \<Longrightarrow> tee_fs_encrypt_file cfg t pt k w = (TEE_SUCCESS, km_encrypt cfg t pt k, w)"
  by (simp add: tee_fs_encrypt_file_def file_at_def file_at_next_outcome)

lemma file_at_decrypt:
  "file_at w d name f \<Longrightarrow> km_decrypt cfg t ct k = Some out \<Longrightarrow>
   tee_fs_decrypt_file cfg t ct k w = (TEE_SUCCESS, Some out, w)"
  by (simp add: tee_fs_decrypt_file_def file_at_def file_at_next_outcome)

lemma file_at_rpc_read:
  "file_at w d name f \<Longrightarrow> tee_fs_rpc_read d n offs w = (TEE_SUCCESS, read_at f offs n, w)"
  by (simp add: tee_fs_rpc_read_def file_at_def file_at_next_outcome fd_file_def)

lemma file_at_rpc_write:
  assumes "file_at w d name f"
  shows "\<exists>w'. tee_fs_rpc_write d buf offs w = (TEE_SUCCESS, w') \<and>
           file_at w' d name (write_at f offs buf) \<and> next_fd w' = next_fd w"
  using assms
  by (simp add: tee_fs_rpc_write_def file_at_def file_at_next_outcome fd_file_def Let_def)

lemma file_at_encrypt_and_write:
  assumes "file_at w d name f" "fd fdp = d"
  shows "\<exists>w'. encrypt_and_write_file cfg fdp t offs pt k w = (TEE_SUCCESS, w') \<and>
           file_at w' d name (write_at f offs (km_encrypt cfg t pt k)) \<and> next_fd w' = next_fd w"
  using assms file_at_rpc_write[OF assms(1), of "km_encrypt cfg t pt k" offs]
  by (simp add: encrypt_and_write_file_def Let_def file_at_malloc[OF assms(1)]
      file_at_encrypt[OF assms(1)])

lemma file_at_write_block:
  assumes "file_at w d name f" "fd fdp = d"
  shows "\<exists>w'. write_block cfg fdp n data nm w =
                 (TEE_SUCCESS, toggle_backup_version_of_block nm n, w') \<and>
           file_at w' d name (write_at f (block_pos_raw cfg nm n False)
              (km_encrypt cfg BLOCK_FILE data (encrypted_fek nm))) \<and> next_fd w' = next_fd w"
proof -
  from file_at_encrypt_and_write[OF assms, of cfg BLOCK_FILE "block_pos_raw cfg nm n False"
      data "encrypted_fek nm"]
  obtain w' where "encrypt_and_write_file cfg fdp BLOCK_FILE (block_pos_raw cfg nm n False) data
       (encrypted_fek nm) w = (TEE_SUCCESS, w')"
    and "file_at w' d name (write_at f (block_pos_raw cfg nm n False)
              (km_encrypt cfg BLOCK_FILE data (encrypted_fek nm)))" "next_fd w' = next_fd w"
    by blast
  then show ?thesis by (simp add: write_block_def Let_def)
qed

lemma file_at_read_block_stored:
  assumes ok: "cfg_ok cfg" and fa: "file_at w d name f" "fd fdp = d"
    and st: "stored cfg f m K C" and n: "n < K" and b: "length blk = BLOCK_SIZE"
    and ag: "get_backup_version_of_block (meta fdp) n = get_backup_version_of_block m n"
      "encrypted_fek (meta fdp) = encrypted_fek m"
  shows "read_block cfg fdp (int n) blk w = (TEE_SUCCESS, C n, w)"
proof -
  have c: "length (C n) = BLOCK_SIZE"
     "read_at f (block_pos_raw cfg (meta fdp) n True) (block_size_raw cfg)
          = km_encrypt cfg BLOCK_FILE (C n) (encrypted_fek (meta fdp))"
    using st n ag by (simp_all add: stored_def block_pos_raw_eq)
  have len: "length (km_encrypt cfg BLOCK_FILE (C n) (encrypted_fek (meta fdp))) \<noteq> 0"
    using ok c(1) by (simp add: cfg_ok_def BLOCK_SIZE_def)
  have "map_option fst (km_decrypt cfg BLOCK_FILE
          (km_encrypt cfg BLOCK_FILE (C n) (encrypted_fek (meta fdp)))
          (encrypted_fek (meta fdp))) = Some (C n)"
    using ok by (simp add: cfg_ok_def)
  then obtain k' where dec: "km_decrypt cfg BLOCK_FILE
          (km_encrypt cfg BLOCK_FILE (C n) (encrypted_fek (meta fdp)))
          (encrypted_fek (meta fdp)) = Some (C n, k')"
    by (cases "km_decrypt cfg BLOCK_FILE
          (km_encrypt cfg BLOCK_FILE (C n) (encrypted_fek (meta fdp)))
          (encrypted_fek (meta fdp))") auto
  have ts: "to_size_t (int n) = n"
    using st n ok
    by (intro trans[OF to_size_t_id])
      (simp_all add: stored_def cfg_ok_def MAX_FILE_SIZE_def BLOCK_SIZE_def BLOCK_SHIFT_def)
  show ?thesis
    unfolding read_block_def Let_def ts
    using file_at_malloc[OF fa(1)] file_at_rpc_read[OF fa(1)] fa(2) c len
      file_at_decrypt[OF fa(1) dec] b
    by (simp add: fill_buf_same_length)
qed

lemma file_at_read_block_fresh:
  assumes ok: "cfg_ok cfg" and fa: "file_at w d name f" "fd fdp = d"
    and st: "stored cfg f m K C" and n: "K \<le> n" "n < NUM_BLOCKS_PER_FILE cfg"
    and ag: "get_backup_version_of_block (meta fdp) n = get_backup_version_of_block m n"
  shows "read_block cfg fdp (int n) blk w = (TEE_SUCCESS, replicate BLOCK_SIZE 0, w)"
proof -
  have g: "get_backup_version_of_block (meta fdp) n" using st n ag by (simp add: stored_def)
  have "length f \<le> 4 + meta_size cfg * 2 + 2 * K * block_size_raw cfg"
    using st by (simp add: stored_def)
  also have "\<dots> \<le> 4 + meta_size cfg * 2 + (2 * n + 1) * block_size_raw cfg"
  proof -
    have "K * block_size_raw cfg \<le> n * block_size_raw cfg" using n(1) by (rule mult_le_mono1)
    then have "2 * (K * block_size_raw cfg) \<le> 2 * (n * block_size_raw cfg) + block_size_raw cfg"
      by linarith
    then show ?thesis by (simp only: add_mult_distrib mult.assoc mult_1 add_le_cancel_left)
  qed
  finally have "length f \<le> block_pos_raw cfg (meta fdp) n True"
    using g by (simp add: block_pos_raw_eq)
  then have r: "read_at f (block_pos_raw cfg (meta fdp) n True) (block_size_raw cfg) = []"
    by (rule read_at_beyond)
  have ts: "to_size_t (int n) = n"
    using n ok
    by (intro trans[OF to_size_t_id])
      (simp_all add: cfg_ok_def MAX_FILE_SIZE_def BLOCK_SIZE_def BLOCK_SHIFT_def)
  show ?thesis
    unfolding read_block_def Let_def ts
    using file_at_malloc[OF fa(1)] file_at_rpc_read[OF fa(1)] fa(2) r
    by simp
qed

lemma block_index_ok:
  assumes "cfg_ok cfg" "n < NUM_BLOCKS_PER_FILE cfg"
  shows "n div 32 < NUM_BLOCKS_PER_FILE cfg div 32"
proof -
  have "NUM_BLOCKS_PER_FILE cfg mod 32 = 0" using assms(1) by (simp add: cfg_ok_def)
  then have "NUM_BLOCKS_PER_FILE cfg = NUM_BLOCKS_PER_FILE cfg div 32 * 32"
    using div_mult_mod_eq[of "NUM_BLOCKS_PER_FILE cfg" 32] by simp
  then have "n < NUM_BLOCKS_PER_FILE cfg div 32 * 32" using assms(2) by simp
  then show ?thesis by (simp add: div_less_iff_less_mult)
qed

lemma slots_apart:
  fixes S :: nat
  assumes "j < j'"
  shows "b + j * S + S \<le> b + j' * S"
proof -
  have "(j + 1) * S \<le> j' * S" using assms by (intro mult_le_mono1) simp
  then show ?thesis by (simp add: add_mult_distrib)
qed

lemma stored_write_block:
  assumes ok: "cfg_ok cfg" and st: "stored cfg f nm K C"
    and s: "s \<le> K" "s < NUM_BLOCKS_PER_FILE cfg" and d: "length d = BLOCK_SIZE"
  shows "stored cfg
           (write_at f (block_pos_raw cfg nm s False)
              (km_encrypt cfg BLOCK_FILE d (encrypted_fek nm)))
           (toggle_backup_version_of_block nm s) (max K (s + 1)) (C(s := d))"
proof -
  let ?S = "block_size_raw cfg"
  let ?base = "4 + meta_size cfg * 2"
  let ?ct = "km_encrypt cfg BLOCK_FILE d (encrypted_fek nm)"
  let ?offs = "block_pos_raw cfg nm s False"
  let ?f' = "write_at f ?offs ?ct"
  let ?nm' = "toggle_backup_version_of_block nm s"
  have lct: "length ?ct = ?S"
    using ok d by (simp add: cfg_ok_def block_size_raw_def)
  have Spos: "0 < ?S" by (simp add: block_size_raw_def BLOCK_SIZE_def)
  have tl: "length (backup_version_table (info nm)) = NUM_BLOCKS_PER_FILE cfg div 32"
    using st by (simp add: stored_def)
  have idx: "s div 32 < length (backup_version_table (info nm))"
    using block_index_ok[OF ok s(2)] tl by simp
  note gt = get_toggle[OF idx]
  have K': "max K (s + 1) \<le> NUM_BLOCKS_PER_FILE cfg"
    using st s by (simp add: stored_def)
  have lenf: "length f \<le> ?base + 2 * K * ?S" using st by (simp add: stored_def)
  have a: "\<forall>n<max K (s + 1). length ((C(s := d)) n) = BLOCK_SIZE \<and>
        read_at ?f' (block_pos_raw cfg ?nm' n True) ?S
          = km_encrypt cfg BLOCK_FILE ((C(s := d)) n) (encrypted_fek ?nm')"
  proof (intro allI impI)
    fix n assume n: "n < max K (s + 1)"
    show "length ((C(s := d)) n) = BLOCK_SIZE \<and>
        read_at ?f' (block_pos_raw cfg ?nm' n True) ?S
          = km_encrypt cfg BLOCK_FILE ((C(s := d)) n) (encrypted_fek ?nm')"
    proof (cases "n = s")
      case True
      have "block_pos_raw cfg ?nm' s True = ?offs"
        by (simp add: block_pos_raw_eq gt)
      then show ?thesis
        using True d read_at_write_at_same[of f ?offs ?ct] lct
        by (simp add: toggle_fields)
    next
      case False
      then have nK: "n < K" using n s(1) by auto
      have c: "length (C n) = BLOCK_SIZE"
        "read_at f (block_pos_raw cfg nm n True) ?S
          = km_encrypt cfg BLOCK_FILE (C n) (encrypted_fek nm)"
        using st nK by (simp_all add: stored_def)
      have "length (read_at f (block_pos_raw cfg nm n True) ?S) = ?S"
        using c ok by (simp add: cfg_ok_def block_size_raw_def)
      then have inside: "block_pos_raw cfg nm n True + ?S \<le> length f"
        using Spos by (simp add: length_read_at min_def split: if_splits)
      define j where "j = 2 * n + (if True = get_backup_version_of_block nm n then 1 else 0)"
      define j' where "j' = 2 * s + (if False = get_backup_version_of_block nm s then 1 else 0)"
      have pj: "block_pos_raw cfg nm n True = ?base + j * ?S" "?offs = ?base + j' * ?S"
        by (simp_all add: block_pos_raw_eq j_def j'_def)
      have "j \<noteq> j'" using False unfolding j_def j'_def by (auto split: if_splits)
      then have "j < j' \<or> j' < j" by auto
      then have apart: "block_pos_raw cfg nm n True + ?S \<le> ?offs \<or>
                        ?offs + length ?ct \<le> block_pos_raw cfg nm n True"
        unfolding pj lct using slots_apart[of j j' ?base ?S] slots_apart[of j' j ?base ?S]
        by auto
      have same: "block_pos_raw cfg ?nm' n True = block_pos_raw cfg nm n True"
        using False by (simp add: block_pos_raw_eq gt)
      show ?thesis
        using False c read_at_write_at_other[OF apart inside] same
        by (simp add: toggle_fields)
    qed
  qed
  have b: "\<forall>n. max K (s + 1) \<le> n \<and> n < NUM_BLOCKS_PER_FILE cfg \<longrightarrow>
       get_backup_version_of_block ?nm' n"
    using st by (auto simp: stored_def gt)
  have c: "length ?f' \<le> ?base + 2 * max K (s + 1) * ?S"
  proof -
    have "K \<le> max K (s + 1)" by (rule max.cobounded1)
    then have "2 * K \<le> 2 * max K (s + 1)" by (rule mult_le_mono2)
    then have "(2 * K) * ?S \<le> (2 * max K (s + 1)) * ?S" by (rule mult_le_mono1)
    then have 1: "?base + 2 * K * ?S \<le> ?base + 2 * max K (s + 1) * ?S" by simp
    have "?offs + ?S \<le> ?base + (2 * s + 1) * ?S + ?S"
      by (simp add: block_pos_raw_eq)
    also have "\<dots> = ?base + (2 * (s + 1)) * ?S" by (simp add: add_mult_distrib)
    also have "\<dots> \<le> ?base + 2 * max K (s + 1) * ?S"
    proof -
      have "s + 1 \<le> max K (s + 1)" by (rule max.cobounded2)
      then have "2 * (s + 1) \<le> 2 * max K (s + 1)" by (rule mult_le_mono2)
      then have "(2 * (s + 1)) * ?S \<le> (2 * max K (s + 1)) * ?S" by (rule mult_le_mono1)
      then show ?thesis by simp
    qed
    finally have 2: "?offs + ?S \<le> ?base + 2 * max K (s + 1) * ?S" .
    have "length f \<le> ?base + 2 * max K (s + 1) * ?S" using lenf 1 by (rule order_trans)
    then show ?thesis using 2 by (simp add: length_write_at lct)
  qed
  show ?thesis
    unfolding stored_def using K' tl a b c by (simp add: toggle_fields)
qed

lemma stored_cong:
  assumes "stored cfg f m K C"
    "backup_version_table (info m') = backup_version_table (info m)"
    "encrypted_fek m' = encrypted_fek m"
  shows "stored cfg f m' K C"
  using assms
  by (simp add: stored_def block_pos_raw_eq get_bit)

lemma to_size_t_nat: "n < 4294967296 \<Longrightarrow> to_size_t (int n) = n"
  by (simp add: to_size_t_id)

lemma smod_nat: "int P smod int BLOCK_SIZE = int (P mod BLOCK_SIZE)"
  by (cases "P = 0") (simp_all add: signed_modulo_int_def zmod_int)

lemma block_off_small: "P mod BLOCK_SIZE < 256"
  by (simp add: BLOCK_SIZE_def BLOCK_SHIFT_def)

lemma oopw_size_nat:
  assumes "pos fdp = int P"
  shows "oopw_size fdp rem = min rem (BLOCK_SIZE - P mod BLOCK_SIZE)"
proof -
  let ?off = "P mod BLOCK_SIZE"
  have B: "BLOCK_SIZE = 256" by (simp add: BLOCK_SIZE_def BLOCK_SHIFT_def)
  have o: "?off < 256" by (rule block_off_small)
  have ti: "to_int (int ?off) = int ?off" using o by (intro to_int_id) simp_all
  have "min rem BLOCK_SIZE \<le> 256" using B by simp
  then have "min rem BLOCK_SIZE + ?off < 4294967296" using o by linarith
  then have "to_size_t (int (min rem BLOCK_SIZE + ?off)) = min rem BLOCK_SIZE + ?off"
    by (rule to_size_t_nat)
  then have t1: "to_size_t (int (min rem BLOCK_SIZE) + int ?off) = min rem BLOCK_SIZE + ?off"
    by simp
  have "to_size_t (int (BLOCK_SIZE - ?off)) = BLOCK_SIZE - ?off"
    using B by (intro to_size_t_nat) simp
  then have t2: "to_size_t (int BLOCK_SIZE - int ?off) = BLOCK_SIZE - ?off"
    using o B by (simp add: of_nat_diff)
  have ar: "(if 256 < min rem 256 + x then 256 - x else min rem 256) = min rem (256 - x)"
    if "x < 256" for x :: nat
    using that by (auto simp: min_def)
  show ?thesis
    unfolding oopw_size_def assms smod_nat ti t1 t2 unfolding B using ar[OF o[unfolded B]] .
qed

lemma oopw_block_nat:
  assumes "pos fdp = int P"
  shows "oopw_block fdp sz dp TEE_SUCCESS b1 =
           patch b1 (P mod BLOCK_SIZE)
             (case dp of Some d \<Rightarrow> take sz d | None \<Rightarrow> replicate sz 0)"
proof -
  have ti: "to_int (int (P mod BLOCK_SIZE)) = int (P mod BLOCK_SIZE)"
    using block_off_small[of P] by (intro to_int_id) simp_all
  show ?thesis
    unfolding oopw_block_def Let_def assms smod_nat ti by (simp split: option.splits)
qed

lemma length_patch: "off + length c \<le> length b \<Longrightarrow> length (patch b off c) = length b"
  by (simp add: patch_def)

lemma patch_chunk: "off \<le> length b \<Longrightarrow> take (length c) (drop off (patch b off c)) = c"
  by (simp add: patch_def)

lemma pos_to_block_num_nat:
  assumes "P < 2147483648"
  shows "pos_to_block_num (int P) = int (P div BLOCK_SIZE)"
proof -
  have "to_int (int P) = int P" using assms by (intro to_int_id) simp_all
  then show ?thesis
    by (simp add: pos_to_block_num_def BLOCK_SIZE_def zdiv_int)
qed

text \<open>One round of the loop of \<open>out_of_place_write\<close>.\<close>

lemma oopw_round_ok:
  assumes ok: "cfg_ok cfg" and fa: "file_at w d name f" "fd fdp = d"
    and st: "stored cfg f nm K C"
    and fek: "encrypted_fek (meta fdp) = encrypted_fek nm"
    and ag: "get_backup_version_of_block (meta fdp) s = get_backup_version_of_block nm s"
    and s: "s \<le> K" "s < NUM_BLOCKS_PER_FILE cfg"
    and blk: "length blk = BLOCK_SIZE"
    and c: "off + length chunk \<le> BLOCK_SIZE"
  shows "\<exists>b1 w2 f2.
           read_block cfg fdp (int s) blk w = (TEE_SUCCESS, b1, w) \<and>
           write_block cfg fdp s (patch b1 off chunk) nm w
             = (TEE_SUCCESS, toggle_backup_version_of_block nm s, w2) \<and>
           file_at w2 d name f2 \<and> next_fd w2 = next_fd w \<and>
           stored cfg f2 (toggle_backup_version_of_block nm s) (max K (s + 1))
             (C(s := patch b1 off chunk)) \<and>
           length (patch b1 off chunk) = BLOCK_SIZE \<and>
           take (length chunk) (drop off (patch b1 off chunk)) = chunk \<and>
           (4 \<le> length f \<longrightarrow> 4 \<le> length f2 \<and> take 4 f2 = take 4 f)"
proof -
  define b1 where "b1 = (if s < K then C s else replicate BLOCK_SIZE 0)"
  have rb: "read_block cfg fdp (int s) blk w = (TEE_SUCCESS, b1, w)"
  proof (cases "s < K")
    case True
    then show ?thesis
      using file_at_read_block_stored[OF ok fa st True blk ag fek] by (simp add: b1_def)
  next
    case False
    then have "K \<le> s" by simp
    then show ?thesis
      using file_at_read_block_fresh[OF ok fa st _ s(2) ag] False by (simp add: b1_def)
  qed
  have lb1: "length b1 = BLOCK_SIZE" using st by (simp add: b1_def stored_def)
  let ?b3 = "patch b1 off chunk"
  have lb3: "length ?b3 = BLOCK_SIZE" using c lb1 by (simp add: length_patch)
  have ch: "take (length chunk) (drop off ?b3) = chunk" using c lb1 by (intro patch_chunk) simp
  from file_at_write_block[OF fa, of cfg s ?b3 nm]
  obtain w2 where wb: "write_block cfg fdp s ?b3 nm w
             = (TEE_SUCCESS, toggle_backup_version_of_block nm s, w2)"
    and fa2: "file_at w2 d name (write_at f (block_pos_raw cfg nm s False)
              (km_encrypt cfg BLOCK_FILE ?b3 (encrypted_fek nm)))" "next_fd w2 = next_fd w"
    by blast
  let ?f2 = "write_at f (block_pos_raw cfg nm s False)
              (km_encrypt cfg BLOCK_FILE ?b3 (encrypted_fek nm))"
  have st2: "stored cfg ?f2 (toggle_backup_version_of_block nm s) (max K (s + 1)) (C(s := ?b3))"
    using stored_write_block[OF ok st s lb3] .
  have "4 \<le> block_pos_raw cfg nm s False" by (simp add: block_pos_raw_eq)
  then have t4: "4 \<le> length f \<longrightarrow> 4 \<le> length ?f2 \<and> take 4 ?f2 = take 4 f"
    by (simp add: length_write_at take_write_at_high le_max_iff_disj)
  show ?thesis using rb wb fa2 st2 lb3 ch t4 by blast
qed

subsection \<open>The range write, when the host refuses nothing\<close>

lemma BLOCK_SIZE_256: "BLOCK_SIZE = 256"
  by (simp add: BLOCK_SIZE_def BLOCK_SHIFT_def)

lemma chunk_arith:
  fixes P rem :: nat
  assumes r: "0 < rem"
  defines "s \<equiv> P div 256" and "e \<equiv> (P + rem - 1) div 256"
    and "sz \<equiv> min rem (256 - P mod 256)"
  shows "0 < sz" "P mod 256 + sz \<le> 256" "s \<le> e" "sz \<le> rem"
    "s = e \<Longrightarrow> sz = rem"
    "s < e \<Longrightarrow> sz < rem \<and> P + sz = 256 * (s + 1)"
    "256 * s \<le> P" "P + sz \<le> 256 * (s + 1)"
proof -
  define off where "off = P mod 256"
  have P: "P = 256 * s + off" unfolding s_def off_def by simp
  have o: "off < 256" unfolding off_def by simp
  have szd: "sz = min rem (256 - off)" unfolding sz_def off_def by simp
  show "0 < sz" using r o unfolding szd by simp
  show "P mod 256 + sz \<le> 256" unfolding sz_def by simp
  show "sz \<le> rem" unfolding sz_def by simp
  show "s \<le> e" unfolding s_def e_def using r by (intro div_le_mono) simp
  show "256 * s \<le> P" using P by simp
  show "P + sz \<le> 256 * (s + 1)" using P o unfolding szd by simp
  {
    assume "s = e"
    then have "(P + rem - 1) div 256 = s" by (simp add: e_def)
    then have "P + rem - 1 < 256 * (s + 1)"
      using div_less_iff_less_mult[of 256 "P + rem - 1" "s + 1"] by simp
    then have "rem \<le> 256 - off" using P r o by simp
    then show "sz = rem" unfolding szd by simp
  }
  {
    assume "s < e"
    then have "s + 1 \<le> (P + rem - 1) div 256" by (simp add: e_def)
    then have "256 * (s + 1) \<le> P + rem - 1"
      using less_eq_div_iff_mult_less_eq[of 256 "s + 1" "P + rem - 1"] by (simp add: mult.commute)
    then have "256 - off < rem" using P r o by simp
    then have a: "sz = 256 - off" "sz < rem" unfolding szd by simp_all
    have "P + sz = 256 * (s + 1)" using P a(1) o by simp
    then show "sz < rem \<and> P + sz = 256 * (s + 1)" using a by simp
  }
qed

lemma holds_data_first:
  assumes "256 * s \<le> P" "P + sz \<le> 256 * (s + 1)" "sz \<le> r"
    "sz = r \<or> P + sz = 256 * (s + 1)"
    "take sz (drop (P - 256 * s) (C s)) = take sz d"
  shows "holds_data C P r d s s"
proof -
  have hi: "min (P + r) (256 * (s + 1)) = P + sz" using assms(2,3,4) by auto
  have lo: "max P (256 * s) = P" using assms(1) by simp
  show ?thesis
    unfolding holds_data_def Let_def BLOCK_SIZE_256
    using assms(5) hi lo by auto
qed

lemma holds_data_step:
  assumes f: "holds_data C P r d s s"
    and n: "holds_data C (P + sz) (r - sz) (drop sz d) (s + 1) e"
    and a: "sz \<le> r" "P + sz = 256 * (s + 1)"
  shows "holds_data C P r d s e"
  unfolding holds_data_def
proof (intro allI impI)
  fix n assume h: "s \<le> n \<and> n \<le> e"
  show "let lo = max P (BLOCK_SIZE * n); hi = min (P + r) (BLOCK_SIZE * (n + 1))
        in take (hi - lo) (drop (lo - BLOCK_SIZE * n) (C n)) = take (hi - lo) (drop (lo - P) d)"
  proof (cases "n = s")
    case True
    then show ?thesis using f unfolding holds_data_def by simp
  next
    case False
    then have n1: "s + 1 \<le> n" using h by simp
    then have "256 * (s + 1) \<le> 256 * n" by simp
    then have ge: "P + sz \<le> 256 * n" using a(2) by simp
    have lo1: "max (P + sz) (256 * n) = 256 * n" using ge by simp
    have lo2: "max P (256 * n) = 256 * n" using ge by simp
    have pr: "P + sz + (r - sz) = P + r" using a(1) by simp
    have dd: "drop (256 * n - (P + sz)) (drop sz d) = drop (256 * n - P) d"
      using ge by (simp add: add.commute)
    from n have "let lo = max (P + sz) (BLOCK_SIZE * n);
                     hi = min (P + sz + (r - sz)) (BLOCK_SIZE * (n + 1))
        in take (hi - lo) (drop (lo - BLOCK_SIZE * n) (C n))
           = take (hi - lo) (drop (lo - (P + sz)) (drop sz d))"
      unfolding holds_data_def using n1 h by blast
    then show ?thesis
      unfolding Let_def BLOCK_SIZE_256 lo1 lo2 pr dd .
  qed
qed

lemma cfg_ok_blocks:
  assumes "cfg_ok cfg" "n \<le> NUM_BLOCKS_PER_FILE cfg"
  shows "256 * n < 2147483648"
proof -
  have "int (256 * NUM_BLOCKS_PER_FILE cfg) < 2147483648"
    using assms(1) by (simp add: cfg_ok_def MAX_FILE_SIZE_def BLOCK_SIZE_256)
  then have "256 * NUM_BLOCKS_PER_FILE cfg < 2147483648" by linarith
  moreover have "256 * n \<le> 256 * NUM_BLOCKS_PER_FILE cfg" using assms(2) by simp
  ultimately show ?thesis by (rule le_less_trans[rotated])
qed

lemma holds_data_one:
  assumes "holds_data C P r d s s" "C' s = C s"
  shows "holds_data C' P r d s s"
  unfolding holds_data_def
proof (intro allI impI)
  fix n assume "s \<le> n \<and> n \<le> s"
  then have n: "n = s" by simp
  show "let lo = max P (BLOCK_SIZE * n); hi = min (P + r) (BLOCK_SIZE * (n + 1))
        in take (hi - lo) (drop (lo - BLOCK_SIZE * n) (C' n)) = take (hi - lo) (drop (lo - P) d)"
    using assms(1)[unfolded holds_data_def, rule_format, of s] unfolding n assms(2) by simp
qed

lemma oopw_loop_ok:
  assumes ok: "cfg_ok cfg"
  shows "\<lbrakk> file_at w d name f; fd fdp = d; pos fdp = int P;
           stored cfg f nm K C;
           encrypted_fek (meta fdp) = encrypted_fek nm;
           \<forall>n\<ge>s. get_backup_version_of_block (meta fdp) n = get_backup_version_of_block nm n;
           s = P div 256; s \<le> K; 0 < rem; e = (P + rem - 1) div 256;
           e < NUM_BLOCKS_PER_FILE cfg; length blk = BLOCK_SIZE;
           \<forall>dd. dp = Some dd \<longrightarrow> length dd = rem \<rbrakk>
    \<Longrightarrow> \<exists>nm' w'.
          oopw_loop cfg fdp (int s) (int e) rem dp blk nm res w
            = (TEE_SUCCESS, fdp\<lparr> pos := int (P + rem) \<rparr>, nm', w') \<and>
          oopw_post cfg d name f w nm K C P rem dp s e nm' w'"
proof (induction "e - s" arbitrary: fdp P rem dp blk nm res w f K C s rule: less_induct)
  case less
  note fa = less.prems(1,2) and pp = less.prems(3) and st = less.prems(4)
    and fek = less.prems(5) and ag = less.prems(6) and sd = less.prems(7) and sK = less.prems(8)
    and r0 = less.prems(9) and ed = less.prems(10) and eN = less.prems(11)
    and lb = less.prems(12) and ld = less.prems(13)
  define sz where "sz = min rem (256 - P mod 256)"
  define off where "off = P mod 256"
  define chunk where "chunk = (case dp of Some d \<Rightarrow> take sz d | None \<Rightarrow> replicate sz 0)"
  note ar = chunk_arith[OF r0, of P, folded sz_def sd ed]
  have se: "s \<le> e" by (rule ar(3))
  have sN: "s < NUM_BLOCKS_PER_FILE cfg" using se eN by simp
  have lch: "length chunk = sz"
    using ld ar(4) by (cases dp) (simp_all add: chunk_def)
  have c: "off + length chunk \<le> BLOCK_SIZE"
    using ar(2) by (simp add: off_def lch BLOCK_SIZE_256)
  have szo: "oopw_size fdp rem = sz"
    using oopw_size_nat[OF pp, of rem] by (simp add: sz_def BLOCK_SIZE_256)
  from oopw_round_ok[OF ok fa st fek ag[rule_format, of s, simplified] sK sN lb c]
  obtain b1 w2 f2 where
    rb: "read_block cfg fdp (int s) blk w = (TEE_SUCCESS, b1, w)" and
    wb: "write_block cfg fdp s (patch b1 off chunk) nm w
             = (TEE_SUCCESS, toggle_backup_version_of_block nm s, w2)" and
    fa2: "file_at w2 d name f2" "next_fd w2 = next_fd w" and
    st2: "stored cfg f2 (toggle_backup_version_of_block nm s) (max K (s + 1))
             (C(s := patch b1 off chunk))" and
    lb3: "length (patch b1 off chunk) = BLOCK_SIZE" and
    ch: "take (length chunk) (drop off (patch b1 off chunk)) = chunk" and
    t4: "4 \<le> length f \<longrightarrow> 4 \<le> length f2 \<and> take 4 f2 = take 4 f"
    by blast
  let ?b3 = "patch b1 off chunk"
  let ?nm1 = "toggle_backup_version_of_block nm s"
  let ?C1 = "C(s := ?b3)"
  have b3o: "oopw_block fdp sz dp TEE_SUCCESS b1 = ?b3"
    using oopw_block_nat[OF pp, of sz dp b1] by (simp add: off_def chunk_def BLOCK_SIZE_256)
  have s32: "256 * s < 2147483648" using cfg_ok_blocks[OF ok, of s] sN by simp
  have tss: "to_size_t (int s) = s" using s32 by (intro to_size_t_nat) simp
  have e1: "256 * (e + 1) < 2147483648" using cfg_ok_blocks[OF ok, of "e + 1"] eN by simp
  have "P + rem - 1 < 256 * (e + 1)"
    using div_less_iff_less_mult[of 256 "P + rem - 1" "e + 1"] ed by simp
  then have prb: "P + rem < 2147483648" using e1 r0 by simp
  have trs: "to_size_t (int rem - int sz) = rem - sz"
  proof -
    have "to_size_t (int (rem - sz)) = rem - sz" using prb by (intro to_size_t_nat) simp
    then show ?thesis using ar(4) by (simp add: of_nat_diff)
  qed
  have step0: "oopw_loop cfg fdp (int s) (int e) rem dp blk nm res w =
      oopw_loop cfg (fdp\<lparr> pos := pos fdp + int sz \<rparr>) (int s + 1) (int e) (rem - sz)
        (map_option (drop sz) dp) ?b3 ?nm1 TEE_SUCCESS w2"
  proof -
    have "int s \<le> int e" using se by simp
    from oopw_loop_step[OF this, of cfg fdp rem dp blk nm res w] show ?thesis
      unfolding rb prod.case szo b3o tss wb trs by simp
  qed
  have eqs: "int s + 1 = int (s + 1)" "pos fdp + int sz = int (P + sz)"
    by (simp_all add: pp)
  note step = step0[unfolded eqs]
  have first: "\<forall>dd. dp = Some dd \<longrightarrow> holds_data ?C1 P rem dd s s"
  proof (intro allI impI)
    fix dd assume dd: "dp = Some dd"
    have "take sz (drop (P - 256 * s) (?C1 s)) = take sz dd"
    proof -
      have "P - 256 * s = off" unfolding off_def sd by (simp add: minus_mult_div_eq_mod)
      moreover have "chunk = take sz dd" using dd by (simp add: chunk_def)
      ultimately show ?thesis using ch[unfolded lch] by simp
    qed
    moreover have "sz = rem \<or> P + sz = 256 * (s + 1)"
      using ar(5) ar(6) se by (cases "s = e") auto
    ultimately show "holds_data ?C1 P rem dd s s"
      using holds_data_first[OF ar(7) ar(8) ar(4)] by blast
  qed
  show ?case
  proof (cases "s = e")
    case True
    then have szr: "sz = rem" using ar(5) by simp
    let ?nm' = "(if int (P + rem) > uint (length_f (info ?nm1))
          then ?nm1\<lparr> info := (info ?nm1)\<lparr> length_f := word_of_int (int (P + rem)) \<rparr> \<rparr>
          else ?nm1)"
    have res: "oopw_loop cfg fdp (int s) (int e) rem dp blk nm res w
         = (TEE_SUCCESS, fdp\<lparr> pos := int (P + rem) \<rparr>, ?nm', w2)"
      unfolding step using True szr by (simp add: oopw_loop_stop)
    have st2e: "stored cfg f2 ?nm1 (max K (e + 1)) ?C1" using st2 True by simp
    have stn: "stored cfg f2 ?nm' (max K (e + 1)) ?C1"
      by (rule stored_cong[OF st2e]) simp_all
    have post: "oopw_post cfg d name f w nm K C P rem dp s e ?nm' w2"
      unfolding oopw_post_def
      apply (rule exI[of _ f2], rule exI[of _ ?C1])
      using fa2 stn first t4 True by (simp add: toggle_fields)
    show ?thesis using res post by blast
  next
    case False
    then have lt: "s < e" using se by simp
    then have a6: "sz < rem" "P + sz = 256 * (s + 1)" using ar(6) by simp_all
    let ?fdp1 = "fdp\<lparr> pos := int (P + sz) \<rparr>"
    have idx: "s div 32 < length (backup_version_table (info nm))"
      using block_index_ok[OF ok sN] st by (simp add: stored_def)
    have ag1: "\<forall>n\<ge>s + 1. get_backup_version_of_block (meta ?fdp1) n
                 = get_backup_version_of_block ?nm1 n"
      using ag by (simp add: get_toggle[OF idx])
    have ld1: "\<forall>dd. map_option (drop sz) dp = Some dd \<longrightarrow> length dd = rem - sz"
      using ld by (cases dp) auto
    have less1: "e - (s + 1) < e - s" using lt by simp
    have sd1: "s + 1 = (P + sz) div 256" using a6(2) by simp
    have ed1: "e = (P + sz + (rem - sz) - 1) div 256" using ed a6(1) by simp
    have "\<exists>nm' w'.
          oopw_loop cfg ?fdp1 (int (s + 1)) (int e) (rem - sz) (map_option (drop sz) dp)
              ?b3 ?nm1 TEE_SUCCESS w2
            = (TEE_SUCCESS, ?fdp1\<lparr> pos := int (P + sz + (rem - sz)) \<rparr>, nm', w') \<and>
          oopw_post cfg d name f2 w2 ?nm1 (max K (s + 1)) ?C1 (P + sz) (rem - sz)
                 (map_option (drop sz) dp) (s + 1) e nm' w'"
    proof (rule less.hyps[where s = "s + 1" and P = "P + sz" and K = "max K (s + 1)"])
      show "e - (s + 1) < e - s" by (rule less1)
      show "file_at w2 d name f2" by (rule fa2(1))
      show "fd ?fdp1 = d" using fa(2) by simp
      show "pos ?fdp1 = int (P + sz)" by simp
      show "stored cfg f2 ?nm1 (max K (s + 1)) ?C1" by (rule st2)
      show "encrypted_fek (meta ?fdp1) = encrypted_fek ?nm1" using fek by (simp add: toggle_fields)
      show "\<forall>n\<ge>s + 1. get_backup_version_of_block (meta ?fdp1) n
                 = get_backup_version_of_block ?nm1 n" by (rule ag1)
      show "s + 1 = (P + sz) div 256" by (rule sd1)
      show "s + 1 \<le> max K (s + 1)" by simp
      show "0 < rem - sz" using a6(1) by simp
      show "e = (P + sz + (rem - sz) - 1) div 256" by (rule ed1)
      show "e < NUM_BLOCKS_PER_FILE cfg" by (rule eN)
      show "length ?b3 = BLOCK_SIZE" by (rule lb3)
      show "\<forall>dd. map_option (drop sz) dp = Some dd \<longrightarrow> length dd = rem - sz" by (rule ld1)
    qed
    then obtain nm' w' where
      rec: "oopw_loop cfg ?fdp1 (int (s + 1)) (int e) (rem - sz) (map_option (drop sz) dp)
              ?b3 ?nm1 TEE_SUCCESS w2
            = (TEE_SUCCESS, ?fdp1\<lparr> pos := int (P + sz + (rem - sz)) \<rparr>, nm', w')"
      and po: "oopw_post cfg d name f2 w2 ?nm1 (max K (s + 1)) ?C1 (P + sz) (rem - sz)
                 (map_option (drop sz) dp) (s + 1) e nm' w'"
      by blast
    have prs: "P + sz + (rem - sz) = P + rem" using a6(1) by simp
    have res: "oopw_loop cfg fdp (int s) (int e) rem dp blk nm res w
         = (TEE_SUCCESS, fdp\<lparr> pos := int (P + rem) \<rparr>, nm', w')"
      unfolding step rec prs by simp
    from po obtain f' C' where
      q: "file_at w' d name f'" "next_fd w' = next_fd w2"
        "stored cfg f' nm' (max (max K (s + 1)) (e + 1)) C'"
        "encrypted_fek nm' = encrypted_fek ?nm1"
        "length_f (info nm') =
          (if int (P + sz + (rem - sz)) > uint (length_f (info ?nm1))
           then word_of_int (int (P + sz + (rem - sz))) else length_f (info ?nm1))"
        "\<forall>n. n < s + 1 \<longrightarrow> C' n = ?C1 n"
        "\<forall>dd. map_option (drop sz) dp = Some dd \<longrightarrow>
              holds_data C' (P + sz) (rem - sz) dd (s + 1) e"
        "4 \<le> length f2 \<longrightarrow> 4 \<le> length f' \<and> take 4 f' = take 4 f2"
      unfolding oopw_post_def by blast
    have mx: "max (max K (s + 1)) (e + 1) = max K (e + 1)" using lt by simp
    have cs: "C' s = ?b3" using q(6) by simp
    have cb: "\<forall>n. n < s \<longrightarrow> C' n = C n" using q(6) by simp
    have hd: "\<forall>dd. dp = Some dd \<longrightarrow> holds_data C' P rem dd s e"
    proof (intro allI impI)
      fix dd assume dd: "dp = Some dd"
      have "holds_data ?C1 P rem dd s s" using first dd by blast
      then have 1: "holds_data C' P rem dd s s"
        by (rule holds_data_one) (simp add: cs)
      have 2: "holds_data C' (P + sz) (rem - sz) (drop sz dd) (s + 1) e"
        using q(7) dd by simp
      show "holds_data C' P rem dd s e"
        using holds_data_step[OF 1 2 ar(4) a6(2)] .
    qed
    have post: "oopw_post cfg d name f w nm K C P rem dp s e nm' w'"
      unfolding oopw_post_def
      apply (rule exI[of _ f'], rule exI[of _ C'])
      using q(1,2,3,4,5,8) fa2(2) cb hd t4 unfolding mx prs by (simp add: toggle_fields)
    show ?thesis using res post by blast
  qed
qed

lemma stored_inside:
  assumes ok: "cfg_ok cfg" and st: "stored cfg f m K C" and n: "n < K"
  shows "block_pos_raw cfg m n True + block_size_raw cfg \<le> length f"
proof -
  let ?S = "block_size_raw cfg"
  have c: "length (C n) = BLOCK_SIZE"
        "read_at f (block_pos_raw cfg m n True) ?S
          = km_encrypt cfg BLOCK_FILE (C n) (encrypted_fek m)"
    using st n by (simp_all add: stored_def)
  have Spos: "0 < ?S" by (simp add: block_size_raw_def BLOCK_SIZE_def)
  have "length (read_at f (block_pos_raw cfg m n True) ?S) = ?S"
    using c ok by (simp add: cfg_ok_def block_size_raw_def)
  then show ?thesis using Spos by (simp add: length_read_at min_def split: if_splits)
qed

lemma stored_write_low:
  assumes ok: "cfg_ok cfg" and st: "stored cfg f m K C"
    and lo: "offs + length d \<le> 4 + meta_size cfg * 2"
  shows "stored cfg (write_at f offs d) m K C"
proof -
  let ?S = "block_size_raw cfg"
  have a: "\<forall>n<K. length (C n) = BLOCK_SIZE \<and>
        read_at (write_at f offs d) (block_pos_raw cfg m n True) ?S
          = km_encrypt cfg BLOCK_FILE (C n) (encrypted_fek m)"
  proof (intro allI impI)
    fix n assume n: "n < K"
    have "4 + meta_size cfg * 2 \<le> block_pos_raw cfg m n True" by (simp add: block_pos_raw_eq)
    then have ap: "block_pos_raw cfg m n True + ?S \<le> offs \<or>
                   offs + length d \<le> block_pos_raw cfg m n True" using lo by simp
    show "length (C n) = BLOCK_SIZE \<and>
        read_at (write_at f offs d) (block_pos_raw cfg m n True) ?S
          = km_encrypt cfg BLOCK_FILE (C n) (encrypted_fek m)"
      using read_at_write_at_other[OF ap stored_inside[OF ok st n]] st n
      by (simp add: stored_def)
  qed
  have "length f \<le> 4 + meta_size cfg * 2 + 2 * K * ?S" using st by (simp add: stored_def)
  then have l: "length (write_at f offs d) \<le> 4 + meta_size cfg * 2 + 2 * K * ?S"
    using lo by (simp add: length_write_at)
  have k: "K \<le> NUM_BLOCKS_PER_FILE cfg"
    "length (backup_version_table (info m)) = NUM_BLOCKS_PER_FILE cfg div 32"
    "\<forall>n. K \<le> n \<and> n < NUM_BLOCKS_PER_FILE cfg \<longrightarrow> get_backup_version_of_block m n"
    using st by (simp_all add: stored_def)
  show ?thesis unfolding stored_def using k a l by blast
qed

lemma out_of_place_write_ok:
  assumes ok: "cfg_ok cfg" and fa: "file_at w d name f" "fd fdp = d" and pp: "pos fdp = int P"
    and st: "stored cfg f (meta fdp) K C" and nm: "nm = (meta fdp)\<lparr> info := i \<rparr>"
      "backup_version_table i = backup_version_table (info (meta fdp))"
    and PK: "P div 256 \<le> K" and r: "0 < rem"
    and mx: "int (P + rem) \<le> MAX_FILE_SIZE cfg"
    and ld: "\<forall>dd. dp = Some dd \<longrightarrow> length dd = rem"
  shows "\<exists>nm' w'.
          out_of_place_write cfg fdp dp rem nm w
            = (TEE_SUCCESS, fdp\<lparr> pos := int (P + rem) \<rparr>, nm', w') \<and>
          oopw_post cfg d name f w nm K C P rem dp (P div 256) ((P + rem - 1) div 256) nm' w'"
proof -
  have "int (P + rem) \<le> int (256 * NUM_BLOCKS_PER_FILE cfg)"
    using mx by (simp add: MAX_FILE_SIZE_def BLOCK_SIZE_256)
  then have m: "P + rem \<le> 256 * NUM_BLOCKS_PER_FILE cfg" by (simp only: of_nat_le_iff)
  have big: "256 * NUM_BLOCKS_PER_FILE cfg < 2147483648"
    using cfg_ok_blocks[OF ok, of "NUM_BLOCKS_PER_FILE cfg"] by simp
  have P32: "P < 2147483648" "P + rem - 1 < 2147483648" using m big by simp_all
  have s: "pos_to_block_num (pos fdp) = int (P div 256)"
    unfolding pp using pos_to_block_num_nat[OF P32(1)] by (simp only: BLOCK_SIZE_256)
  have e': "pos fdp + int rem - 1 = int (P + rem - 1)" using r by (simp add: pp of_nat_diff)
  have e: "pos_to_block_num (pos fdp + int rem - 1) = int ((P + rem - 1) div 256)"
    unfolding e' using pos_to_block_num_nat[OF P32(2)] by (simp only: BLOCK_SIZE_256)
  have "P + rem - 1 < NUM_BLOCKS_PER_FILE cfg * 256" using m r by simp
  then have eN: "(P + rem - 1) div 256 < NUM_BLOCKS_PER_FILE cfg"
    by (simp add: div_less_iff_less_mult)
  have stn: "stored cfg f nm K C" by (rule stored_cong[OF st]) (simp_all add: nm)
  have "\<exists>nm' w'.
      oopw_loop cfg fdp (int (P div 256)) (int ((P + rem - 1) div 256)) rem dp
          (replicate BLOCK_SIZE 0) nm TEE_ERROR_GENERIC w
        = (TEE_SUCCESS, fdp\<lparr> pos := int (P + rem) \<rparr>, nm', w') \<and>
      oopw_post cfg d name f w nm K C P rem dp (P div 256) ((P + rem - 1) div 256) nm' w'"
  proof (rule oopw_loop_ok[OF ok fa pp stn _ _ refl PK r refl eN _ ld])
    show "encrypted_fek (meta fdp) = encrypted_fek nm" by (simp add: nm)
    show "\<forall>n\<ge>P div 256. get_backup_version_of_block (meta fdp) n
             = get_backup_version_of_block nm n" by (simp add: nm get_bit)
    show "length (replicate BLOCK_SIZE (0::byte)) = BLOCK_SIZE" by simp
  qed
  then obtain nm' w' where
    l: "oopw_loop cfg fdp (int (P div 256)) (int ((P + rem - 1) div 256)) rem dp
          (replicate BLOCK_SIZE 0) nm TEE_ERROR_GENERIC w
        = (TEE_SUCCESS, fdp\<lparr> pos := int (P + rem) \<rparr>, nm', w')"
    and po: "oopw_post cfg d name f w nm K C P rem dp (P div 256) ((P + rem - 1) div 256) nm' w'"
    by blast
  have "out_of_place_write cfg fdp dp rem nm w
            = (TEE_SUCCESS, fdp\<lparr> pos := int (P + rem) \<rparr>, nm', w')"
    unfolding out_of_place_write_def Let_def s e l by simp
  then show ?thesis using po by blast
qed

subsection \<open>Commit, create and open, when the host refuses nothing\<close>

lemma commit_meta_file_fwd:
  assumes ok: "cfg_ok cfg" and fa: "file_at w d name f" "fd fdp = d"
    and st: "stored cfg f nm K C"
  shows "\<exists>w' f'.
          commit_meta_file cfg fdp nm w
            = (TEE_SUCCESS,
               fdp\<lparr> meta := nm\<lparr> counter := meta_counter fdp + 1 \<rparr>,
                    meta_counter := meta_counter fdp + 1 \<rparr>, w') \<and>
          file_at w' d name f' \<and>
          stored cfg f' (nm\<lparr> counter := meta_counter fdp + 1 \<rparr>) K C \<and>
          committed cfg f' (fdp\<lparr> meta := nm\<lparr> counter := meta_counter fdp + 1 \<rparr>,
                                 meta_counter := meta_counter fdp + 1 \<rparr>)"
proof -
  let ?nm1 = "nm\<lparr> counter := meta_counter fdp + 1 \<rparr>"
  let ?f2 = "fdp\<lparr> meta := ?nm1, meta_counter := meta_counter fdp + 1 \<rparr>"
  let ?ct = "km_encrypt cfg META_FILE (bytes_of_info (info ?nm1)) (encrypted_fek ?nm1)"
  let ?offs = "meta_pos_raw cfg fdp False"
  let ?H = "tee_fs_get_header_size cfg META_FILE"
  have tl: "length (backup_version_table (info nm)) = NUM_BLOCKS_PER_FILE cfg div 32"
    using st by (simp add: stored_def)
  have lct: "length ?ct = sizeof_file_info cfg + ?H"
    using ok tl by (simp add: cfg_ok_def length_bytes_of_info sizeof_file_info_def)
  have "sizeof_file_info cfg \<le> sizeof_file_meta cfg" using ok by (simp add: cfg_ok_def)
  then have fit: "?offs + length ?ct \<le> 4 + meta_size cfg * 2"
    unfolding lct by (simp add: meta_pos_raw_def Let_def meta_size_def)
  have o4: "4 \<le> ?offs" by (simp add: meta_pos_raw_def Let_def)
  from file_at_encrypt_and_write[OF fa, of cfg META_FILE ?offs "bytes_of_info (info ?nm1)"
      "encrypted_fek ?nm1"]
  obtain w1 where
    w1: "encrypt_and_write_file cfg fdp META_FILE ?offs (bytes_of_info (info ?nm1))
           (encrypted_fek ?nm1) w = (TEE_SUCCESS, w1)"
    and fa1: "file_at w1 d name (write_at f ?offs ?ct)"
    by blast
  let ?f1 = "write_at f ?offs ?ct"
  from file_at_rpc_write[OF fa1, of "bytes_of_u32 (meta_counter fdp + 1)" 0]
  obtain w2 where
    w2: "tee_fs_rpc_write d (bytes_of_u32 (meta_counter fdp + 1)) 0 w1 = (TEE_SUCCESS, w2)"
    and fa2: "file_at w2 d name (write_at ?f1 0 (bytes_of_u32 (meta_counter fdp + 1)))"
    by blast
  let ?ff = "write_at ?f1 0 (bytes_of_u32 (meta_counter fdp + 1))"
  have res: "commit_meta_file cfg fdp nm w = (TEE_SUCCESS, ?f2, w2)"
    unfolding commit_meta_file_def Let_def write_meta_file_def write_meta_counter_def
    using w1 w2 fa(2) by simp
  have st0: "stored cfg f ?nm1 K C" by (rule stored_cong[OF st]) simp_all
  have st1: "stored cfg ?f1 ?nm1 K C" using fit by (intro stored_write_low[OF ok st0]) simp
  have st2: "stored cfg ?ff ?nm1 K C" by (intro stored_write_low[OF ok st1]) simp
  have l4: "4 \<le> length ?ff" by (simp add: length_write_at)
  have t4: "take 4 ?ff = bytes_of_u32 (meta_counter fdp + 1)"
    using take_write_at_0[of "bytes_of_u32 (meta_counter fdp + 1)" ?f1] by simp
  have ins: "?offs + (sizeof_file_info cfg + ?H) \<le> length ?f1"
    using lct by (simp add: length_write_at)
  have "read_at ?ff ?offs (sizeof_file_info cfg + ?H) = read_at ?f1 ?offs (sizeof_file_info cfg + ?H)"
    using o4 by (intro read_at_write_at_other[OF _ ins]) simp
  also have "\<dots> = ?ct" using read_at_write_at_same[of f ?offs ?ct] lct by simp
  finally have rd: "read_at ?ff ?offs (sizeof_file_info cfg + ?H) = ?ct" .
  have mp: "meta_pos_raw cfg ?f2 True = ?offs" by (rule meta_pos_raw_next) simp
  have cm: "committed cfg ?ff ?f2"
    unfolding committed_def using l4 t4 rd mp by (simp add: u32_roundtrip)
  show ?thesis using res fa2 st2 cm by blast
qed

lemma sched_empty_calls:
  assumes "sched w = []"
  shows "malloc n w = (True, w)"
    and "tee_fs_generate_fek cfg w
           = (TEE_SUCCESS, Some (km_generate_fek cfg (TEE_FS_KM_FEK_SIZE cfg)), w)"
  using assms
  by (simp_all add: malloc_def tee_fs_generate_fek_def file_at_next_outcome)

lemma rpc_open_fwd:
  assumes "sched w = []" "create \<or> ree_files w fname = Some f0"
  shows "\<exists>w'. tee_fs_rpc_open fname create w = (TEE_SUCCESS, Some (next_fd w), w') \<and>
           file_at w' (next_fd w) fname (if create then [] else f0)"
  using assms
  by (auto simp: tee_fs_rpc_open_def file_at_next_outcome file_at_def)

lemma stored_fresh:
  assumes ok: "cfg_ok cfg"
    and t: "backup_version_table (info m) = replicate (NUM_BLOCKS_PER_FILE cfg div 32) 0xffffffff"
    and l: "length f \<le> 4 + meta_size cfg * 2"
  shows "stored cfg f m 0 C"
proof -
  have "get_backup_version_of_block m n" if "n < NUM_BLOCKS_PER_FILE cfg" for n
    using get_all_ones[OF t block_index_ok[OF ok that]] .
  then show ?thesis unfolding stored_def using t l by simp
qed

lemma ree_fs_create_fwd:
  assumes ok: "cfg_ok cfg" and sc: "sched w = []"
    and nl: "length fname + 1 \<le> TEE_FS_NAME_MAX cfg"
  shows "\<exists>h0 w0 f0.
          ree_fs_create cfg (Some fname) w = (TEE_SUCCESS, Some h0, w0) \<and>
          file_at w0 (fd h0) fname f0 \<and> stored cfg f0 (meta h0) 0 C \<and>
          pos h0 = 0 \<and> length_f (info (meta h0)) = 0 \<and>
          length (encrypted_fek (meta h0)) = TEE_FS_KM_FEK_SIZE cfg"
proof -
  let ?m = "\<lparr> info = \<lparr> length_f = 0,
                     backup_version_table = replicate (NUM_BLOCKS_PER_FILE cfg div 32) 0xffffffff \<rparr>,
               encrypted_fek = km_generate_fek cfg (TEE_FS_KM_FEK_SIZE cfg),
               counter = 0 \<rparr>"
  let ?h = "(new_fd cfg)\<lparr> meta := ?m, fd := next_fd w \<rparr>"
  let ?ct = "km_encrypt cfg META_FILE (bytes_of_info (info ?m)) (encrypted_fek ?m)"
  let ?offs = "meta_pos_raw cfg ?h False"
  from rpc_open_fwd[of w True fname "[]"] sc
  obtain w1 where o: "tee_fs_rpc_open fname True w = (TEE_SUCCESS, Some (next_fd w), w1)"
    and fa1: "file_at w1 (next_fd w) fname []" by auto
  from file_at_encrypt_and_write[OF fa1, of ?h cfg META_FILE ?offs "bytes_of_info (info ?m)"
      "encrypted_fek ?m"]
  obtain w2 where
    w2: "encrypt_and_write_file cfg ?h META_FILE ?offs (bytes_of_info (info ?m))
           (encrypted_fek ?m) w1 = (TEE_SUCCESS, w2)"
    and fa2: "file_at w2 (next_fd w) fname (write_at [] ?offs ?ct)"
    by auto
  from file_at_rpc_write[OF fa2, of "bytes_of_u32 0" 0]
  obtain w3 where
    w3: "tee_fs_rpc_write (next_fd w) (bytes_of_u32 0) 0 w2 = (TEE_SUCCESS, w3)"
    and fa3: "file_at w3 (next_fd w) fname (write_at (write_at [] ?offs ?ct) 0 (bytes_of_u32 0))"
    by blast
  let ?f0 = "write_at (write_at [] ?offs ?ct) 0 (bytes_of_u32 0)"
  have cm: "create_meta cfg (new_fd cfg) fname w = (TEE_SUCCESS, ?h, w3)"
    unfolding create_meta_def Let_def write_meta_file_def write_meta_counter_def
    using sched_empty_calls(2)[OF sc] o w2 w3
    by (simp add: new_fd_def)
  have res: "ree_fs_create cfg (Some fname) w = (TEE_SUCCESS, Some ?h, w3)"
    unfolding ree_fs_create_def open_internal_def Let_def
    using nl sched_empty_calls(1)[OF sc] cm by simp
  have lct: "length ?ct = sizeof_file_info cfg + tee_fs_get_header_size cfg META_FILE"
    using ok by (simp add: cfg_ok_def length_bytes_of_info sizeof_file_info_def)
  have "sizeof_file_info cfg \<le> sizeof_file_meta cfg" using ok by (simp add: cfg_ok_def)
  then have "?offs + length ?ct \<le> 4 + meta_size cfg * 2"
    unfolding lct by (simp add: meta_pos_raw_def Let_def meta_size_def)
  then have lf: "length ?f0 \<le> 4 + meta_size cfg * 2"
    by (simp add: length_write_at)
  have st: "stored cfg ?f0 (meta ?h) 0 C"
    by (rule stored_fresh[OF ok _ lf]) simp
  have fl: "length (encrypted_fek (meta ?h)) = TEE_FS_KM_FEK_SIZE cfg"
    using ok by (simp add: cfg_ok_def)
  have "file_at w3 (fd ?h) fname ?f0" using fa3 by simp
  then show ?thesis using res st fl by (intro exI[of _ ?h] exI[of _ w3] exI[of _ ?f0])
      (simp add: new_fd_def)
qed

subsection \<open>The read loop, when the host refuses nothing\<close>

lemma read_size_nat:
  assumes "pos fdp = int P"
  shows "read_size fdp rem = min rem (BLOCK_SIZE - P mod BLOCK_SIZE)"
proof -
  let ?off = "P mod BLOCK_SIZE"
  have B: "BLOCK_SIZE = 256" by (simp add: BLOCK_SIZE_def BLOCK_SHIFT_def)
  have o: "?off < 256" by (rule block_off_small)
  have "to_size_t (int (BLOCK_SIZE - ?off)) = BLOCK_SIZE - ?off"
    using B by (intro to_size_t_nat) simp
  then have t2: "to_size_t (int BLOCK_SIZE - int ?off) = BLOCK_SIZE - ?off"
    using o B by (simp add: of_nat_diff)
  have c: "(int BLOCK_SIZE < int (min rem BLOCK_SIZE) + int ?off)
             = (BLOCK_SIZE < min rem BLOCK_SIZE + ?off)"
    by (simp only: of_nat_add[symmetric] of_nat_less_iff)
  have ar: "(if 256 < min rem 256 + x then 256 - x else min rem 256) = min rem (256 - x)"
    if "x < 256" for x :: nat
    using that by (auto simp: min_def)
  show ?thesis
    unfolding read_size_def assms smod_nat t2 c unfolding B using ar[OF o[unfolded B]] .
qed

lemma holds_data_head:
  assumes h: "holds_data C P r d s e" and se: "s \<le> e"
    and a: "256 * s \<le> P" "P + sz \<le> 256 * (s + 1)" "sz \<le> r"
      "sz = r \<or> P + sz = 256 * (s + 1)"
  shows "take sz (drop (P - 256 * s) (C s)) = take sz d"
proof -
  have hi: "min (P + r) (256 * (s + 1)) = P + sz" using a(2,3,4) by auto
  have lo: "max P (256 * s) = P" using a(1) by simp
  from h se have "let lo = max P (BLOCK_SIZE * s); hi = min (P + r) (BLOCK_SIZE * (s + 1))
         in take (hi - lo) (drop (lo - BLOCK_SIZE * s) (C s)) = take (hi - lo) (drop (lo - P) d)"
    unfolding holds_data_def by blast
  then show ?thesis unfolding Let_def BLOCK_SIZE_256 hi lo by simp
qed

lemma holds_data_tail:
  assumes h: "holds_data C P r d s e"
    and a: "sz \<le> r" "P + sz = 256 * (s + 1)"
  shows "holds_data C (P + sz) (r - sz) (drop sz d) (s + 1) e"
  unfolding holds_data_def
proof (intro allI impI)
  fix n assume n: "s + 1 \<le> n \<and> n \<le> e"
  then have sn: "s \<le> n \<and> n \<le> e" by simp
  from h sn have 1: "let lo = max P (BLOCK_SIZE * n); hi = min (P + r) (BLOCK_SIZE * (n + 1))
         in take (hi - lo) (drop (lo - BLOCK_SIZE * n) (C n)) = take (hi - lo) (drop (lo - P) d)"
    unfolding holds_data_def by blast
  have "256 * (s + 1) \<le> 256 * n" using n by simp
  then have le: "P + sz \<le> 256 * n" using a(2) by simp
  then have lo: "max P (256 * n) = 256 * n" "max (P + sz) (256 * n) = 256 * n" by simp_all
  have pr: "P + sz + (r - sz) = P + r" using a(1) by simp
  have dr: "drop (256 * n - (P + sz)) (drop sz d) = drop (256 * n - P) d"
    using le by simp
  show "let lo = max (P + sz) (BLOCK_SIZE * n);
            hi = min (P + sz + (r - sz)) (BLOCK_SIZE * (n + 1))
        in take (hi - lo) (drop (lo - BLOCK_SIZE * n) (C n))
             = take (hi - lo) (drop (lo - (P + sz)) (drop sz d))"
    using 1 unfolding Let_def BLOCK_SIZE_256 lo pr dr .
qed

lemma read_loop_fwd:
  assumes ok: "cfg_ok cfg"
  shows "\<lbrakk> file_at w d name f; fd fdp = d; pos fdp = int P;
           stored cfg f (meta fdp) K C;
           s = P div 256; 0 < rem; e = (P + rem - 1) div 256; e < K;
           length blk = BLOCK_SIZE; holds_data C P rem dd s e \<rbrakk>
    \<Longrightarrow> read_loop cfg fdp (int s) (int e) rem out blk w
          = (TEE_SUCCESS, fdp\<lparr> pos := int (P + rem) \<rparr>, out @ take rem dd, w)"
proof (induction "e - s" arbitrary: fdp P rem dd blk out s rule: less_induct)
  case less
  note fa = less.prems(1,2) and pp = less.prems(3) and st = less.prems(4)
    and sd = less.prems(5) and r0 = less.prems(6) and ed = less.prems(7) and eK = less.prems(8)
    and lb = less.prems(9) and hd = less.prems(10)
  define sz where "sz = min rem (256 - P mod 256)"
  note ar = chunk_arith[OF r0, of P, folded sz_def sd ed]
  have se: "s \<le> e" by (rule ar(3))
  have sK: "s < K" using se eK by simp
  have KN: "K \<le> NUM_BLOCKS_PER_FILE cfg" using st by (simp add: stored_def)
  have szo: "read_size fdp rem = sz"
    using read_size_nat[OF pp, of rem] by (simp add: sz_def BLOCK_SIZE_256)
  have rb: "read_block cfg fdp (int s) blk w = (TEE_SUCCESS, C s, w)"
    by (rule file_at_read_block_stored[OF ok fa st sK lb]) simp_all
  have lc: "length (C s) = BLOCK_SIZE" using st sK by (simp add: stored_def)
  have e1: "256 * (e + 1) < 2147483648" using cfg_ok_blocks[OF ok, of "e + 1"] eK KN by simp
  have "P + rem - 1 < 256 * (e + 1)"
    using div_less_iff_less_mult[of 256 "P + rem - 1" "e + 1"] ed by simp
  then have prb: "P + rem < 2147483648" using e1 r0 by simp
  have trs: "to_size_t (int rem - int sz) = rem - sz"
  proof -
    have "to_size_t (int (rem - sz)) = rem - sz" using prb by (intro to_size_t_nat) simp
    then show ?thesis using ar(4) by (simp add: of_nat_diff)
  qed
  have offn: "nat (int (P mod BLOCK_SIZE)) = P - 256 * s"
    unfolding sd BLOCK_SIZE_256 by (simp add: minus_mult_div_eq_mod)
  have alt: "sz = rem \<or> P + sz = 256 * (s + 1)"
    using ar(5) ar(6) se by (cases "s = e") auto
  have hd0: "take sz (drop (P - 256 * s) (C s)) = take sz dd"
    by (rule holds_data_head[OF hd se ar(7) ar(8) ar(4) alt])
  have step0: "read_loop cfg fdp (int s) (int e) rem out blk w =
      read_loop cfg (fdp\<lparr> pos := pos fdp + int sz \<rparr>) (int s + 1) (int e) (rem - sz)
        (out @ take sz dd) (C s) w"
  proof -
    have "int s \<le> int e" using se by simp
    from read_loop_step[OF this, of cfg fdp rem out blk w] show ?thesis
      unfolding rb prod.case szo trs pp smod_nat offn hd0 by simp
  qed
  have eqs: "int s + 1 = int (s + 1)" "pos fdp + int sz = int (P + sz)"
    by (simp_all add: pp)
  note step = step0[unfolded eqs]
  show ?case
  proof (cases "s = e")
    case True
    then have szr: "sz = rem" using ar(5) by simp
    show ?thesis unfolding step using True szr by (simp add: read_loop_stop)
  next
    case False
    then have lt: "s < e" using se by simp
    then have a6: "sz < rem" "P + sz = 256 * (s + 1)" using ar(6) by simp_all
    let ?fdp1 = "fdp\<lparr> pos := int (P + sz) \<rparr>"
    have "read_loop cfg ?fdp1 (int (s + 1)) (int e) (rem - sz) (out @ take sz dd) (C s) w
          = (TEE_SUCCESS, ?fdp1\<lparr> pos := int (P + sz + (rem - sz)) \<rparr>,
             (out @ take sz dd) @ take (rem - sz) (drop sz dd), w)"
    proof (rule less.hyps[where s = "s + 1" and P = "P + sz"])
      show "e - (s + 1) < e - s" using lt by simp
      show "file_at w d name f" by (rule fa(1))
      show "fd ?fdp1 = d" using fa(2) by simp
      show "pos ?fdp1 = int (P + sz)" by simp
      show "stored cfg f (meta ?fdp1) K C" using st by simp
      show "s + 1 = (P + sz) div 256" using a6(2) by simp
      show "0 < rem - sz" using a6(1) by simp
      show "e = (P + sz + (rem - sz) - 1) div 256" using ed a6(1) by simp
      show "e < K" by (rule eK)
      show "length (C s) = BLOCK_SIZE" by (rule lc)
      show "holds_data C (P + sz) (rem - sz) (drop sz dd) (s + 1) e"
        by (rule holds_data_tail[OF hd ar(4) a6(2)])
    qed
    moreover have "P + sz + (rem - sz) = P + rem" using a6(1) by simp
    moreover have "take sz dd @ take (rem - sz) (drop sz dd) = take rem dd"
      using take_add[of sz "rem - sz" dd] a6(1) by simp
    ultimately show ?thesis unfolding step by simp
  qed
qed

lemma ree_fs_read_fwd:
  assumes ok: "cfg_ok cfg" and fa: "file_at w d name f" "fd fdp = d"
    and pp: "pos fdp = int P" and st: "stored cfg f (meta fdp) K C"
    and r: "0 < len" and mx: "int (P + len) \<le> MAX_FILE_SIZE cfg"
    and fl: "length_f (info (meta fdp)) = word_of_int (int (P + len))"
    and eK: "(P + len - 1) div 256 < K"
    and hd: "holds_data C P len dd (P div 256) ((P + len - 1) div 256)"
    and ld: "length dd = len"
  shows "\<exists>h w'. ree_fs_read cfg fdp len w = (TEE_SUCCESS, len, dd, h, w')"
proof -
  have "MAX_FILE_SIZE cfg < 2147483648" using ok by (simp add: cfg_ok_def)
  then have P32: "P + len < 2147483648" using mx by simp
  then have P31: "P < 2147483648" "P + len - 1 < 2147483648" by simp_all
  have ul: "uint (length_f (info (meta fdp))) = int (P + len)"
    unfolding fl using P32 by (intro uint_word_of_int_32) simp_all
  have e': "pos fdp + int len - 1 = int (P + len - 1)" using r by (simp add: pp of_nat_diff)
  have s: "pos_to_block_num (pos fdp) = int (P div 256)"
    unfolding pp using pos_to_block_num_nat[OF P31(1)] by (simp only: BLOCK_SIZE_256)
  have e: "pos_to_block_num (pos fdp + int len - 1) = int ((P + len - 1) div 256)"
    unfolding e' using pos_to_block_num_nat[OF P31(2)] by (simp only: BLOCK_SIZE_256)
  have rl: "read_loop cfg fdp (int (P div 256)) (int ((P + len - 1) div 256)) len []
              (replicate BLOCK_SIZE 0) w
            = (TEE_SUCCESS, fdp\<lparr> pos := int (P + len) \<rparr>, [] @ take len dd, w)"
    by (rule read_loop_fwd[OF ok fa pp st refl r refl eK _ hd]) simp
  have eff: "(if pos fdp + int len < int len \<or> pos fdp > uint (length_f (info (meta fdp))) then 0
             else if pos fdp + int len > uint (length_f (info (meta fdp)))
                  then to_size_t (uint (length_f (info (meta fdp))) - pos fdp)
             else len) = len"
    unfolding ul pp by simp
  show ?thesis
    unfolding ree_fs_read_def Let_def eff s e rl using r ld by simp
qed

lemma ree_fs_open_fwd:
  assumes ok: "cfg_ok cfg" and sc: "sched w = []" and fl: "ree_files w fname = Some f"
    and nl: "length fname + 1 \<le> TEE_FS_NAME_MAX cfg"
    and cm: "committed cfg f h"
    and tl: "length (backup_version_table (info (meta h))) = NUM_BLOCKS_PER_FILE cfg div 32"
    and kl: "length (encrypted_fek (meta h)) = TEE_FS_KM_FEK_SIZE cfg"
  shows "\<exists>h4 w4. ree_fs_open cfg (Some fname) w = (TEE_SUCCESS, Some h4, w4) \<and>
           file_at w4 (fd h4) fname f \<and> info (meta h4) = info (meta h) \<and>
           encrypted_fek (meta h4) = encrypted_fek (meta h) \<and> pos h4 = 0"
proof -
  let ?d = "next_fd w"
  let ?H = "tee_fs_get_header_size cfg META_FILE"
  let ?ct = "km_encrypt cfg META_FILE (bytes_of_info (info (meta h))) (encrypted_fek (meta h))"
  from rpc_open_fwd[of w False fname f] sc fl
  obtain w1 where o: "tee_fs_rpc_open fname False w = (TEE_SUCCESS, Some ?d, w1)"
    and fa1: "file_at w1 ?d fname f" by auto
  let ?g1 = "(new_fd cfg)\<lparr> fd := ?d \<rparr>"
  let ?g2 = "?g1\<lparr> meta_counter := meta_counter h \<rparr>"
  have c: "4 \<le> length f" "u32_of_bytes (take 4 f) = meta_counter h"
     "read_at f (meta_pos_raw cfg h True) (sizeof_file_info cfg + ?H) = ?ct"
    using cm by (simp_all add: committed_def)
  have r4: "read_at f 0 4 = take 4 f" by (simp add: read_at_def)
  have rc: "read_meta_counter ?g1 w1 = (TEE_SUCCESS, ?g2, w1)"
    unfolding read_meta_counter_def using file_at_rpc_read[OF fa1, of 4 0] c(1,2)
    by (simp add: r4)
  have mp: "meta_pos_raw cfg ?g2 True = meta_pos_raw cfg h True"
    by (simp add: meta_pos_raw_def Let_def)
  have lct: "length ?ct = sizeof_file_info cfg + ?H"
    using ok tl by (simp add: cfg_ok_def length_bytes_of_info sizeof_file_info_def)
  have si: "0 < sizeof_file_info cfg" by (simp add: sizeof_file_info_def)
  have ne: "length ?ct \<noteq> 0" unfolding lct using si by simp
  have kd: "km_decrypt cfg META_FILE ?ct k0
              = Some (bytes_of_info (info (meta h)), encrypted_fek (meta h))" for k0
    using ok kl by (simp add: cfg_ok_def)
  have rd: "read_and_decrypt_file cfg ?g2 META_FILE (meta_pos_raw cfg h True)
              (sizeof_file_info cfg) k0 w1
            = (TEE_SUCCESS, Some (bytes_of_info (info (meta h)), encrypted_fek (meta h)),
               length (bytes_of_info (info (meta h))), w1)" for k0
    unfolding read_and_decrypt_file_def Let_def file_at_malloc[OF fa1] prod.case
    using file_at_rpc_read[OF fa1, of "sizeof_file_info cfg + ?H" "meta_pos_raw cfg h True"]
      c(3) ne file_at_decrypt[OF fa1 kd]
    by simp
  have lb: "length (bytes_of_info (info (meta h)))
              = length (bytes_of_info (info (meta ?g2)))"
    using tl by (simp add: length_bytes_of_info new_fd_def)
  let ?m = "(meta ?g2)\<lparr> info := info (meta h), encrypted_fek := encrypted_fek (meta h) \<rparr>"
  have rmf: "read_meta_file cfg ?g2 (meta ?g2) w1 = (TEE_SUCCESS, ?m, w1)"
    unfolding read_meta_file_def Let_def mp rd prod.case option.case
    using fill_buf_same_length[OF lb] by (simp add: info_roundtrip)
  have rm: "read_meta cfg (new_fd cfg) fname w1' = (TEE_SUCCESS, ?g2\<lparr> meta := ?m \<rparr>, w1)"
    if "w1' = w" for w1'
    unfolding read_meta_def that o prod.case Let_def option.case rc rmf by simp
  have res: "ree_fs_open cfg (Some fname) w = (TEE_SUCCESS, Some (?g2\<lparr> meta := ?m \<rparr>), w1)"
    unfolding ree_fs_open_def open_internal_def Let_def
    using nl sched_empty_calls(1)[OF sc] rm by simp
  show ?thesis
    apply (rule exI[of _ "?g2\<lparr> meta := ?m \<rparr>"], rule exI[of _ w1])
    using res fa1 by (simp add: new_fd_def)
qed

subsection \<open>A write on a new file\<close>

lemma range_write_commit_fwd:
  assumes ok: "cfg_ok cfg" and fa: "file_at w d name f" "fd h = d" and pp: "pos h = int P"
    and st: "stored cfg f (meta h) K C" and nm: "nm = (meta h)\<lparr> info := i \<rparr>"
      "backup_version_table i = backup_version_table (info (meta h))"
    and PK: "P div 256 \<le> K" and r: "0 < rem"
    and mx: "int (P + rem) \<le> MAX_FILE_SIZE cfg"
    and ld: "\<forall>dd. dp = Some dd \<longrightarrow> length dd = rem"
    and g: "fd g = d"
  shows "\<exists>nm' w1 w2 f2 C2.
          out_of_place_write cfg h dp rem nm w
            = (TEE_SUCCESS, h\<lparr> pos := int (P + rem) \<rparr>, nm', w1) \<and>
          commit_meta_file cfg g nm' w1
            = (TEE_SUCCESS,
               g\<lparr> meta := nm'\<lparr> counter := meta_counter g + 1 \<rparr>,
                  meta_counter := meta_counter g + 1 \<rparr>, w2) \<and>
          file_at w2 d name f2 \<and>
          stored cfg f2 (nm'\<lparr> counter := meta_counter g + 1 \<rparr>)
             (max K ((P + rem - 1) div 256 + 1)) C2 \<and>
          committed cfg f2 (g\<lparr> meta := nm'\<lparr> counter := meta_counter g + 1 \<rparr>,
                               meta_counter := meta_counter g + 1 \<rparr>) \<and>
          encrypted_fek nm' = encrypted_fek nm \<and>
          length_f (info nm') =
            (if int (P + rem) > uint (length_f (info nm)) then word_of_int (int (P + rem))
             else length_f (info nm)) \<and>
          (\<forall>dd. dp = Some dd \<longrightarrow>
             holds_data C2 P rem dd (P div 256) ((P + rem - 1) div 256))"
proof -
  from out_of_place_write_ok[OF ok fa pp st nm PK r mx ld]
  obtain nm' w1 where
    ow: "out_of_place_write cfg h dp rem nm w
            = (TEE_SUCCESS, h\<lparr> pos := int (P + rem) \<rparr>, nm', w1)"
    and po: "oopw_post cfg d name f w nm K C P rem dp (P div 256) ((P + rem - 1) div 256) nm' w1"
    by blast
  from po obtain f1 C1 where
    q: "file_at w1 d name f1"
       "stored cfg f1 nm' (max K ((P + rem - 1) div 256 + 1)) C1"
       "encrypted_fek nm' = encrypted_fek nm"
       "length_f (info nm') =
          (if int (P + rem) > uint (length_f (info nm)) then word_of_int (int (P + rem))
           else length_f (info nm))"
       "\<forall>dd. dp = Some dd \<longrightarrow> holds_data C1 P rem dd (P div 256) ((P + rem - 1) div 256)"
    unfolding oopw_post_def by blast
  from commit_meta_file_fwd[OF ok q(1) g q(2)]
  obtain w2 f2 where
    c: "commit_meta_file cfg g nm' w1
            = (TEE_SUCCESS,
               g\<lparr> meta := nm'\<lparr> counter := meta_counter g + 1 \<rparr>,
                  meta_counter := meta_counter g + 1 \<rparr>, w2)"
       "file_at w2 d name f2"
       "stored cfg f2 (nm'\<lparr> counter := meta_counter g + 1 \<rparr>)
           (max K ((P + rem - 1) div 256 + 1)) C1"
       "committed cfg f2 (g\<lparr> meta := nm'\<lparr> counter := meta_counter g + 1 \<rparr>,
                               meta_counter := meta_counter g + 1 \<rparr>)"
    by blast
  show ?thesis using ow c q(3,4,5) by blast
qed

lemma ftruncate_extend_fwd:
  assumes ok: "cfg_ok cfg" and fa: "file_at w d name f" "fd h = d" and pp: "pos h = int P"
    and st: "stored cfg f (meta h) 0 C" and l0: "length_f (info (meta h)) = 0"
    and P0: "0 < P" and mx: "int P \<le> MAX_FILE_SIZE cfg"
  shows "\<exists>h1 w1 f1 C1.
          ree_fs_ftruncate_internal cfg h (int P) w = (TEE_SUCCESS, h1, w1) \<and>
          file_at w1 d name f1 \<and> fd h1 = d \<and> pos h1 = int P \<and>
          stored cfg f1 (meta h1) ((P - 1) div 256 + 1) C1 \<and>
          length_f (info (meta h1)) = word_of_int (int P) \<and>
          encrypted_fek (meta h1) = encrypted_fek (meta h)"
proof -
  define nm where "nm = (meta h)\<lparr> info := (info (meta h))\<lparr> length_f := word_of_int (int P) \<rparr> \<rparr>"
  let ?h0 = "h\<lparr> pos := 0 \<rparr>"
  let ?g = "h\<lparr> pos := int P \<rparr>"
  have "MAX_FILE_SIZE cfg < 2147483648" using ok by (simp add: cfg_ok_def)
  then have P31: "P < 2147483648" using mx by simp
  have tsz: "to_size_t (int P) = P" using P31 by (intro to_size_t_nat) simp
  have ti: "to_int (int P) = int P" using P31 by (intro to_int_id) simp_all
  have mx0: "int (0 + P) \<le> MAX_FILE_SIZE cfg" using mx by simp
  have a: "fd ?h0 = d" "pos ?h0 = int 0" "stored cfg f (meta ?h0) 0 C"
      "nm = (meta ?h0)\<lparr> info := (info (meta h))\<lparr> length_f := word_of_int (int P) \<rparr> \<rparr>"
      "backup_version_table ((info (meta h))\<lparr> length_f := word_of_int (int P) \<rparr>)
         = backup_version_table (info (meta ?h0))"
      "0 div 256 \<le> (0::nat)" "\<forall>dd. (None :: byte list option) = Some dd \<longrightarrow> length dd = P"
      "fd ?g = d"
    using fa(2) st by (simp_all add: nm_def)
  from range_write_commit_fwd[OF ok fa(1) a(1,2,3,4,5,6) P0 mx0 a(7,8)]
  obtain nm' w1 w2 f2 C2 where
    ow: "out_of_place_write cfg ?h0 None P nm w
            = (TEE_SUCCESS, ?h0\<lparr> pos := int (0 + P) \<rparr>, nm', w1)"
    and cm: "commit_meta_file cfg ?g nm' w1
            = (TEE_SUCCESS,
               ?g\<lparr> meta := nm'\<lparr> counter := meta_counter ?g + 1 \<rparr>,
                   meta_counter := meta_counter ?g + 1 \<rparr>, w2)"
    and q: "file_at w2 d name f2"
       "stored cfg f2 (nm'\<lparr> counter := meta_counter ?g + 1 \<rparr>)
           (max 0 ((0 + P - 1) div 256 + 1)) C2"
       "encrypted_fek nm' = encrypted_fek nm"
       "length_f (info nm') =
          (if int (0 + P) > uint (length_f (info nm)) then word_of_int (int (0 + P))
           else length_f (info nm))"
    by blast
  let ?h1 = "?g\<lparr> meta := nm'\<lparr> counter := meta_counter ?g + 1 \<rparr>,
                  meta_counter := meta_counter ?g + 1 \<rparr>"
  have ng: "\<not> int P > MAX_FILE_SIZE cfg" using mx by simp
  have res: "ree_fs_ftruncate_internal cfg h (int P) w = (TEE_SUCCESS, ?h1, w2)"
    unfolding ree_fs_ftruncate_internal_def Let_def l0 nm_def[symmetric]
    using ng tsz ti P0 ow cm pp by simp
  have lf: "length_f (info nm') = word_of_int (int P)"
    using q(4) by (simp add: nm_def split: if_splits)
  have fk: "encrypted_fek nm' = encrypted_fek (meta h)" using q(3) by (simp add: nm_def)
  show ?thesis
    apply (rule exI[of _ ?h1], rule exI[of _ w2], rule exI[of _ f2], rule exI[of _ C2])
    using res q(1,2) fa(2) lf fk by simp
qed

lemma ree_fs_write_fwd:
  assumes ok: "cfg_ok cfg" and fa: "file_at w d name f" "fd h = d" and pp: "pos h = int P"
    and st: "stored cfg f (meta h) 0 C" and l0: "length_f (info (meta h)) = 0"
    and r: "0 < length data" and mx: "int (P + length data) \<le> MAX_FILE_SIZE cfg"
  shows "\<exists>h2 w2 f2 K2 C2.
          ree_fs_write cfg h (Some data) (length data) w = (TEE_SUCCESS, h2, w2) \<and>
          fd h2 = d \<and> sched w2 = [] \<and> ree_files w2 name = Some f2 \<and>
          stored cfg f2 (meta h2) K2 C2 \<and> committed cfg f2 h2 \<and>
          (P + length data - 1) div 256 < K2 \<and>
          holds_data C2 P (length data) data (P div 256) ((P + length data - 1) div 256) \<and>
          length_f (info (meta h2)) = word_of_int (int (P + length data)) \<and>
          encrypted_fek (meta h2) = encrypted_fek (meta h)"
proof -
  let ?len = "length data"
  have M: "MAX_FILE_SIZE cfg < 2147483648" using ok by (simp add: cfg_ok_def)
  then have P32: "P + ?len < 2147483648" using mx by simp
  then have P31: "P < 2147483648" by simp
  have mxP: "int P \<le> MAX_FILE_SIZE cfg" using mx by simp
  have tsz: "to_size_t (int P) = P" using P31 by (intro to_size_t_nat) simp
  have pre: "\<exists>h1 w1 f1 K1 C1.
       (if unat (length_f (info (meta h))) < to_size_t (pos h)
        then ree_fs_ftruncate_internal cfg h (pos h) w else (TEE_SUCCESS, h, w))
         = (TEE_SUCCESS, h1, w1) \<and>
       file_at w1 d name f1 \<and> fd h1 = d \<and> pos h1 = int P \<and>
       stored cfg f1 (meta h1) K1 C1 \<and> P div 256 \<le> K1 \<and>
       uint (length_f (info (meta h1))) \<le> int P \<and>
       encrypted_fek (meta h1) = encrypted_fek (meta h)"
  proof (cases "P = 0")
    case True
    show ?thesis
      apply (rule exI[of _ h], rule exI[of _ w], rule exI[of _ f], rule exI[of _ 0],
             rule exI[of _ C])
      using True fa pp st l0 tsz by simp
  next
    case False
    then have P0: "0 < P" by simp
    from ftruncate_extend_fwd[OF ok fa pp st l0 P0 mxP]
    obtain h1 w1 f1 C1 where
      t: "ree_fs_ftruncate_internal cfg h (int P) w = (TEE_SUCCESS, h1, w1)"
         "file_at w1 d name f1" "fd h1 = d" "pos h1 = int P"
         "stored cfg f1 (meta h1) ((P - 1) div 256 + 1) C1"
         "length_f (info (meta h1)) = word_of_int (int P)"
         "encrypted_fek (meta h1) = encrypted_fek (meta h)"
      by blast
    have "P div 256 \<le> (P - 1 + 256) div 256" by (rule div_le_mono) simp
    then have PK: "P div 256 \<le> (P - 1) div 256 + 1" by simp
    have ul: "uint (length_f (info (meta h1))) = int P"
      unfolding t(6) using P31 by (intro uint_word_of_int_32) simp_all
    show ?thesis
      apply (rule exI[of _ h1], rule exI[of _ w1], rule exI[of _ f1],
             rule exI[of _ "(P - 1) div 256 + 1"], rule exI[of _ C1])
      using t PK ul P0 l0 tsz pp by simp
  qed
  then obtain h1 w1 f1 K1 C1 where
    p: "(if unat (length_f (info (meta h))) < to_size_t (pos h)
        then ree_fs_ftruncate_internal cfg h (pos h) w else (TEE_SUCCESS, h, w))
         = (TEE_SUCCESS, h1, w1)"
       "file_at w1 d name f1" "fd h1 = d" "pos h1 = int P"
       "stored cfg f1 (meta h1) K1 C1" "P div 256 \<le> K1"
       "uint (length_f (info (meta h1))) \<le> int P"
       "encrypted_fek (meta h1) = encrypted_fek (meta h)"
    by blast
  let ?g = "h1\<lparr> pos := int (P + ?len) \<rparr>"
  have nm: "meta h1 = (meta h1)\<lparr> info := info (meta h1) \<rparr>" by simp
  have gd: "fd ?g = d" using p(3) by simp
  from range_write_commit_fwd[OF ok p(2,3,4,5) nm refl p(6) r mx _ gd, of "Some data"]
  obtain nm' w2 w3 f3 C3 where
    ow: "out_of_place_write cfg h1 (Some data) ?len (meta h1) w1
            = (TEE_SUCCESS, ?g, nm', w2)"
    and cm: "commit_meta_file cfg ?g nm' w2
            = (TEE_SUCCESS,
               ?g\<lparr> meta := nm'\<lparr> counter := meta_counter ?g + 1 \<rparr>,
                   meta_counter := meta_counter ?g + 1 \<rparr>, w3)"
    and q: "file_at w3 d name f3"
       "stored cfg f3 (nm'\<lparr> counter := meta_counter ?g + 1 \<rparr>)
           (max K1 ((P + ?len - 1) div 256 + 1)) C3"
       "committed cfg f3 (?g\<lparr> meta := nm'\<lparr> counter := meta_counter ?g + 1 \<rparr>,
                               meta_counter := meta_counter ?g + 1 \<rparr>)"
       "encrypted_fek nm' = encrypted_fek (meta h1)"
       "length_f (info nm') =
          (if int (P + ?len) > uint (length_f (info (meta h1)))
           then word_of_int (int (P + ?len)) else length_f (info (meta h1)))"
       "holds_data C3 P ?len data (P div 256) ((P + ?len - 1) div 256)"
    by auto
  let ?h2 = "?g\<lparr> meta := nm'\<lparr> counter := meta_counter ?g + 1 \<rparr>,
                  meta_counter := meta_counter ?g + 1 \<rparr>"
  have ng: "\<not> (pos h + int ?len > MAX_FILE_SIZE cfg \<or> pos h + int ?len < int ?len)"
    using mx by (simp add: pp)
  have res: "ree_fs_write cfg h (Some data) ?len w = (TEE_SUCCESS, ?h2, w3)"
    unfolding ree_fs_write_def Let_def p(1) prod.case
    using r ng ow cm by simp
  have "int P < int (P + ?len)" using r by simp
  with p(7) have lt: "uint (length_f (info (meta h1))) < int (P + ?len)"
    by (rule order_le_less_trans)
  have lf: "length_f (info nm') = word_of_int (int (P + ?len))"
    unfolding q(5) using lt by (simp only: if_True)
  have eK: "(P + ?len - 1) div 256 < max K1 ((P + ?len - 1) div 256 + 1)" by simp
  show ?thesis
    apply (rule exI[of _ ?h2], rule exI[of _ w3], rule exI[of _ f3],
           rule exI[of _ "max K1 ((P + ?len - 1) div 256 + 1)"], rule exI[of _ C3])
    using res q(1,2,3,4,6) lf eK p(3,8) by (simp add: file_at_def)
qed

subsection \<open>The small instance satisfies the assumptions\<close>

lemma toy_encrypt_length:
  "length (toy_encrypt t pt k) = (case t of META_FILE \<Rightarrow> 3 | BLOCK_FILE \<Rightarrow> 1) + length pt"
proof -
  have "length (take 2 (k @ [0, 0 :: byte])) = 2" by (simp del: take_append)
  then show ?thesis by (cases t) (simp_all add: toy_encrypt_def del: take_append)
qed

lemma toy_decrypt_meta:
  assumes "length k = 2"
  shows "toy_decrypt META_FILE (toy_encrypt META_FILE pt k) k0 = Some (pt, k)"
proof -
  have "take 2 (k @ [0, 0 :: byte]) = k" using assms by simp
  then have e: "toy_encrypt META_FILE pt k = 0xa5 # k @ pt"
    by (simp add: toy_encrypt_def del: take_append)
  show ?thesis unfolding e using assms by (simp add: toy_decrypt_def)
qed

lemma toy_decrypt_block:
  "map_option fst (toy_decrypt BLOCK_FILE (toy_encrypt BLOCK_FILE pt k) k) = Some pt"
  by (simp add: toy_encrypt_def toy_decrypt_def)

lemma toy_cfg_fields:
  "NUM_BLOCKS_PER_FILE toy_cfg = 32" "TEE_FS_KM_FEK_SIZE toy_cfg = 2"
  "TEE_FS_NAME_MAX toy_cfg = 64" "TEE_DATA_MAX_POSITION toy_cfg = 4294967295"
  "sizeof_file_meta toy_cfg = 16"
  "tee_fs_get_header_size toy_cfg t = (case t of META_FILE \<Rightarrow> 3 | BLOCK_FILE \<Rightarrow> 1)"
  "km_generate_fek toy_cfg n = replicate n 0x11"
  "km_encrypt toy_cfg = toy_encrypt" "km_decrypt toy_cfg = toy_decrypt"
  "MAX_FILE_SIZE toy_cfg = 8192" "sizeof_file_info toy_cfg = 8"
  by (simp_all add: toy_cfg_def MAX_FILE_SIZE_def BLOCK_SIZE_256 sizeof_file_info_def)

lemma cfg_ok_toy: "cfg_ok toy_cfg"
  unfolding cfg_ok_def toy_cfg_fields
  using toy_encrypt_length toy_decrypt_meta toy_decrypt_block by simp

subsection \<open>The offset of the meta data\<close>

text \<open>
  C4, as the spec states it: the offset of the meta data is 4 when the lowest bit of the
  counter equals \<open>want_active\<close>, and \<open>4 + S_meta\<close> otherwise. The code does the
  opposite. For the counter 0 and \<open>active = true\<close> the bit differs from \<open>active\<close>; the
  stated value is \<open>4 + S_meta\<close> (23 in the small instance) and \<open>meta_pos_raw\<close> returns 4.
\<close>

theorem meta_pos_raw_stated_counterexample:
  "meta_counter (new_fd toy_cfg) AND 1 \<noteq> 1 \<and>
   meta_pos_raw toy_cfg (new_fd toy_cfg) True = 4 \<and>
   4 + meta_size toy_cfg = 23"
  by (simp add: meta_pos_raw_def new_fd_def toy_cfg_def meta_size_def)

text \<open>
  C4, amended: for every counter and both values of \<open>active\<close>, \<open>meta_pos_raw\<close> returns
  \<open>4 + meta_size\<close> when the lowest bit of the counter equals \<open>active\<close>, and 4 otherwise.
  So the counter's lowest bit is the index of the active slot.
\<close>

theorem meta_pos_raw_value:
  "meta_pos_raw cfg fdp active =
     (if (meta_counter fdp AND 1 = 1) = active then 4 + meta_size cfg else 4)"
  by (auto simp: meta_pos_raw_def Let_def and_one_eq split: if_splits)

subsection \<open>The length of a read\<close>

text \<open>
  C7: for every call of \<open>ree_fs_read\<close>, whatever the world does, the value left in
  \<^verbatim>\<open>*len\<close> is 0 when the cursor is behind the length of the file or the test for a wrapped
  sum holds, and the minimum of the requested length and \<open>length - pos\<close> otherwise. The
  sum \<^verbatim>\<open>pos + len\<close> is computed in \<^verbatim>\<open>tee_fs_off_t\<close>, where the test
  \<^verbatim>\<open>pos + len < len\<close> holds exactly for a negative cursor. The value does not depend on
  the world: it is fixed before the first block is read.
\<close>

theorem ree_fs_read_effective_length:
  "fst (snd (ree_fs_read cfg fdp len w)) =
     (let file_len = uint (length_f (info (meta fdp)))
      in if pos fdp < 0 \<or> pos fdp > file_len then 0
         else min len (nat (file_len - pos fdp)))"
proof -
  define L where "L = uint (length_f (info (meta fdp)))"
  have b: "L < 4294967296" "0 \<le> L"
    using uint_bounded[of "length_f (info (meta fdp))"] by (simp_all add: L_def)
  define eff where "eff = (if pos fdp + int len < int len \<or> pos fdp > L then 0
             else if pos fdp + int len > L then to_size_t (L - pos fdp)
             else len)"
  have r: "fst (snd (ree_fs_read cfg fdp len w)) = eff"
    unfolding ree_fs_read_def Let_def eff_def L_def
    by (simp split: prod.splits)
  have "eff = (if pos fdp < 0 \<or> pos fdp > L then 0 else min len (nat (L - pos fdp)))"
  proof (cases "pos fdp < 0 \<or> pos fdp > L")
    case True
    then show ?thesis by (auto simp: eff_def)
  next
    case False
    then have p: "0 \<le> pos fdp" "pos fdp \<le> L" by auto
    then have "to_size_t (L - pos fdp) = nat (L - pos fdp)"
      using b by (intro to_size_t_id) linarith+
    then show ?thesis using p unfolding eff_def by (simp add: min_def) linarith
  qed
  then show ?thesis using r by (simp add: L_def Let_def)
qed

subsection \<open>Reading a block that was never written\<close>

text \<open>
  C8: for every block number, when the buffer for the ciphertext is allocated and the RPC
  read of the block's active slot succeeds with zero bytes, \<open>read_block\<close> returns
  \<^const>\<open>TEE_SUCCESS\<close> and a buffer of \<open>BLOCK_SIZE\<close> zero bytes.
\<close>

theorem read_block_empty_slot:
  assumes "fst (malloc (block_size_raw cfg) w)"
    and "fst (tee_fs_rpc_read (fd fdp) (block_size_raw cfg)
               (block_pos_raw cfg (meta fdp) (to_size_t bnum) True)
               (snd (malloc (block_size_raw cfg) w))) = TEE_SUCCESS"
    and "fst (snd (tee_fs_rpc_read (fd fdp) (block_size_raw cfg)
               (block_pos_raw cfg (meta fdp) (to_size_t bnum) True)
               (snd (malloc (block_size_raw cfg) w)))) = []"
  shows "fst (read_block cfg fdp bnum data w) = TEE_SUCCESS \<and>
         fst (snd (read_block cfg fdp bnum data w)) = replicate BLOCK_SIZE 0"
  using assms by (auto simp: read_block_def Let_def split: prod.splits)

theorem read_block_empty_slot_witness:
  "fst (malloc (block_size_raw toy_cfg) toy_world) \<and>
   fst (tee_fs_rpc_read (fd toy_fd) (block_size_raw toy_cfg)
          (block_pos_raw toy_cfg (meta toy_fd) (to_size_t 5) True)
          (snd (malloc (block_size_raw toy_cfg) toy_world))) = TEE_SUCCESS \<and>
   fst (snd (tee_fs_rpc_read (fd toy_fd) (block_size_raw toy_cfg)
          (block_pos_raw toy_cfg (meta toy_fd) (to_size_t 5) True)
          (snd (malloc (block_size_raw toy_cfg) toy_world)))) = [] \<and>
   fst (read_block toy_cfg toy_fd 5 [1, 2, 3] toy_world) = TEE_SUCCESS \<and>
   fst (snd (read_block toy_cfg toy_fd 5 [1, 2, 3] toy_world)) = replicate BLOCK_SIZE 0"
proof -
  have h1: "fst (malloc (block_size_raw toy_cfg) toy_world)"
    by code_simp
  have h2: "fst (tee_fs_rpc_read (fd toy_fd) (block_size_raw toy_cfg)
          (block_pos_raw toy_cfg (meta toy_fd) (to_size_t 5) True)
          (snd (malloc (block_size_raw toy_cfg) toy_world))) = TEE_SUCCESS"
    by code_simp
  have h3: "fst (snd (tee_fs_rpc_read (fd toy_fd) (block_size_raw toy_cfg)
          (block_pos_raw toy_cfg (meta toy_fd) (to_size_t 5) True)
          (snd (malloc (block_size_raw toy_cfg) toy_world)))) = []"
    by code_simp
  show ?thesis
    using h1 h2 h3 read_block_empty_slot [OF h1 h2 h3, of "[1, 2, 3]"] by simp
qed

subsection \<open>Committing the meta data\<close>

text \<open>
  C2, amended. The claim states that the offset to which a commit writes the new meta data
  always differs from the offset of the meta data that the counter in the file selects.
  That holds when the counter of the handle equals the counter in the file, as it does
  after every successful create, open and commit; a commit whose write of the counter
  fails leaves the handle one ahead of the file. With \<open>meta_size\<close> positive and the two
  counters equal: the shadow offset differs from the active offset. And for every commit,
  the RPC writes it issues are none, or a failed write of the meta data at the shadow
  offset, or a successful write of the meta data at the shadow offset followed by the
  write of 4 bytes at offset 0; the handle takes the new meta data and the new counter,
  the old counter plus 1, exactly in the last case, before the counter is written, and a
  successful write leaves that counter in the file.
\<close>

theorem commit_meta_file_order:
  assumes ms: "0 < meta_size cfg"
    and dc: "disk_counter w (fd fdp) = Some c" and cons: "c = meta_counter fdp"
    and cm: "commit_meta_file cfg fdp new_meta w = (res, fdp', w')"
  shows "meta_pos_raw cfg fdp False \<noteq> meta_pos_raw cfg (fdp\<lparr> meta_counter := c \<rparr>) True \<and>
         ((res \<noteq> TEE_SUCCESS \<and> fdp' = fdp \<and> rlog w' = rlog w) \<or>
          (\<exists>n. res \<noteq> TEE_SUCCESS \<and> fdp' = fdp \<and>
             rlog w' = rlog w @ [RpcWrite (fd fdp) (meta_pos_raw cfg fdp False) n res]) \<or>
          (\<exists>n. fdp' = fdp\<lparr> meta := new_meta\<lparr> counter := meta_counter fdp + 1 \<rparr>,
                            meta_counter := meta_counter fdp + 1 \<rparr> \<and>
             rlog w' = rlog w @ [RpcWrite (fd fdp) (meta_pos_raw cfg fdp False) n TEE_SUCCESS,
                                 RpcWrite (fd fdp) 0 4 res] \<and>
             (if res = TEE_SUCCESS then disk_counter w' (fd fdp) = Some (meta_counter fdp + 1)
              else True)))"
proof -
  have "meta_pos_raw cfg fdp False \<noteq> meta_pos_raw cfg (fdp\<lparr> meta_counter := c \<rparr>) True"
    using ms cons by (intro meta_pos_raw_differ) simp_all
  then show ?thesis using commit_meta_file_cases[OF cm] by blast
qed

subsection \<open>Creating a file\<close>

text \<open>
  C3, amended. Every successful create returns a handle whose table of backup versions is
  all ones, whose length is 0 and whose counter is 0. It has issued exactly two RPC
  writes: the meta data at offset \<open>4 + meta_size\<close>, which is slot 1, the shadow slot of
  the counter 0 (the slot that \<open>meta_pos_raw\<close> gives for \<open>active = false\<close>; the active
  slot of the counter 0 is slot 0 at offset 4), and then 4 bytes at offset 0, after which
  the counter in the file is 0.
\<close>

theorem ree_fs_create_writes:
  assumes "ree_fs_create cfg (Some fname) w = (TEE_SUCCESS, Some fdp, w')"
  shows "backup_version_table (info (meta fdp)) =
           replicate (NUM_BLOCKS_PER_FILE cfg div 32) 0xffffffff \<and>
         length_f (info (meta fdp)) = 0 \<and>
         meta_counter fdp = 0 \<and>
         meta_pos_raw cfg fdp False = 4 + meta_size cfg \<and>
         meta_pos_raw cfg fdp True = 4 \<and>
         rlog w' = rlog w @
           [RpcWrite (fd fdp) (4 + meta_size cfg)
              (length (km_encrypt cfg META_FILE (bytes_of_info (info (meta fdp)))
                 (encrypted_fek (meta fdp)))) TEE_SUCCESS,
            RpcWrite (fd fdp) 0 4 TEE_SUCCESS] \<and>
         disk_counter w' (fd fdp) = Some 0"
proof -
  obtain ok w1 where m: "malloc 0 w = (ok, w1)" by (cases "malloc 0 w") auto
  obtain r2 f2 w2 where c: "create_meta cfg (new_fd cfg) fname w1 = (r2, f2, w2)"
    by (cases "create_meta cfg (new_fd cfg) fname w1") auto
  have ok: "r2 = TEE_SUCCESS" "f2 = fdp" "w2 = w'"
    using assms m c
    by (auto simp: ree_fs_create_def open_internal_def Let_def split: if_splits)
  have s: "same_ree w w1" using m by (rule malloc_same)
  note cm = create_meta_ok[OF c[unfolded ok]]
  have mc: "meta_counter fdp = 0" using cm(1) by (simp add: new_fd_def)
  have sh: "meta_pos_raw cfg fdp False = 4 + meta_size cfg" "meta_pos_raw cfg fdp True = 4"
    using mc by (simp_all add: meta_pos_raw_def Let_def)
  have l: "rlog w1 = rlog w" using s by (simp add: same_ree_def)
  show ?thesis
    using cm(2) cm(3) mc sh l by (simp add: cm(1) new_fd_def)
qed


subsection \<open>A range write that fails\<close>

text \<open>
  C9: a range write is entered with a cursor that is not negative and with
  \<open>pos + len \<le> MAX_FILE_SIZE\<close> (\<open>ree_fs_write\<close> checks it, and the truncation enters with
  the old length and extends to a checked new length), where \<open>MAX_FILE_SIZE\<close> is an
  \<^verbatim>\<open>int\<close>. If \<open>out_of_place_write\<close> then fails, in whatever step of whatever block, the
  handle is returned as it was at entry, cursor, meta data and counter; every RPC write
  issued meanwhile went to an offset from 4 on, so none wrote the counter, and a file that
  had a counter has the same counter; and the \<open>ree_fs_write\<close> that made the call for a
  cursor inside the file returns that result with the handle unchanged, without a commit.
\<close>

theorem out_of_place_write_failure:
  assumes p0: "0 \<le> pos fdp"
    and pl: "pos fdp + int len \<le> MAX_FILE_SIZE cfg"
    and mx: "MAX_FILE_SIZE cfg < 2147483648"
    and ow: "out_of_place_write cfg fdp buf len new_meta w = (res, fdp', new_meta', w')"
    and fail: "res \<noteq> TEE_SUCCESS"
  shows "fdp' = fdp \<and>
         (\<exists>evs. rlog w' = rlog w @ evs \<and> (\<forall>e\<in>set evs. 4 \<le> ev_offs e)) \<and>
         (\<forall>c. disk_counter w (fd fdp) = Some c \<longrightarrow> disk_counter w' (fd fdp) = Some c) \<and>
         (0 < len \<and> new_meta = meta fdp \<and>
          to_size_t (pos fdp) \<le> unat (length_f (info (meta fdp))) \<longrightarrow>
            ree_fs_write cfg fdp buf len w = (res, fdp, w'))"
proof -
  have "pos fdp < 2147483648" using p0 pl mx by linarith
  then have ti: "to_int (pos fdp) = pos fdp" using p0 by (intro to_int_id) simp_all
  note fr = out_of_place_write_frame[OF ow]
  have h: "fdp' = fdp" using fr(3)[OF fail] ti by simp
  have l: "\<exists>evs. rlog w' = rlog w @ evs \<and> (\<forall>e\<in>set evs. 4 \<le> ev_offs e)"
    using fr(1) by (simp add: block_writes_only_def)
  have d: "\<forall>c. disk_counter w (fd fdp) = Some c \<longrightarrow> disk_counter w' (fd fdp) = Some c"
    using block_writes_only_disk_counter[OF fr(1)] by blast
  have wr: "ree_fs_write cfg fdp buf len w = (res, fdp, w')"
    if "0 < len" "new_meta = meta fdp" "to_size_t (pos fdp) \<le> unat (length_f (info (meta fdp)))"
  proof -
    have g: "\<not> (pos fdp + int len > MAX_FILE_SIZE cfg \<or> pos fdp + int len < int len)"
      using p0 pl by simp
    show ?thesis
      unfolding ree_fs_write_def Let_def using that g ow[unfolded h] fail by simp
  qed
  show ?thesis using h l d wr by blast
qed

subsection \<open>The counter grows\<close>

text \<open>
  C6, amended. Take a handle whose counter is the counter in the file (every successful
  create, open, write and truncate leaves it so) and is at least two steps below the
  largest \<^verbatim>\<open>uint32_t\<close>. A successful write of at least one byte leaves in the file the
  counter of the handle, which is the old counter plus 1, or plus 2 when the write first
  fills the hole up to the cursor: it is strictly larger. A successful truncate leaves the
  old counter plus 1 in the file. A write of no bytes succeeds and changes nothing. A
  read or a seek, successful or not, changes neither the counter of the handle nor the
  counter in the file. (The counter is computed modulo \<open>2^32\<close>: at the largest value a
  commit wraps it to 0.)
\<close>

theorem counter_monotone:
  assumes cons: "disk_counter w (fd fdp) = Some (meta_counter fdp)"
    and nowrap: "unat (meta_counter fdp) < 4294967294"
  shows "(ree_fs_write cfg fdp buf len w = (TEE_SUCCESS, fdp1, w1) \<and> 0 < len \<longrightarrow>
            fd fdp1 = fd fdp \<and>
            disk_counter w1 (fd fdp1) = Some (meta_counter fdp1) \<and>
            meta_counter fdp1 = meta_counter fdp +
              (if unat (length_f (info (meta fdp))) < to_size_t (pos fdp) then 2 else 1) \<and>
            unat (meta_counter fdp) < unat (meta_counter fdp1)) \<and>
         ree_fs_write cfg fdp buf 0 w = (TEE_SUCCESS, fdp, w) \<and>
         (ree_fs_truncate cfg fdp n w = (TEE_SUCCESS, fdp2, w2) \<longrightarrow>
            fd fdp2 = fd fdp \<and>
            disk_counter w2 (fd fdp2) = Some (meta_counter fdp2) \<and>
            meta_counter fdp2 = meta_counter fdp + 1 \<and>
            unat (meta_counter fdp) < unat (meta_counter fdp2)) \<and>
         (ree_fs_read cfg fdp m w = (r3, m3, out3, fdp3, w3) \<longrightarrow>
            fd fdp3 = fd fdp \<and> meta_counter fdp3 = meta_counter fdp \<and>
            disk_counter w3 (fd fdp3) = Some (meta_counter fdp3)) \<and>
         (ree_fs_seek cfg fdp offs wh = (r4, fdp4, new_offs) \<longrightarrow>
            fd fdp4 = fd fdp \<and> meta_counter fdp4 = meta_counter fdp)"
proof -
  have a: "fd fdp1 = fd fdp \<and>
            disk_counter w1 (fd fdp1) = Some (meta_counter fdp1) \<and>
            meta_counter fdp1 = meta_counter fdp +
              (if unat (length_f (info (meta fdp))) < to_size_t (pos fdp) then 2 else 1) \<and>
            unat (meta_counter fdp) < unat (meta_counter fdp1)"
    if "ree_fs_write cfg fdp buf len w = (TEE_SUCCESS, fdp1, w1)" "0 < len"
    using ree_fs_write_ok[OF that] unat_plus_small[OF nowrap] by auto
  have b: "ree_fs_write cfg fdp buf 0 w = (TEE_SUCCESS, fdp, w)"
    by (simp add: ree_fs_write_def)
  have c: "fd fdp2 = fd fdp \<and>
            disk_counter w2 (fd fdp2) = Some (meta_counter fdp2) \<and>
            meta_counter fdp2 = meta_counter fdp + 1 \<and>
            unat (meta_counter fdp) < unat (meta_counter fdp2)"
    if "ree_fs_truncate cfg fdp n w = (TEE_SUCCESS, fdp2, w2)"
    using ree_fs_ftruncate_internal_ok[of cfg fdp "int n" w fdp2 w2]
      ftruncate_cursor(2)[of cfg fdp "int n" w TEE_SUCCESS fdp2 w2]
      that unat_plus_small[OF nowrap]
    by (simp add: ree_fs_truncate_def)
  have d: "fd fdp3 = fd fdp \<and> meta_counter fdp3 = meta_counter fdp \<and>
            disk_counter w3 (fd fdp3) = Some (meta_counter fdp3)"
    if "ree_fs_read cfg fdp m w = (r3, m3, out3, fdp3, w3)"
  proof -
    from ree_fs_read_frame[OF that] obtain p where "fdp3 = fdp\<lparr> pos := p \<rparr>" "same_ree w w3"
      by blast
    then show ?thesis using cons by (simp add: disk_counter_def same_ree_fd_file)
  qed
  have e: "fd fdp4 = fd fdp \<and> meta_counter fdp4 = meta_counter fdp"
    if "ree_fs_seek cfg fdp offs wh = (r4, fdp4, new_offs)"
    using that by (auto simp: ree_fs_seek_def Let_def split: option.splits if_splits)
  show ?thesis using a b c d e by blast
qed

subsection \<open>The round trip\<close>

text \<open>
  C1, amended: on a file that has just been created, for every position \<open>P\<close> and every
  data of at least one byte with \<open>P + |data| \<le> MAX_FILE_SIZE\<close>, the sequence seek to \<open>P\<close>,
  write the data, close, open, seek to \<open>P\<close>, read \<open>|data|\<close> bytes succeeds at every step and
  the read returns the length \<open>|data|\<close> and a buffer equal to the data. This holds when the
  host and the key manager refuse no call (\<open>sched w = []\<close>), the name fits, and the
  parameters are as \<^const>\<open>cfg_ok\<close> says: the key manager decrypts what it encrypted, a
  ciphertext is a header longer than its plaintext, and the sizes fit the 32-bit types.
  The theorem states that the whole sequence returns, not only that its result is right
  when it does.
\<close>

theorem round_trip_preserves_data:
  assumes ok: "cfg_ok cfg" and sc: "sched w = []"
    and nl: "length fname + 1 \<le> TEE_FS_NAME_MAX cfg"
    and ne: "data \<noteq> []" and mx: "int (P + length data) \<le> MAX_FILE_SIZE cfg"
  shows "round_trip cfg fname (int P) data w = Some (length data, data)"
proof -
  let ?len = "length data"
  have r: "0 < ?len" using ne by simp
  from ree_fs_create_fwd[OF ok sc nl, of "\<lambda>n. []"]
  obtain h0 w0 f0 where
    c: "ree_fs_create cfg (Some fname) w = (TEE_SUCCESS, Some h0, w0)"
       "file_at w0 (fd h0) fname f0" "stored cfg f0 (meta h0) 0 (\<lambda>n. [])"
       "pos h0 = 0" "length_f (info (meta h0)) = 0"
       "length (encrypted_fek (meta h0)) = TEE_FS_KM_FEK_SIZE cfg"
    by blast
  have "MAX_FILE_SIZE cfg \<le> TEE_DATA_MAX_POSITION cfg" using ok by (simp add: cfg_ok_def)
  then have pm: "\<not> int P > TEE_DATA_MAX_POSITION cfg" using mx by simp
  have sk: "ree_fs_seek cfg g (int P) TEE_DATA_SEEK_SET
              = (TEE_SUCCESS, g\<lparr> pos := int P \<rparr>, Some (to_int (int P)))" for g
    unfolding ree_fs_seek_def Let_def using pm by simp
  let ?h1 = "h0\<lparr> pos := int P \<rparr>"
  have b: "fd ?h1 = fd h0" "pos ?h1 = int P" "stored cfg f0 (meta ?h1) 0 (\<lambda>n. [])"
      "length_f (info (meta ?h1)) = 0"
    using c(3,5) by simp_all
  from ree_fs_write_fwd[OF ok c(2) b r mx]
  obtain h2 w2 f2 K2 C2 where
    wr: "ree_fs_write cfg ?h1 (Some data) ?len w0 = (TEE_SUCCESS, h2, w2)"
        "fd h2 = fd h0" "sched w2 = []" "ree_files w2 fname = Some f2"
        "stored cfg f2 (meta h2) K2 C2" "committed cfg f2 h2"
        "(P + ?len - 1) div 256 < K2"
        "holds_data C2 P ?len data (P div 256) ((P + ?len - 1) div 256)"
        "length_f (info (meta h2)) = word_of_int (int (P + ?len))"
        "encrypted_fek (meta h2) = encrypted_fek (meta ?h1)"
    by blast
  let ?w3 = "tee_fs_rpc_close (fd h2) w2"
  have cl: "ree_fs_close (Some h2) w2 = (None, ?w3)" by (simp add: ree_fs_close_def)
  have w3: "sched ?w3 = []" "ree_files ?w3 fname = Some f2"
    using wr(3,4) by (simp_all add: tee_fs_rpc_close_def)
  have tl: "length (backup_version_table (info (meta h2))) = NUM_BLOCKS_PER_FILE cfg div 32"
    using wr(5) by (simp add: stored_def)
  have kl: "length (encrypted_fek (meta h2)) = TEE_FS_KM_FEK_SIZE cfg"
    using wr(10) c(6) by simp
  from ree_fs_open_fwd[OF ok w3 nl wr(6) tl kl]
  obtain h4 w4 where
    op: "ree_fs_open cfg (Some fname) ?w3 = (TEE_SUCCESS, Some h4, w4)"
        "file_at w4 (fd h4) fname f2" "info (meta h4) = info (meta h2)"
        "encrypted_fek (meta h4) = encrypted_fek (meta h2)"
    by blast
  let ?h5 = "h4\<lparr> pos := int P \<rparr>"
  have st5: "stored cfg f2 (meta ?h5) K2 C2"
    by (rule stored_cong[OF wr(5)]) (simp_all add: op(3,4))
  have fl5: "length_f (info (meta ?h5)) = word_of_int (int (P + ?len))"
    using wr(9) op(3) by simp
  have fd5: "fd ?h5 = fd h4" "pos ?h5 = int P" by simp_all
  from ree_fs_read_fwd[OF ok op(2) fd5 st5 r mx fl5 wr(7,8) refl]
  obtain h6 w6 where
    rd: "ree_fs_read cfg ?h5 ?len w4 = (TEE_SUCCESS, ?len, data, h6, w6)"
    by blast
  show ?thesis
    unfolding round_trip_def c(1) prod.case option.case sk wr(1) cl op(1) rd by simp
qed


section \<open>Runs of the small instance\<close>

text \<open>
  C2, as stated, fails in a state that the code reaches. A file is created and one byte
  is written while the host refuses the write of the counter: the write returns an error,
  the handle has the counter 1 and the file the counter 0. The shadow offset computed
  from the handle's counter is then the active offset selected by the counter in the
  file, offset 4, and the next write commits its meta data there while the file still
  has the counter 0.
\<close>

theorem shadow_is_active_after_failed_counter_write:
  "fst sc_fail_write = TEE_ERROR_GENERIC \<and>
   meta_counter (fst (snd sc_fail_write)) = 1 \<and>
   disk_counter (snd (snd sc_fail_write)) (fd (fst (snd sc_fail_write))) = Some 0 \<and>
   meta_pos_raw toy_cfg (fst (snd sc_fail_write)) False =
   meta_pos_raw toy_cfg ((fst (snd sc_fail_write))\<lparr> meta_counter := 0 \<rparr>) True \<and>
   meta_pos_raw toy_cfg (fst (snd sc_fail_write)) False = 4 \<and>
   drop (length (rlog (snd (snd sc_fail_write)))) (rlog (snd (snd sc_retry))) =
     [RpcWrite 3 299 257 TEE_SUCCESS, RpcWrite 3 4 11 TEE_SUCCESS, RpcWrite 3 0 4 TEE_SUCCESS]"
  by code_simp

theorem commit_meta_file_order_witness:
  "0 < meta_size toy_cfg \<and>
   disk_counter toy_world (fd toy_fd) = Some (meta_counter toy_fd) \<and>
   meta_pos_raw toy_cfg toy_fd False \<noteq> meta_pos_raw toy_cfg toy_fd True \<and>
   fst (commit_meta_file toy_cfg toy_fd (meta toy_fd) toy_world) = TEE_SUCCESS"
proof -
  have h1: "0 < meta_size toy_cfg" by code_simp
  have h2: "disk_counter toy_world (fd toy_fd) = Some (meta_counter toy_fd)" by code_simp
  have h3: "commit_meta_file toy_cfg toy_fd (meta toy_fd) toy_world =
      (fst (commit_meta_file toy_cfg toy_fd (meta toy_fd) toy_world),
       fst (snd (commit_meta_file toy_cfg toy_fd (meta toy_fd) toy_world)),
       snd (snd (commit_meta_file toy_cfg toy_fd (meta toy_fd) toy_world)))" by simp
  have h4: "fst (commit_meta_file toy_cfg toy_fd (meta toy_fd) toy_world) = TEE_SUCCESS"
    by code_simp
  show ?thesis
    using h1 h2 h4 commit_meta_file_order [OF h1 h2 refl h3] by simp
qed

text \<open>
  C3, as stated, fails: the create of the small instance writes the meta data at offset
  23, which is \<open>4 + meta_size\<close>, slot 1, and never at offset 4, slot 0.
\<close>

theorem create_writes_slot_1:
  "fst sc_create = TEE_SUCCESS \<and>
   rlog sc_w0 = [RpcWrite 3 23 11 TEE_SUCCESS, RpcWrite 3 0 4 TEE_SUCCESS] \<and>
   4 + meta_size toy_cfg = 23"
  by code_simp

theorem ree_fs_create_writes_witness:
  "fst sc_create = TEE_SUCCESS \<and> meta_counter sc_h0 = 0 \<and>
   disk_counter sc_w0 (fd sc_h0) = Some 0 \<and> meta_pos_raw toy_cfg sc_h0 False = 23"
proof -
  have s: "fst sc_create = TEE_SUCCESS" "4 + meta_size toy_cfg = 23" by code_simp+
  have n: "fst (snd sc_create) \<noteq> None" by code_simp
  have "sc_create = (fst sc_create, fst (snd sc_create), snd (snd sc_create))"
    by simp
  then have "sc_create = (TEE_SUCCESS, Some sc_h0, sc_w0)"
    unfolding sc_h0_def sc_w0_def using s(1) n by (metis option.collapse)
  then have h: "ree_fs_create toy_cfg (Some ''a'') empty_world = (TEE_SUCCESS, Some sc_h0, sc_w0)"
    by (simp add: sc_create_def)
  show ?thesis using s ree_fs_create_writes [OF h] by simp
qed

text \<open>
  C5 fails on the code. Three bytes are written to a new file and the first byte of the
  slot of block 0 is changed in the file, so that the key manager answers
  \<^const>\<open>TEE_ERROR_MAC_INVALID\<close> for the block. A write into the block and a truncate that
  extends the file inside the block return \<^const>\<open>TEE_ERROR_MAC_INVALID\<close> itself; a read
  of the block returns \<^const>\<open>TEE_ERROR_CORRUPT_OBJECT\<close>.
\<close>

theorem write_and_truncate_return_mac_invalid:
  "fst sc_write3 = TEE_SUCCESS \<and>
   fst (ree_fs_write toy_cfg (fst (snd sc_write3)) (Some [1]) 1 sc_tampered)
     = TEE_ERROR_MAC_INVALID \<and>
   fst (ree_fs_truncate toy_cfg (fst (snd sc_write3)) 10 sc_tampered)
     = TEE_ERROR_MAC_INVALID \<and>
   fst (ree_fs_read toy_cfg ((fst (snd sc_write3))\<lparr> pos := 0 \<rparr>) 3 sc_tampered)
     = TEE_ERROR_CORRUPT_OBJECT"
  by code_simp

text \<open>
  C6, as stated, fails: a write of no bytes to the new file succeeds, and the counter in
  the file is 0 before and after it.
\<close>

theorem empty_write_keeps_counter:
  "fst sc_empty_write = TEE_SUCCESS \<and>
   disk_counter sc_w0 (fd sc_h0) = Some 0 \<and>
   disk_counter (snd (snd sc_empty_write)) (fd (fst (snd sc_empty_write))) = Some 0"
  by code_simp

theorem counter_monotone_witness:
  "disk_counter sc_w0 (fd sc_h0) = Some (meta_counter sc_h0) \<and>
   unat (meta_counter sc_h0) < 4294967294 \<and>
   fst sc_write3 = TEE_SUCCESS \<and>
   disk_counter (snd (snd sc_write3)) (fd (fst (snd sc_write3)))
     = Some (meta_counter (fst (snd sc_write3))) \<and>
   unat (meta_counter sc_h0) < unat (meta_counter (fst (snd sc_write3)))"
proof -
  have h1: "disk_counter sc_w0 (fd sc_h0) = Some (meta_counter sc_h0)" by code_simp
  have "meta_counter sc_h0 = 0" by code_simp
  then have h2: "unat (meta_counter sc_h0) < 4294967294" by simp
  have s: "fst sc_write3 = TEE_SUCCESS" by code_simp
  have e0: "sc_write3 = (fst sc_write3, fst (snd sc_write3), snd (snd sc_write3))" by simp
  have e: "ree_fs_write toy_cfg sc_h0 (Some [7, 8, 9]) 3 sc_w0
      = (TEE_SUCCESS, fst (snd sc_write3), snd (snd sc_write3))"
    by (rule trans[OF sc_write3_def[symmetric]], subst (1) e0, simp only: s)
  note t = counter_monotone [OF h1 h2, of toy_cfg "Some [7, 8, 9]" 3
        "fst (snd sc_write3)" "snd (snd sc_write3)", THEN conjunct1]
  have "ree_fs_write toy_cfg sc_h0 (Some [7, 8, 9]) 3 sc_w0
      = (TEE_SUCCESS, fst (snd sc_write3), snd (snd sc_write3)) \<and> (0::nat) < 3"
    by (rule conjI[OF e]) simp
  then have c: "disk_counter (snd (snd sc_write3)) (fd (fst (snd sc_write3)))
       = Some (meta_counter (fst (snd sc_write3)))"
     "unat (meta_counter sc_h0) < unat (meta_counter (fst (snd sc_write3)))"
    using t by blast+
  show ?thesis using h1 h2 s c by (intro conjI)
qed

theorem out_of_place_write_failure_witness:
  "0 \<le> pos toy_fd \<and> pos toy_fd + int 300 \<le> MAX_FILE_SIZE toy_cfg \<and>
   MAX_FILE_SIZE toy_cfg < 2147483648 \<and>
   fst sc_range_fail = TEE_ERROR_GENERIC \<and>
   fst (snd sc_range_fail) = toy_fd \<and>
   disk_counter toy_world (fd toy_fd) = Some 0 \<and>
   disk_counter (snd (snd (snd sc_range_fail))) (fd toy_fd) = Some 0"
proof -
  have h1: "0 \<le> pos toy_fd" by code_simp
  have h2: "pos toy_fd + int 300 \<le> MAX_FILE_SIZE toy_cfg" by code_simp
  have h3: "MAX_FILE_SIZE toy_cfg < 2147483648" by code_simp
  have r: "fst sc_range_fail = TEE_ERROR_GENERIC" by code_simp
  then have h5: "fst sc_range_fail \<noteq> TEE_SUCCESS" by simp
  have h4: "out_of_place_write toy_cfg toy_fd (Some (replicate 300 7)) 300 (meta toy_fd)
      (toy_world\<lparr> sched := replicate 9 TEE_SUCCESS @ [TEE_ERROR_GENERIC] \<rparr>)
      = (fst sc_range_fail, fst (snd sc_range_fail), fst (snd (snd sc_range_fail)),
         snd (snd (snd sc_range_fail)))"
    unfolding sc_range_fail_def by (rule prod.collapse[symmetric, THEN trans]) simp
  have d: "disk_counter (toy_world\<lparr> sched := replicate 9 TEE_SUCCESS @ [TEE_ERROR_GENERIC] \<rparr>)
      (fd toy_fd) = Some 0" by code_simp
  have d0: "disk_counter toy_world (fd toy_fd) = Some 0" by code_simp
  note t = out_of_place_write_failure [OF h1 h2 h3 h4 h5]
  have a: "fst (snd sc_range_fail) = toy_fd" using t by (rule conjunct1)
  have "\<forall>c. disk_counter (toy_world\<lparr> sched := replicate 9 TEE_SUCCESS @ [TEE_ERROR_GENERIC] \<rparr>)
            (fd toy_fd) = Some c \<longrightarrow>
          disk_counter (snd (snd (snd sc_range_fail))) (fd toy_fd) = Some c"
    using t by (rule conjunct2[THEN conjunct2, THEN conjunct1])
  then have b: "disk_counter (snd (snd (snd sc_range_fail))) (fd toy_fd) = Some 0"
    using d by blast
  show ?thesis using h1 h2 h3 r a d0 b by (intro conjI)
qed

text \<open>
  C10 fails on the code. Two seeks move the cursor of the new file to \<open>2^31\<close>, a position
  that \<open>ree_fs_seek\<close> accepts. A truncate that extends the file to one byte succeeds and
  leaves the cursor at \<open>- 2^31\<close>: the cursor is kept in an \<^verbatim>\<open>int\<close> meanwhile.
\<close>

theorem truncate_moves_far_cursor:
  "pos sc_far = 2147483648 \<and>
   fst (ree_fs_truncate toy_cfg sc_far 1 sc_w0) = TEE_SUCCESS \<and>
   pos (fst (snd (ree_fs_truncate toy_cfg sc_far 1 sc_w0))) = - 2147483648"
  by code_simp


text \<open>
  C1, as stated, fails for the empty data. A write of no bytes returns at once and commits
  nothing, so the file is as \<open>create_meta\<close> left it: the counter 0 and the meta data in
  slot 1. Opening it reads the slot that the counter 0 makes active, slot 0, which was
  never written, and the key manager refuses what is there: the open fails with
  \<^const>\<open>TEE_ERROR_CORRUPT_OBJECT\<close> and the round trip does not reach its read.
\<close>

theorem round_trip_empty_data_fails:
  "cfg_ok toy_cfg \<and> sched empty_world = [] \<and>
   int (0 + length ([] :: byte list)) \<le> MAX_FILE_SIZE toy_cfg \<and>
   fst sc_empty_write = TEE_SUCCESS \<and>
   fst sc_reopen = TEE_ERROR_CORRUPT_OBJECT \<and>
   round_trip toy_cfg ''a'' 0 [] empty_world = None"
proof -
  have 1: "sched empty_world = []" by code_simp
  have 2: "int (0 + length ([] :: byte list)) \<le> MAX_FILE_SIZE toy_cfg"
    by (simp add: toy_cfg_fields)
  have 3: "fst sc_empty_write = TEE_SUCCESS" by code_simp
  have 4: "fst sc_reopen = TEE_ERROR_CORRUPT_OBJECT" by code_simp
  have 5: "round_trip toy_cfg ''a'' 0 [] empty_world = None" by code_simp
  show ?thesis using cfg_ok_toy 1 2 3 4 5 by (intro conjI)
qed

theorem round_trip_preserves_data_witness:
  "round_trip toy_cfg ''a'' (int 300) [1, 2, 3] empty_world = Some (length [1, 2, 3 :: byte], [1, 2, 3])"
  using round_trip_preserves_data[OF cfg_ok_toy, of empty_world "''a''" "[1, 2, 3]" 300]
  by (simp add: empty_world_def toy_cfg_fields)
end
